(* ===== verification/Sabon_Prelude.thy ===== *)
theory Sabon_Prelude
  imports Main "HOL-Library.Sublist" "HOL-Library.AList" "HOL-Library.Multiset"
    "HOL-Library.List_Lexorder" "HOL-Library.Char_ord"
begin

text \<open>
  Shared ground of the sabon development.

  \<^item> Go strings are byte sequences, so they are \<^typ>\<open>string\<close> (a list of 8-bit characters).
  \<^item> Go errors are values of \<open>error\<close>: \<open>Errorf\<close> is \<^verbatim>\<open>fmt.Errorf\<close> with its format
    and arguments, \<open>Wrapf\<close> the same with one wrapped error (\<^verbatim>\<open>%w\<close>), \<open>Joined\<close>
    \<^verbatim>\<open>errors.Join\<close>, \<open>External\<close> an error that a call outside the repository
    returns, \<open>Canceled\<close> and \<open>DeadlineExceeded\<close> the two context errors.
  \<^item> A fallible operation returns \<open>'a res\<close> (\<open>Inl\<close> the error, \<open>Inr\<close> the value); an
    operation that returns only an error returns \<open>error option\<close>.
  \<^item> A Go map is an association list with distinct keys (\<open>('k, 'v) gomap\<close>): the order of the
    list is the order in which a \<^verbatim>\<open>range\<close> loop visits the entries, which Go leaves open.
\<close>

section \<open>Errors and results\<close>

datatype error =
    Errorf string "string list"
  | Wrapf string "string list" error
  | Joined "error list"
  | External string
  | Canceled
  | DeadlineExceeded

type_synonym 'a res = "error + 'a"

type_synonym ('k, 'v) gomap = "('k \<times> 'v) list"

named_theorems go_simps \<open>evaluation of the Go library functions\<close>
named_theorems wf_intros \<open>introduction rules of the well-formedness invariants\<close>

definition res_bind :: "'a res \<Rightarrow> ('a \<Rightarrow> 'b res) \<Rightarrow> 'b res" where
  "res_bind r f = (case r of Inl e \<Rightarrow> Inl e | Inr x \<Rightarrow> f x)"

lemma res_bind_Inl [simp]: "res_bind (Inl e) f = Inl e"
  by (simp add: res_bind_def)

lemma res_bind_Inr [simp]: "res_bind (Inr x) f = f x"
  by (simp add: res_bind_def)

lemma res_bind_eq_Inr: "res_bind r f = Inr y \<longleftrightarrow> (\<exists>x. r = Inr x \<and> f x = Inr y)"
  by (cases r) auto

lemma res_bind_eq_Inl:
  "res_bind r f = Inl e \<longleftrightarrow> r = Inl e \<or> (\<exists>x. r = Inr x \<and> f x = Inl e)"
  by (cases r) auto

text \<open>
  A loop that stops at the first error: the results of the body in order, or the error of the
  first iteration that fails.
\<close>

fun res_map :: "('a \<Rightarrow> 'b res) \<Rightarrow> 'a list \<Rightarrow> 'b list res" where
  "res_map f [] = Inr []"
| "res_map f (x # xs) =
     (case f x of Inl e \<Rightarrow> Inl e
      | Inr y \<Rightarrow> (case res_map f xs of Inl e \<Rightarrow> Inl e | Inr ys \<Rightarrow> Inr (y # ys)))"

lemma res_map_Inr_iff:
  "res_map f xs = Inr ys \<longleftrightarrow> list_all2 (\<lambda>x y. f x = Inr y) xs ys"
proof (induction xs arbitrary: ys)
  case Nil
  then show ?case by auto
next
  case (Cons x xs)
  show ?case
  proof
    assume "res_map f (x # xs) = Inr ys"
    then obtain y ys' where "f x = Inr y" "res_map f xs = Inr ys'" "ys = y # ys'"
      by (auto split: sum.splits)
    with Cons.IH[of ys'] show "list_all2 (\<lambda>x y. f x = Inr y) (x # xs) ys" by simp
  next
    assume "list_all2 (\<lambda>x y. f x = Inr y) (x # xs) ys"
    then obtain y ys' where "ys = y # ys'" "f x = Inr y" "list_all2 (\<lambda>x y. f x = Inr y) xs ys'"
      by (auto simp: list_all2_Cons1)
    with Cons.IH[of ys'] show "res_map f (x # xs) = Inr ys" by simp
  qed
qed

text \<open>\<^verbatim>\<open>if err := a; err != nil { return err }\<close> followed by \<open>b\<close>.\<close>

definition or_err :: "error option \<Rightarrow> error option \<Rightarrow> error option" where
  "or_err a b = (case a of Some e \<Rightarrow> Some e | None \<Rightarrow> b)"

lemma or_err_simps [simp]: "or_err (Some e) b = Some e" "or_err None b = b"
  by (simp_all add: or_err_def)

lemma or_err_None_iff [simp]: "or_err a b = None \<longleftrightarrow> a = None \<and> b = None"
  by (cases a) auto

text \<open>A loop whose body only checks: the first error, or none.\<close>

fun first_err :: "('a \<Rightarrow> error option) \<Rightarrow> 'a list \<Rightarrow> error option" where
  "first_err f [] = None"
| "first_err f (x # xs) = (case f x of Some e \<Rightarrow> Some e | None \<Rightarrow> first_err f xs)"

lemma first_err_None_iff: "first_err f xs = None \<longleftrightarrow> (\<forall>x\<in>set xs. f x = None)"
  by (induction xs) (auto split: option.splits)

lemma first_err_SomeD: "first_err f xs = Some e \<Longrightarrow> \<exists>x\<in>set xs. f x = Some e"
  by (induction xs) (auto split: option.splits)

text \<open>\<^verbatim>\<open>errors.Join\<close>: no error for an empty list.\<close>

definition errors_Join :: "error list \<Rightarrow> error option" where
  "errors_Join es = (if es = [] then None else Some (Joined es))"

lemma errors_Join_None [simp]: "errors_Join es = None \<longleftrightarrow> es = []"
  by (simp add: errors_Join_def)

section \<open>Go maps\<close>

text \<open>Reading a missing key of a Go map yields the zero value of the element type.\<close>

definition lookup_str :: "(string, string) gomap \<Rightarrow> string \<Rightarrow> string" where
  "lookup_str m k = (case map_of m k of Some v \<Rightarrow> v | None \<Rightarrow> [])"

definition wf_map :: "('k, 'v) gomap \<Rightarrow> bool" where
  "wf_map m \<longleftrightarrow> distinct (map fst m)"

lemma wf_map_Nil [simp, wf_intros]: "wf_map []"
  by (simp add: wf_map_def)

lemma wf_map_update [simp, wf_intros]: "wf_map m \<Longrightarrow> wf_map (AList.update k v m)"
  by (simp add: wf_map_def distinct_update)

lemma wf_map_map_of_iff: "wf_map m \<Longrightarrow> map_of m k = Some v \<longleftrightarrow> (k, v) \<in> set m"
  by (simp add: wf_map_def)

lemma lookup_str_update:
  "lookup_str (AList.update k v m) k' = (if k = k' then v else lookup_str m k')"
  by (simp add: lookup_str_def update_conv)

text \<open>Two iteration orders of the same map look up alike.\<close>

lemma map_of_perm:
  assumes "wf_map m" and "mset m = mset m'"
  shows "map_of m = map_of m'"
proof -
  have "mset (map fst m) = mset (map fst m')"
    using assms(2) by simp
  with assms(1) have d: "distinct (map fst m')"
    unfolding wf_map_def by (metis mset_eq_imp_distinct_iff)
  have "set m = set m'" using assms(2) by (rule mset_eq_setD)
  with assms(1) d show ?thesis
    by (simp add: wf_map_def map_of_inject_set)
qed

section \<open>Sorting\<close>

text \<open>
  \<^verbatim>\<open>sort.Slice\<close> sorts by a strict order and leaves the order of equal elements open. The
  code's sorts are an argument of the definitions that use them; this interface is what they rely
  on, and the proofs about the sorted results are done once here.
\<close>

locale slice_sorter =
  fixes srt :: "'a list \<Rightarrow> 'a list" and key :: "'a \<Rightarrow> 'k::linorder"
  assumes srt_mset: "mset (srt xs) = mset xs"
    and srt_sorted: "sorted (map key (srt xs))"
begin

lemma srt_set: "set (srt xs) = set xs"
  by (metis srt_mset set_mset_mset)

lemma srt_length: "length (srt xs) = length xs"
  by (metis srt_mset size_mset)

lemma srt_distinct_map: "distinct (map f (srt xs)) = distinct (map f xs)"
proof -
  have "mset (map f (srt xs)) = mset (map f xs)"
    by (simp add: srt_mset)
  then show ?thesis by (metis mset_eq_imp_distinct_iff)
qed

text \<open>Every element of the first \<open>n\<close> is at most every element after them.\<close>

lemma srt_take_le:
  assumes "x \<in> set (take n (srt xs))" and "y \<in> set (drop n (srt xs))"
  shows "key x \<le> key y"
proof -
  have "sorted (map key (take n (srt xs)) @ map key (drop n (srt xs)))"
    using srt_sorted[of xs] by (simp flip: map_append)
  with assms show ?thesis by (auto simp: sorted_append)
qed

end

text \<open>The library's stable sort is one implementation.\<close>

interpretation stable_sort: slice_sorter "sort_key key" key for key :: "'a \<Rightarrow> 'k::linorder"
  by unfold_locales simp_all

section \<open>Lists\<close>

lemma distinct_map_filter_key: "distinct (map f xs) \<Longrightarrow> distinct (map f (filter P xs))"
  by (induction xs) auto

lemma mset_filter_perm: "mset xs = mset ys \<Longrightarrow> mset (filter P xs) = mset (filter P ys)"
  by simp

lemma update_new: "map_of m k = None \<Longrightarrow> AList.update k v m = m @ [(k, v)]"
  by (induction m) (auto split: if_splits)

end
