(* ===== verification/Go_Strings.thy ===== *)
theory Go_Strings
  imports Sabon_Prelude
begin

text \<open>
  The functions of Go's \<^verbatim>\<open>strings\<close> and \<^verbatim>\<open>strconv\<close> packages that sabon calls, on byte
  strings: prefixes, \<^verbatim>\<open>Index\<close>, \<^verbatim>\<open>Cut\<close>, \<^verbatim>\<open>Split\<close>, \<^verbatim>\<open>Join\<close>,
  \<^verbatim>\<open>Trim\<close>, \<^verbatim>\<open>ReplaceAll\<close>, decimal numbers, and the width of a UTF-8 rune for the
  functions that walk a string rune by rune.
\<close>

section \<open>Prefixes\<close>

abbreviation HasPrefix :: "string \<Rightarrow> string \<Rightarrow> bool" where
  "HasPrefix s p \<equiv> prefix p s"

definition CutPrefix :: "string \<Rightarrow> string \<Rightarrow> string option" where
  "CutPrefix s p = (if prefix p s then Some (drop (length p) s) else None)"

definition TrimPrefix :: "string \<Rightarrow> string \<Rightarrow> string" where
  "TrimPrefix s p = (if prefix p s then drop (length p) s else s)"

lemma CutPrefix_append [simp]: "CutPrefix (p @ s) p = Some s"
  by (simp add: CutPrefix_def)

lemma CutPrefix_Some_iff: "CutPrefix s p = Some t \<longleftrightarrow> s = p @ t"
  by (auto simp: CutPrefix_def prefix_def)

lemma CutPrefix_None_iff: "CutPrefix s p = None \<longleftrightarrow> \<not> prefix p s"
  by (simp add: CutPrefix_def)

lemma TrimPrefix_append [simp]: "TrimPrefix (p @ s) p = s"
  by (simp add: TrimPrefix_def)

section \<open>Searching\<close>

fun Index :: "string \<Rightarrow> string \<Rightarrow> nat option" where
  "Index [] sub = (if sub = [] then Some 0 else None)"
| "Index (c # s) sub =
     (if prefix sub (c # s) then Some 0 else map_option Suc (Index s sub))"

definition Contains :: "string \<Rightarrow> string \<Rightarrow> bool" where
  "Contains s sub \<longleftrightarrow> Index s sub \<noteq> None"

definition ContainsAny :: "string \<Rightarrow> string \<Rightarrow> bool" where
  "ContainsAny s cs \<longleftrightarrow> list_ex (\<lambda>c. c \<in> set cs) s"

fun LastIndex :: "string \<Rightarrow> char \<Rightarrow> nat option" where
  "LastIndex [] x = None"
| "LastIndex (c # s) x =
     (case LastIndex s x of Some i \<Rightarrow> Some (Suc i) | None \<Rightarrow> if c = x then Some 0 else None)"

lemma Index_SomeD: "Index s sub = Some i \<Longrightarrow> prefix sub (drop i s) \<and> i \<le> length s"
  by (induction s arbitrary: i) (auto split: if_splits)

lemma Index_Some_first: "Index s sub = Some i \<Longrightarrow> j < i \<Longrightarrow> \<not> prefix sub (drop j s)"
proof (induction s arbitrary: i j)
  case Nil
  then show ?case by (auto split: if_splits)
next
  case (Cons c s)
  then show ?case by (cases j) (auto split: if_splits)
qed

lemma Index_None_iff: "Index s sub = None \<longleftrightarrow> (\<forall>j \<le> length s. \<not> prefix sub (drop j s))"
proof (induction s)
  case Nil
  then show ?case by auto
next
  case (Cons c s)
  have "(\<forall>j \<le> length (c # s). \<not> prefix sub (drop j (c # s))) \<longleftrightarrow>
      \<not> prefix sub (c # s) \<and> (\<forall>j \<le> length s. \<not> prefix sub (drop j s))" (is "?l = ?r")
  proof
    assume l: ?l
    have "\<not> prefix sub (drop j s)" if "j \<le> length s" for j
      using l[rule_format, of "Suc j"] that by simp
    moreover have "\<not> prefix sub (c # s)" using l[rule_format, of 0] by simp
    ultimately show ?r by blast
  next
    assume r: ?r
    show ?l
    proof (intro allI impI)
      fix j assume "j \<le> length (c # s)"
      with r show "\<not> prefix sub (drop j (c # s))" by (cases j) auto
    qed
  qed
  with Cons.IH show ?case by simp
qed

lemma Contains_iff_sublist: "Contains s sub \<longleftrightarrow> sublist sub s"
proof
  assume "Contains s sub"
  then obtain i where "Index s sub = Some i" by (auto simp: Contains_def)
  then have "prefix sub (drop i s)" using Index_SomeD by blast
  then show "sublist sub s"
    by (meson prefix_imp_sublist sublist_drop sublist_order.order_trans)
next
  assume "sublist sub s"
  then obtain ps ss where s: "s = ps @ sub @ ss" by (auto simp: sublist_def)
  have "\<not> (\<forall>j \<le> length s. \<not> prefix sub (drop j s))"
    by (auto simp: s intro!: exI[of _ "length ps"])
  then show "Contains s sub" by (auto simp: Contains_def Index_None_iff)
qed

lemma ContainsAny_iff: "ContainsAny s cs \<longleftrightarrow> set s \<inter> set cs \<noteq> {}"
  by (auto simp: ContainsAny_def list_ex_iff)

section \<open>Cut, Split and Join\<close>

definition Cut :: "string \<Rightarrow> string \<Rightarrow> string \<times> string \<times> bool" where
  "Cut s sep = (case Index s sep of
      None \<Rightarrow> (s, [], False)
    | Some i \<Rightarrow> (take i s, drop (i + length sep) s, True))"

lemma Cut_found: "Cut s sep = (a, b, True) \<Longrightarrow> s = a @ sep @ b"
proof -
  assume "Cut s sep = (a, b, True)"
  then obtain i where i: "Index s sep = Some i" and ab: "a = take i s" "b = drop (i + length sep) s"
    by (auto simp: Cut_def split: option.splits)
  from Index_SomeD[OF i] obtain r where "drop i s = sep @ r" by (auto simp: prefix_def)
  then show ?thesis
    by (metis ab append_take_drop_id append_eq_conv_conj drop_drop add.commute)
qed

lemma Index_char_append:
  "x \<notin> set a \<Longrightarrow> Index (a @ x # b) [x] = Some (length a)"
  by (induction a) auto

lemma Index_char_None: "Index s [x] = None \<longleftrightarrow> x \<notin> set s"
  by (induction s) auto

lemma Index_char_absent [simp]: "x \<notin> set s \<Longrightarrow> Index s [x] = None"
  by (simp add: Index_char_None)

lemma Cut_char [simp]: "x \<notin> set a \<Longrightarrow> Cut (a @ x # b) [x] = (a, b, True)"
  by (simp add: Cut_def Index_char_append)

lemma Cut_char_absent [simp]: "x \<notin> set s \<Longrightarrow> Cut s [x] = (s, [], False)"
  by (simp add: Cut_def)

lemma Cut_fst_char: "x \<notin> set (fst (Cut s [x]))"
proof (cases "x \<in> set s")
  case True
  then obtain a b where "s = a @ x # b" "x \<notin> set a" by (meson split_list_first)
  then show ?thesis by simp
qed simp

fun Split :: "string \<Rightarrow> char \<Rightarrow> string list" where
  "Split [] x = [[]]"
| "Split (c # s) x =
     (if c = x then [] # Split s x
      else (case Split s x of h # t \<Rightarrow> (c # h) # t | [] \<Rightarrow> [[c]]))"

fun Join :: "string list \<Rightarrow> string \<Rightarrow> string" where
  "Join [] sep = []"
| "Join [a] sep = a"
| "Join (a # b # xs) sep = a @ sep @ Join (b # xs) sep"

lemma Split_not_Nil [simp]: "Split s x \<noteq> []"
  by (induction s) (auto split: list.splits)

lemma Join_Cons: "xs \<noteq> [] \<Longrightarrow> Join (a # xs) sep = a @ sep @ Join xs sep"
  by (cases xs) auto

lemma Join_append:
  "xs \<noteq> [] \<Longrightarrow> ys \<noteq> [] \<Longrightarrow> Join (xs @ ys) sep = Join xs sep @ sep @ Join ys sep"
proof (induction xs)
  case (Cons a xs)
  then show ?case by (cases "xs = []") (auto simp: Join_Cons)
qed simp

lemma Join_Split: "Join (Split s x) [x] = s"
proof (induction s)
  case (Cons c s)
  obtain h t where ht: "Split s x = h # t" by (meson Split_not_Nil neq_Nil_conv)
  then show ?case using Cons by (cases t) (auto simp: Join_Cons)
qed simp

lemma Split_no_sep: "p \<in> set (Split s x) \<Longrightarrow> x \<notin> set p"
proof (induction s arbitrary: p)
  case (Cons c s)
  obtain h t where ht: "Split s x = h # t" by (meson Split_not_Nil neq_Nil_conv)
  with Cons show ?case by (auto split: if_splits)
qed simp

lemma Split_absent [simp]: "x \<notin> set s \<Longrightarrow> Split s x = [s]"
  by (induction s) auto

lemma Split_append_sep: "x \<notin> set a \<Longrightarrow> Split (a @ x # b) x = a # Split b x"
  by (induction a) auto

lemma Split_append_Split: "Split (a @ x # b) x = Split a x @ Split b x"
proof (induction a)
  case (Cons c a)
  obtain h t where "Split a x = h # t" by (meson Split_not_Nil neq_Nil_conv)
  with Cons show ?case by auto
qed simp

lemma Split_Join:
  "ps \<noteq> [] \<Longrightarrow> (\<And>p. p \<in> set ps \<Longrightarrow> x \<notin> set p) \<Longrightarrow> Split (Join ps [x]) x = ps"
proof (induction ps)
  case (Cons p ps)
  show ?case
  proof (cases "ps = []")
    case True
    with Cons.prems show ?thesis by simp
  next
    case False
    then have "Split (Join ps [x]) x = ps" using Cons by simp
    moreover have "x \<notin> set p" using Cons.prems by simp
    ultimately show ?thesis using False by (simp add: Join_Cons Split_append_sep)
  qed
qed simp

section \<open>Trimming\<close>

definition TrimLeft :: "string \<Rightarrow> string \<Rightarrow> string" where
  "TrimLeft s cutset = dropWhile (\<lambda>c. c \<in> set cutset) s"

definition TrimRight :: "string \<Rightarrow> string \<Rightarrow> string" where
  "TrimRight s cutset = rev (dropWhile (\<lambda>c. c \<in> set cutset) (rev s))"

definition Trim :: "string \<Rightarrow> string \<Rightarrow> string" where
  "Trim s cutset = TrimRight (TrimLeft s cutset) cutset"

lemma set_TrimLeft: "set (TrimLeft s cs) \<subseteq> set s"
  by (auto simp: TrimLeft_def dest: set_dropWhileD)

lemma set_TrimRight: "set (TrimRight s cs) \<subseteq> set s"
  by (auto simp: TrimRight_def dest: set_dropWhileD)

lemma set_Trim: "set (Trim s cs) \<subseteq> set s"
  using set_TrimLeft set_TrimRight by (fastforce simp: Trim_def)

lemma TrimRight_last: "TrimRight s cs \<noteq> [] \<Longrightarrow> last (TrimRight s cs) \<notin> set cs"
  using hd_dropWhile[of "\<lambda>c. c \<in> set cs" "rev s"] by (auto simp: TrimRight_def last_rev)

lemma TrimRight_prefix: "prefix (TrimRight s cs) s"
proof -
  have "suffix (dropWhile (\<lambda>c. c \<in> set cs) (rev s)) (rev s)" by (rule suffix_dropWhile)
  then show ?thesis by (simp add: TrimRight_def suffix_to_prefix)
qed

lemma Trim_first: "Trim s cs \<noteq> [] \<Longrightarrow> hd (Trim s cs) \<notin> set cs"
proof -
  assume ne: "Trim s cs \<noteq> []"
  have "prefix (Trim s cs) (TrimLeft s cs)" by (simp add: Trim_def TrimRight_prefix)
  with ne have "hd (Trim s cs) = hd (TrimLeft s cs)" "TrimLeft s cs \<noteq> []"
    by (auto simp: prefix_def hd_append)
  then show ?thesis using hd_dropWhile[of "\<lambda>c. c \<in> set cs" s] by (auto simp: TrimLeft_def)
qed

text \<open>
  \<^verbatim>\<open>strings.TrimSpace\<close> cuts the Unicode white space at both ends; these are its UTF-8
  encodings. No encoding is a prefix or a suffix of another, so cutting encodings is cutting runes.
\<close>

definition space_runes :: "string list" where
  "space_runes =
     [[CHR 0x09], [CHR 0x0A], [CHR 0x0B], [CHR 0x0C], [CHR 0x0D], [CHR 0x20],
      [CHR 0xC2, CHR 0x85], [CHR 0xC2, CHR 0xA0], [CHR 0xE1, CHR 0x9A, CHR 0x80],
      [CHR 0xE2, CHR 0x80, CHR 0x80], [CHR 0xE2, CHR 0x80, CHR 0x81],
      [CHR 0xE2, CHR 0x80, CHR 0x82], [CHR 0xE2, CHR 0x80, CHR 0x83],
      [CHR 0xE2, CHR 0x80, CHR 0x84], [CHR 0xE2, CHR 0x80, CHR 0x85],
      [CHR 0xE2, CHR 0x80, CHR 0x86], [CHR 0xE2, CHR 0x80, CHR 0x87],
      [CHR 0xE2, CHR 0x80, CHR 0x88], [CHR 0xE2, CHR 0x80, CHR 0x89],
      [CHR 0xE2, CHR 0x80, CHR 0x8A], [CHR 0xE2, CHR 0x80, CHR 0xA8],
      [CHR 0xE2, CHR 0x80, CHR 0xA9], [CHR 0xE2, CHR 0x80, CHR 0xAF],
      [CHR 0xE2, CHR 0x81, CHR 0x9F], [CHR 0xE3, CHR 0x80, CHR 0x80]]"

function trim_runes :: "string list \<Rightarrow> string \<Rightarrow> string" where
  "trim_runes rs s =
     (case find (\<lambda>r. r \<noteq> [] \<and> prefix r s) rs of
        None \<Rightarrow> s
      | Some r \<Rightarrow> trim_runes rs (drop (length r) s))"
  by pat_completeness auto
termination
  by (relation "measure (\<lambda>(rs, s). length s)")
    (auto simp: find_Some_iff prefix_def)

declare trim_runes.simps [simp del]

definition TrimSpace :: "string \<Rightarrow> string" where
  "TrimSpace s = rev (trim_runes (map rev space_runes) (rev (trim_runes space_runes s)))"

lemma trim_runes_suffix: "suffix (trim_runes rs s) s"
proof (induction rs s rule: trim_runes.induct)
  case (1 rs s)
  show ?case
  proof (cases "find (\<lambda>r. r \<noteq> [] \<and> prefix r s) rs")
    case None
    then show ?thesis by (simp add: trim_runes.simps)
  next
    case (Some r)
    with 1 have "suffix (trim_runes rs (drop (length r) s)) (drop (length r) s)" by simp
    then show ?thesis using Some
      by (metis (no_types, lifting) option.simps(5) suffix_drop suffix_order.trans trim_runes.simps)
  qed
qed

lemma set_TrimSpace: "set (TrimSpace s) \<subseteq> set s"
proof -
  have "set (trim_runes rs t) \<subseteq> set t" for rs and t :: string
    using trim_runes_suffix set_mono_suffix by blast
  then show ?thesis
    unfolding TrimSpace_def by (metis (no_types, lifting) set_rev subset_trans)
qed

section \<open>Replacing\<close>

text \<open>\<^verbatim>\<open>strings.ReplaceAll\<close> for a non-empty pattern (the only use is \<^verbatim>\<open>{app}\<close>).\<close>

function ReplaceAll :: "string \<Rightarrow> string \<Rightarrow> string \<Rightarrow> string" where
  "ReplaceAll [] old new = []"
| "ReplaceAll (c # s) old new =
     (if old \<noteq> [] \<and> prefix old (c # s)
      then new @ ReplaceAll (drop (length old) (c # s)) old new
      else c # ReplaceAll s old new)"
  by pat_completeness auto
termination
  by (relation "measure (\<lambda>(s, old, new). length s)") (auto simp: prefix_def neq_Nil_conv)

lemma ReplaceAll_absent: "\<not> Contains s old \<Longrightarrow> ReplaceAll s old new = s"
proof (induction s old new rule: ReplaceAll.induct)
  case (2 c s old new)
  then have "\<not> prefix old (c # s)" and "\<not> Contains s old"
    by (auto simp: Contains_def split: if_splits)
  with 2 show ?case by simp
qed simp

section \<open>Decimal numbers\<close>

fun digits :: "nat \<Rightarrow> string" where
  "digits n = (if n < 10 then [char_of (48 + n)] else digits (n div 10) @ [char_of (48 + n mod 10)])"

declare digits.simps [simp del]

definition Itoa :: "int \<Rightarrow> string" where
  "Itoa i = (if i < 0 then CHR ''-'' # digits (nat (- i)) else digits (nat i))"

definition undigits :: "string \<Rightarrow> nat" where
  "undigits s = foldl (\<lambda>acc c. 10 * acc + (of_char c - 48)) 0 s"

lemma undigits_snoc [simp]: "undigits (s @ [c]) = 10 * undigits s + (of_char c - 48)"
  by (simp add: undigits_def)

lemma digit_char [simp]: "n < 10 \<Longrightarrow> (of_char (char_of (48 + n :: nat)) :: nat) = 48 + n"
  by simp

lemma undigits_digits [simp]: "undigits (digits n) = n"
proof (induction n rule: digits.induct)
  case (1 n)
  show ?case
  proof (cases "n < 10")
    case True
    then show ?thesis by (simp add: digits.simps undigits_def)
  next
    case False
    with 1 have "undigits (digits (n div 10)) = n div 10" by simp
    with False show ?thesis by (subst digits.simps) simp
  qed
qed

lemma digits_inject [simp]: "digits m = digits n \<longleftrightarrow> m = n"
  by (metis undigits_digits)

lemma digits_not_Nil [simp]: "digits n \<noteq> []"
  by (subst digits.simps) simp

definition is_digit :: "char \<Rightarrow> bool" where
  "is_digit c \<longleftrightarrow> CHR ''0'' \<le> c \<and> c \<le> CHR ''9''"

lemma char_le_iff: "c \<le> d \<longleftrightarrow> (of_char c :: nat) \<le> of_char d"
  by (simp add: less_eq_char_def)

lemma digits_are_digits: "c \<in> set (digits n) \<Longrightarrow> is_digit c"
proof (induction n rule: digits.induct)
  case (1 n)
  show ?case
  proof (cases "n < 10")
    case True
    with 1 show ?thesis by (simp add: digits.simps is_digit_def char_le_iff)
  next
    case False
    then have "digits n = digits (n div 10) @ [char_of (48 + n mod 10)]"
      by (subst digits.simps) simp
    with 1 False show ?thesis by (auto simp: is_digit_def char_le_iff)
  qed
qed

lemma Itoa_of_nat [simp]: "Itoa (int n) = digits n"
  by (simp add: Itoa_def)

section \<open>Runes\<close>

text \<open>
  The number of bytes of the first rune of a string, as \<^verbatim>\<open>utf8.DecodeRune\<close> computes it: the
  length of a valid encoding, and 1 for a byte that starts none.
\<close>

definition in_range :: "nat \<Rightarrow> nat \<Rightarrow> char \<Rightarrow> bool" where
  "in_range lo hi c \<longleftrightarrow> lo \<le> of_char c \<and> of_char c \<le> hi"

fun rune_width :: "string \<Rightarrow> nat" where
  "rune_width [] = 0"
| "rune_width (a # s) =
     (if in_range 0xC2 0xDF a then
        (case s of b # _ \<Rightarrow> if in_range 0x80 0xBF b then 2 else 1 | _ \<Rightarrow> 1)
      else if in_range 0xE0 0xEF a then
        (case s of b # c # _ \<Rightarrow>
           if in_range (if a = CHR 0xE0 then 0xA0 else 0x80) (if a = CHR 0xED then 0x9F else 0xBF) b
              \<and> in_range 0x80 0xBF c
           then 3 else 1
         | _ \<Rightarrow> 1)
      else if in_range 0xF0 0xF4 a then
        (case s of b # c # d # _ \<Rightarrow>
           if in_range (if a = CHR 0xF0 then 0x90 else 0x80) (if a = CHR 0xF4 then 0x8F else 0xBF) b
              \<and> in_range 0x80 0xBF c \<and> in_range 0x80 0xBF d
           then 4 else 1
         | _ \<Rightarrow> 1)
      else 1)"

lemma rune_width_pos: "s \<noteq> [] \<Longrightarrow> 0 < rune_width s"
  by (cases s) (auto split: list.splits)

text \<open>\<^verbatim>\<open>strings.Map\<close> that keeps the ASCII bytes of a class and turns every other rune to a dash.\<close>

function dash_runes :: "(char \<Rightarrow> bool) \<Rightarrow> string \<Rightarrow> string" where
  "dash_runes ok [] = []"
| "dash_runes ok (c # s) =
     (if ok c then c # dash_runes ok s
      else CHR ''-'' # dash_runes ok (drop (rune_width (c # s)) (c # s)))"
  by pat_completeness auto
termination
proof (relation "measure (\<lambda>(ok, s). length s)", goal_cases)
  case (3 ok c s)
  have "0 < rune_width (c # s)" by (rule rune_width_pos) simp
  then show ?case by simp
qed auto

lemma dash_runes_chars: "x \<in> set (dash_runes ok s) \<Longrightarrow> ok x \<or> x = CHR ''-''"
  by (induction ok s rule: dash_runes.induct) (auto split: if_splits)

lemma dash_runes_id: "list_all ok s \<Longrightarrow> dash_runes ok s = s"
  by (induction s) auto

lemma dash_runes_Nil_iff [simp]: "dash_runes ok s = [] \<longleftrightarrow> s = []"
  by (cases s) auto

definition is_alnum :: "char \<Rightarrow> bool" where
  "is_alnum c \<longleftrightarrow>
     (CHR ''a'' \<le> c \<and> c \<le> CHR ''z'') \<or> (CHR ''A'' \<le> c \<and> c \<le> CHR ''Z'') \<or> is_digit c"

section \<open>Booleans\<close>

definition ParseBool :: "string \<Rightarrow> bool res" where
  "ParseBool s =
     (if s \<in> {''1'', ''t'', ''T'', ''true'', ''TRUE'', ''True''} then Inr True
      else if s \<in> {''0'', ''f'', ''F'', ''false'', ''FALSE'', ''False''} then Inr False
      else Inl (Errorf ''strconv.ParseBool'' [s]))"

end
