(* ===== verification/Go_Path.thy ===== *)
theory Go_Path
  imports Go_Strings
begin

text \<open>
  Go's lexical path functions (\<^verbatim>\<open>path.Clean\<close>, \<^verbatim>\<open>path.Base\<close>, \<^verbatim>\<open>path.Join\<close>
  and their \<^verbatim>\<open>filepath\<close> twins on Unix) and \<^verbatim>\<open>os.Expand\<close>. A path is cleaned
  component by component with a stack, as the documentation of \<^verbatim>\<open>path.Clean\<close> states the
  rules; the stack holds the kept components, last first.
\<close>

section \<open>Paths\<close>

definition IsAbs :: "string \<Rightarrow> bool" where
  "IsAbs p \<longleftrightarrow> prefix ''/'' p"

definition clean_step :: "bool \<Rightarrow> string list \<Rightarrow> string \<Rightarrow> string list" where
  "clean_step rooted st c =
     (if c = [] \<or> c = ''.'' then st
      else if c = ''..'' then
        (case st of
           [] \<Rightarrow> if rooted then [] else [''..'']
         | h # t \<Rightarrow> if h = ''..'' then ''..'' # st else t)
      else c # st)"

definition clean_comps :: "bool \<Rightarrow> string list \<Rightarrow> string list" where
  "clean_comps rooted cs = rev (foldl (clean_step rooted) [] cs)"

definition Clean :: "string \<Rightarrow> string" where
  "Clean p =
     (if p = [] then ''.''
      else if IsAbs p then CHR ''/'' # Join (clean_comps True (Split p (CHR ''/''))) ''/''
      else (case clean_comps False (Split p (CHR ''/'')) of
              [] \<Rightarrow> ''.''
            | cs \<Rightarrow> Join cs ''/''))"

definition Path_Join :: "string list \<Rightarrow> string" where
  "Path_Join es =
     (case filter (\<lambda>e. e \<noteq> []) es of [] \<Rightarrow> [] | fs \<Rightarrow> Clean (Join fs ''/''))"

definition Base :: "string \<Rightarrow> string" where
  "Base p =
     (if p = [] then ''.''
      else let q = TrimRight p ''/''
           in if q = [] then ''/'' else last (Split q (CHR ''/'')))"

text \<open>A component that cleaning keeps: not empty, not a dot, not a double dot, no separator.\<close>

definition normal_comp :: "string \<Rightarrow> bool" where
  "normal_comp c \<longleftrightarrow> c \<noteq> [] \<and> c \<noteq> ''.'' \<and> c \<noteq> ''..'' \<and> CHR ''/'' \<notin> set c"

lemma clean_step_normal:
  "list_all normal_comp st \<Longrightarrow> CHR ''/'' \<notin> set c \<Longrightarrow> list_all normal_comp (clean_step True st c)"
  by (auto simp: clean_step_def normal_comp_def split: list.splits)

lemma foldl_clean_normal:
  "list_all normal_comp st \<Longrightarrow> (\<And>c. c \<in> set cs \<Longrightarrow> CHR ''/'' \<notin> set c) \<Longrightarrow>
   list_all normal_comp (foldl (clean_step True) st cs)"
proof (induction cs arbitrary: st)
  case (Cons c cs)
  then have "list_all normal_comp (clean_step True st c)" by (simp add: clean_step_normal)
  with Cons show ?case by simp
qed simp

lemma clean_comps_normal:
  "(\<And>c. c \<in> set cs \<Longrightarrow> CHR ''/'' \<notin> set c) \<Longrightarrow> list_all normal_comp (clean_comps True cs)"
  by (simp add: clean_comps_def foldl_clean_normal list_all_rev)

lemma foldl_clean_id:
  "list_all normal_comp cs \<Longrightarrow> foldl (clean_step rooted) st cs = rev cs @ st"
  by (induction cs arbitrary: st) (auto simp: clean_step_def normal_comp_def)

lemma clean_comps_id: "list_all normal_comp cs \<Longrightarrow> clean_comps rooted cs = cs"
  by (simp add: clean_comps_def foldl_clean_id)

lemma clean_comps_append:
  "list_all normal_comp ds \<Longrightarrow> clean_comps rooted (cs @ ds) = clean_comps rooted cs @ ds"
  by (simp add: clean_comps_def foldl_clean_id)

lemma clean_comps_Nil_Cons: "clean_comps rooted ([] # cs) = clean_comps rooted cs"
  by (simp add: clean_comps_def clean_step_def)

text \<open>The cleaned components of a rooted path.\<close>

definition abs_comps :: "string \<Rightarrow> string list" where
  "abs_comps p = clean_comps True (Split p (CHR ''/''))"

definition abs_path :: "string list \<Rightarrow> string" where
  "abs_path cs = CHR ''/'' # Join cs ''/''"

lemma Clean_abs: "IsAbs p \<Longrightarrow> Clean p = abs_path (abs_comps p)"
  by (auto simp: Clean_def abs_path_def abs_comps_def IsAbs_def)

lemma abs_comps_normal: "list_all normal_comp (abs_comps p)"
  unfolding abs_comps_def by (rule clean_comps_normal) (rule Split_no_sep)

lemma IsAbs_abs_path [simp]: "IsAbs (abs_path cs)"
  by (simp add: IsAbs_def abs_path_def)

lemma Split_abs_path:
  assumes "list_all normal_comp cs"
  shows "Split (abs_path cs) (CHR ''/'') = [] # (if cs = [] then [[]] else cs)"
proof -
  have "Split (Join cs ''/'') (CHR ''/'') = cs" if "cs \<noteq> []"
    using assms that by (intro Split_Join) (auto simp: list_all_iff normal_comp_def)
  then show ?thesis by (auto simp: abs_path_def)
qed

lemma abs_comps_abs_path [simp]:
  assumes "list_all normal_comp cs"
  shows "abs_comps (abs_path cs) = cs"
  using assms by (auto simp: abs_comps_def Split_abs_path clean_comps_Nil_Cons clean_comps_id)

lemma abs_path_inject:
  "list_all normal_comp cs \<Longrightarrow> list_all normal_comp ds \<Longrightarrow> abs_path cs = abs_path ds \<longleftrightarrow> cs = ds"
  by (metis abs_comps_abs_path)

lemma Clean_abs_path [simp]: "list_all normal_comp cs \<Longrightarrow> Clean (abs_path cs) = abs_path cs"
  by (simp add: Clean_abs)

lemma Clean_idem_abs: "IsAbs p \<Longrightarrow> Clean (Clean p) = Clean p"
  by (simp add: Clean_abs abs_comps_normal)

lemma IsAbs_Clean: "IsAbs p \<Longrightarrow> IsAbs (Clean p)"
  by (simp add: Clean_abs)

text \<open>Being under a directory is a prefix of components.\<close>

lemma Join_prefix:
  "cs \<noteq> [] \<Longrightarrow> ds \<noteq> [] \<Longrightarrow> prefix (Join cs ''/'' @ ''/'') (Join (cs @ ds) ''/'')"
  by (simp add: Join_append prefix_def)

lemma under_iff:
  assumes cs: "list_all normal_comp cs" "cs \<noteq> []" and ds: "list_all normal_comp ds"
  shows "prefix (abs_path cs @ ''/'') (abs_path ds) \<longleftrightarrow> strict_prefix cs ds"
proof
  assume "prefix (abs_path cs @ ''/'') (abs_path ds)"
  then obtain r where r: "abs_path ds = abs_path cs @ CHR ''/'' # r" by (auto simp: prefix_def)
  then have "Split (abs_path ds) (CHR ''/'') =
      Split (abs_path cs) (CHR ''/'') @ Split r (CHR ''/'')"
    by (simp add: Split_append_Split)
  with cs ds have "(if ds = [] then [[]] else ds) = cs @ Split r (CHR ''/'')"
    by (simp add: Split_abs_path)
  moreover have "ds \<noteq> []"
  proof
    assume "ds = []"
    with r show False by (simp add: abs_path_def)
  qed
  ultimately have "ds = cs @ Split r (CHR ''/'')" by simp
  then show "strict_prefix cs ds" by (metis Split_not_Nil append_self_conv prefixI strict_prefixI)
next
  assume "strict_prefix cs ds"
  then obtain es where "ds = cs @ es" "es \<noteq> []" by (auto simp: strict_prefix_def prefix_def)
  with cs show "prefix (abs_path cs @ ''/'') (abs_path ds)"
    using Join_prefix by (simp add: abs_path_def)
qed

section \<open>os.Expand\<close>

definition isShellSpecialVar :: "char \<Rightarrow> bool" where
  "isShellSpecialVar c \<longleftrightarrow> c \<in> set ''*#$@!?-'' \<or> is_digit c"

definition isAlphaNum :: "char \<Rightarrow> bool" where
  "isAlphaNum c \<longleftrightarrow> c = CHR ''_'' \<or> is_alnum c"

text \<open>The name after a dollar sign and the number of bytes it takes; the argument is not empty.\<close>

fun getShellName :: "string \<Rightarrow> string \<times> nat" where
  "getShellName [] = ([], 0)"
| "getShellName (c # s) =
     (if c = CHR ''{'' then
        (case s of
           d # e # _ \<Rightarrow>
             if isShellSpecialVar d \<and> e = CHR ''}'' then ([d], 3)
             else (case Index s ''}'' of
                     None \<Rightarrow> ([], 1)
                   | Some 0 \<Rightarrow> ([], 2)
                   | Some i \<Rightarrow> (take i s, i + 2))
         | _ \<Rightarrow> (case Index s ''}'' of
                     None \<Rightarrow> ([], 1)
                   | Some 0 \<Rightarrow> ([], 2)
                   | Some i \<Rightarrow> (take i s, i + 2)))
      else if isShellSpecialVar c then ([c], 1)
      else (let n = takeWhile isAlphaNum (c # s) in (n, length n)))"

function Expand :: "string \<Rightarrow> (string \<Rightarrow> string) \<Rightarrow> string" where
  "Expand [] mapping = []"
| "Expand (c # s) mapping =
     (if c = CHR ''$'' \<and> s \<noteq> [] then
        (let (name, w) = getShellName s
         in (if name = [] \<and> 0 < w then []
             else if name = [] then [c]
             else mapping name) @ Expand (drop w s) mapping)
      else c # Expand s mapping)"
  by pat_completeness auto
termination
  by (relation "measure (\<lambda>(s, m). length s)") auto

text \<open>The names a string refers to, in the order \<^verbatim>\<open>os.Expand\<close> looks them up.\<close>

function expand_names :: "string \<Rightarrow> string list" where
  "expand_names [] = []"
| "expand_names (c # s) =
     (if c = CHR ''$'' \<and> s \<noteq> [] then
        (let (name, w) = getShellName s
         in (if name = [] then [] else [name]) @ expand_names (drop w s))
      else expand_names s)"
  by pat_completeness auto
termination
  by (relation "measure length") auto

lemma Expand_cong:
  "(\<And>n. n \<in> set (expand_names s) \<Longrightarrow> f n = g n) \<Longrightarrow> Expand s f = Expand s g"
proof (induction s f rule: Expand.induct)
  case (2 c s f)
  show ?case
  proof (cases "c = CHR ''$'' \<and> s \<noteq> []")
    case True
    obtain name w where nw: "getShellName s = (name, w)" by (meson surj_pair)
    have "Expand (drop w s) f = Expand (drop w s) g"
      using 2(1)[OF True refl, of name w] 2(3) True nw by simp
    with 2(3) True nw show ?thesis by (auto split: if_splits)
  next
    case False
    with 2 show ?thesis by auto
  qed
qed simp

lemma Expand_no_dollar: "CHR ''$'' \<notin> set s \<Longrightarrow> Expand s f = s"
  by (induction s) auto

end
