(* ===== verification/Api.thy ===== *)
theory Api
  imports Go_Path
begin

text \<open>
  The configuration API (\<^verbatim>\<open>api/backup.go\<close>, \<^verbatim>\<open>api/targets.go\<close>): the container
  label's \<open>spec\<close>, the targets file, the retention policy and its restic flags, the per-app
  fallbacks, and the validation of the targets file. The YAML decoder is outside the repository:
  \<open>UnmarshalYAML\<close> takes the two decoding calls it makes as arguments. \<^verbatim>\<open>time.ParseDuration\<close>
  is an argument of the operations that call it; a duration is its number of nanoseconds.
\<close>

section \<open>Retention\<close>

record retention =
  ret_Last :: int
  ret_Hourly :: int
  ret_Daily :: int
  ret_Weekly :: int
  ret_Monthly :: int
  ret_Yearly :: int
  ret_Within :: string

definition no_retention :: retention where
  "no_retention = \<lparr>ret_Last = 0, ret_Hourly = 0, ret_Daily = 0, ret_Weekly = 0,
     ret_Monthly = 0, ret_Yearly = 0, ret_Within = []\<rparr>"

definition Retention_Empty :: "retention \<Rightarrow> bool" where
  "Retention_Empty r \<longleftrightarrow>
     ret_Last r = 0 \<and> ret_Hourly r = 0 \<and> ret_Daily r = 0 \<and> ret_Weekly r = 0 \<and>
     ret_Monthly r = 0 \<and> ret_Yearly r = 0 \<and> ret_Within r = []"

definition add_flag :: "string \<Rightarrow> int \<Rightarrow> string list \<Rightarrow> string list" where
  "add_flag flag n a = (if n > 0 then a @ [flag, Itoa n] else a)"

definition ForgetArgs :: "retention \<Rightarrow> string list" where
  "ForgetArgs r =
     (let a = add_flag ''--keep-last'' (ret_Last r) [];
          a = add_flag ''--keep-hourly'' (ret_Hourly r) a;
          a = add_flag ''--keep-daily'' (ret_Daily r) a;
          a = add_flag ''--keep-weekly'' (ret_Weekly r) a;
          a = add_flag ''--keep-monthly'' (ret_Monthly r) a;
          a = add_flag ''--keep-yearly'' (ret_Yearly r) a
      in if ret_Within r \<noteq> [] then a @ [''--keep-within'', ret_Within r] else a)"

section \<open>Hooks and specs\<close>

record hook =
  hook_Command :: "string list"
  hook_Container :: string
  hook_Image :: string
  hook_User :: string
  hook_Env :: "(string, string) gomap"
  hook_Network :: string
  hook_Volumes :: "string list"
  hook_Timeout :: string

definition Hook_Mode :: "hook \<Rightarrow> string" where
  "Hook_Mode h = (if hook_Image h \<noteq> [] then ''run'' else ''exec'')"

type_synonym duration = int

definition TimeoutDuration :: "(string \<Rightarrow> duration res) \<Rightarrow> hook \<Rightarrow> duration res" where
  "TimeoutDuration ParseDuration h =
     (if hook_Timeout h = [] then Inr 0 else ParseDuration (hook_Timeout h))"

record target_spec =
  ts_Name :: string
  ts_Schedule :: string
  ts_Retention :: retention
  ts_ExcludeVolumes :: "string list"
  ts_ExcludePaths :: "string list"
  ts_Exclude :: "string list"

record spec =
  spec_Repo :: string
  spec_Auto :: "bool option"
  spec_ExtraVolumes :: "string list"
  spec_ExcludeVolumes :: "string list"
  spec_ExtraPaths :: "string list"
  spec_Exclude :: "string list"
  spec_Tags :: "string list"
  spec_Targets :: "target_spec list"
  spec_Stop :: bool
  spec_PreHooks :: "hook list"
  spec_PostHooks :: "hook list"
  spec_Timeout :: string
  spec_User :: string
  spec_Groups :: "string list"
  spec_Snapshot :: string

definition empty_spec :: spec where
  "empty_spec = \<lparr>spec_Repo = [], spec_Auto = None, spec_ExtraVolumes = [], spec_ExcludeVolumes = [],
     spec_ExtraPaths = [], spec_Exclude = [], spec_Tags = [], spec_Targets = [], spec_Stop = False,
     spec_PreHooks = [], spec_PostHooks = [], spec_Timeout = [], spec_User = [], spec_Groups = [],
     spec_Snapshot = []\<rparr>"

definition empty_target_spec :: target_spec where
  "empty_target_spec = \<lparr>ts_Name = [], ts_Schedule = [], ts_Retention = no_retention,
     ts_ExcludeVolumes = [], ts_ExcludePaths = [], ts_Exclude = []\<rparr>"

text \<open>
  A target in the label is a scalar or a mapping; \<open>decode_name\<close> is \<^verbatim>\<open>n.Decode\<close> into the name,
  \<open>decode_strict\<close> the marshal and strict re-decode of the node.
\<close>

definition UnmarshalYAML ::
  "('node \<Rightarrow> bool) \<Rightarrow> ('node \<Rightarrow> string res) \<Rightarrow> ('node \<Rightarrow> target_spec res) \<Rightarrow> 'node \<Rightarrow> target_spec res" where
  "UnmarshalYAML is_scalar decode_name decode_strict n =
     (if is_scalar n then
        (case decode_name n of
           Inl e \<Rightarrow> Inl e
         | Inr name \<Rightarrow>
             if name = [] then Inl (Errorf ''target: name is required'' [])
             else Inr (empty_target_spec\<lparr>ts_Name := name\<rparr>))
      else
        (case decode_strict n of
           Inl e \<Rightarrow> Inl e
         | Inr t \<Rightarrow>
             if ts_Name t = [] then Inl (Errorf ''target: name is required'' []) else Inr t))"

fun find_target_spec :: "target_spec list \<Rightarrow> string \<Rightarrow> target_spec option" where
  "find_target_spec [] name = None"
| "find_target_spec (t # ts) name = (if ts_Name t = name then Some t else find_target_spec ts name)"

definition TargetOverride :: "spec \<Rightarrow> string \<Rightarrow> target_spec option" where
  "TargetOverride s name = find_target_spec (spec_Targets s) name"

definition TargetNames :: "spec \<Rightarrow> string list" where
  "TargetNames s = map ts_Name (spec_Targets s)"

definition Spec_BackupTimeout :: "(string \<Rightarrow> duration res) \<Rightarrow> spec \<Rightarrow> duration res" where
  "Spec_BackupTimeout ParseDuration s =
     (if spec_Timeout s = [] then Inr 0 else ParseDuration (spec_Timeout s))"

definition Spec_MoverUser :: "spec \<Rightarrow> string \<Rightarrow> string" where
  "Spec_MoverUser s fallback = (if spec_User s = [] then fallback else spec_User s)"

definition Spec_MoverGroups :: "spec \<Rightarrow> string list \<Rightarrow> string list" where
  "Spec_MoverGroups s fallback = (if spec_Groups s = [] then fallback else spec_Groups s)"

definition SnapshotMode :: "spec \<Rightarrow> string \<Rightarrow> string" where
  "SnapshotMode s fallback = (if spec_Snapshot s = [] then fallback else spec_Snapshot s)"

definition AutoSources :: "spec \<Rightarrow> bool" where
  "AutoSources s = (case spec_Auto s of None \<Rightarrow> True | Some b \<Rightarrow> b)"

section \<open>Targets\<close>

datatype backend = BackendLocal | BackendRemote

record target_file =
  file_Source :: string
  file_Target :: string

record target =
  tgt_Name :: string
  tgt_Path :: string
  tgt_Repo :: string
  tgt_PasswordEnv :: string
  tgt_PasswordFile :: string
  tgt_CredentialsFile :: string
  tgt_Files :: "target_file list"
  tgt_Env :: "(string, string) gomap"
  tgt_ResticArgs :: "string list"
  tgt_MoverLabels :: "(string, string) gomap"
  tgt_Schedule :: string
  tgt_Retention :: retention
  tgt_Check :: string
  tgt_Prune :: string

definition empty_target :: target where
  "empty_target = \<lparr>tgt_Name = [], tgt_Path = [], tgt_Repo = [], tgt_PasswordEnv = [],
     tgt_PasswordFile = [], tgt_CredentialsFile = [], tgt_Files = [], tgt_Env = [],
     tgt_ResticArgs = [], tgt_MoverLabels = [], tgt_Schedule = [], tgt_Retention = no_retention,
     tgt_Check = [], tgt_Prune = []\<rparr>"

definition Target_Backend :: "target \<Rightarrow> backend" where
  "Target_Backend t = (if tgt_Path t \<noteq> [] then BackendLocal else BackendRemote)"

definition reservedMoverPaths :: "string list" where
  "reservedMoverPaths =
     [''/data'', ''/repo'', ''/cache'', ''/restore'',
      ''/run/secrets/sabon-restic-password'', ''/run/secrets/sabon-aws-credentials'']"

definition isCleanHostFile :: "string \<Rightarrow> bool" where
  "isCleanHostFile p \<longleftrightarrow> IsAbs p \<and> Clean p = p \<and> \<not> Contains p '':''"

definition quoted_colon :: string where
  "quoted_colon = [CHR 0x27, CHR '':'', CHR 0x27]"

text \<open>The reserved path a cleaned destination collides with, if any, in the loop's order.\<close>

fun collides :: "string \<Rightarrow> string list \<Rightarrow> string option" where
  "collides dst [] = None"
| "collides dst (r # rs) =
     (if dst = r \<or> HasPrefix dst (r @ ''/'') \<or> HasPrefix r (dst @ ''/'') then Some r
      else collides dst rs)"

fun validateFiles_loop :: "string \<Rightarrow> nat \<Rightarrow> string list \<Rightarrow> target_file list \<Rightarrow> error option" where
  "validateFiles_loop tn i seen [] = None"
| "validateFiles_loop tn i seen (f # fs) =
     (if file_Source f = [] \<or> file_Target f = [] then
        Some (Errorf ''target %q: files[%d]: source and target are required'' [tn, digits i])
      else if \<not> isCleanHostFile (file_Source f) then
        Some (Errorf (''target %q: files[%d]: source %q must be a clean absolute path without '' @ quoted_colon)
          [tn, digits i, file_Source f])
      else if Contains (file_Target f) '':'' then
        Some (Errorf (''target %q: files[%d]: target %q must not contain '' @ quoted_colon)
          [tn, digits i, file_Target f])
      else if \<not> IsAbs (file_Target f) then
        Some (Errorf ''target %q: files[%d]: target %q must be an absolute path''
          [tn, digits i, file_Target f])
      else
        (let dst = Clean (file_Target f)
         in if dst = ''/'' then
              Some (Errorf ''target %q: files[%d]: target must not be /'' [tn, digits i])
            else
              (case collides dst reservedMoverPaths of
                 Some r \<Rightarrow>
                   Some (Errorf ''target %q: files[%d]: target %q collides with reserved mover path %q''
                     [tn, digits i, file_Target f, r])
               | None \<Rightarrow>
                   if dst \<in> set seen then
                     Some (Errorf ''target %q: files[%d]: duplicate target %q''
                       [tn, digits i, file_Target f])
                   else validateFiles_loop tn (Suc i) (dst # seen) fs)))"

definition validateFiles :: "target \<Rightarrow> error option" where
  "validateFiles t = validateFiles_loop (tgt_Name t) 0 [] (tgt_Files t)"

text \<open>
  The body of the loop of \<^verbatim>\<open>File.Validate\<close> for one target. The code ranges over the map of the
  two secret files, so which of two bad ones is reported is open in Go; the model reports the
  password file.
\<close>

definition validateTarget :: "target \<Rightarrow> error option" where
  "validateTarget t =
     (if (tgt_Path t = []) = (tgt_Repo t = []) then
        Some (Errorf ''target %q: set exactly one of path or repo'' [tgt_Name t])
      else
        or_err (first_err (\<lambda>(k, v).
            if HasPrefix k ''sabon.'' then
              Some (Errorf ''target %q: moverLabels key %q uses the reserved \"sabon.\" prefix'' [tgt_Name t, k])
            else None) (tgt_MoverLabels t))
        (or_err (first_err (\<lambda>(field, p).
            if p \<noteq> [] \<and> \<not> isCleanHostFile p then
              Some (Errorf (''target %q: %s %q must be a clean absolute path without '' @ quoted_colon)
                [tgt_Name t, field, p])
            else None)
          [(''passwordFile'', tgt_PasswordFile t), (''credentialsFile'', tgt_CredentialsFile t)])
        (validateFiles t)))"

fun Validate_loop :: "nat \<Rightarrow> string list \<Rightarrow> target list \<Rightarrow> error option" where
  "Validate_loop i seen [] = None"
| "Validate_loop i seen (t # ts) =
     (if tgt_Name t = [] then Some (Errorf ''targets[%d]: name is required'' [digits i])
      else if tgt_Name t \<in> set seen then Some (Errorf ''target %q: duplicate name'' [tgt_Name t])
      else (case validateTarget t of
              Some e \<Rightarrow> Some e
            | None \<Rightarrow> Validate_loop (Suc i) (tgt_Name t # seen) ts))"

definition Validate :: "target list \<Rightarrow> error option" where
  "Validate ts = Validate_loop 0 [] ts"


section \<open>Retention: properties\<close>

lemma add_flag_simps [simp]:
  "n > 0 \<Longrightarrow> add_flag flag n a = a @ [flag, Itoa n]"
  "n \<le> 0 \<Longrightarrow> add_flag flag n a = a"
  by (simp_all add: add_flag_def)

lemma add_flag_Nil_iff: "add_flag flag n a = [] \<longleftrightarrow> n \<le> 0 \<and> a = []"
  by (simp add: add_flag_def not_less)

lemma ForgetArgs_Nil_iff:
  "ForgetArgs r = [] \<longleftrightarrow>
     ret_Last r \<le> 0 \<and> ret_Hourly r \<le> 0 \<and> ret_Daily r \<le> 0 \<and> ret_Weekly r \<le> 0 \<and>
     ret_Monthly r \<le> 0 \<and> ret_Yearly r \<le> 0 \<and> ret_Within r = []"
  by (auto simp: ForgetArgs_def Let_def add_flag_Nil_iff)

lemma ForgetArgs_Empty: "Retention_Empty r \<Longrightarrow> ForgetArgs r = []"
  by (simp add: ForgetArgs_Nil_iff Retention_Empty_def)

text \<open>The rules of a policy as pairs of a flag and its value, in the order of the code.\<close>

definition keep_rules :: "retention \<Rightarrow> (string \<times> string) list" where
  "keep_rules r =
     map (\<lambda>(f, n). (f, Itoa n)) (filter (\<lambda>(f, n). n > 0)
       [(''--keep-last'', ret_Last r), (''--keep-hourly'', ret_Hourly r), (''--keep-daily'', ret_Daily r),
        (''--keep-weekly'', ret_Weekly r), (''--keep-monthly'', ret_Monthly r),
        (''--keep-yearly'', ret_Yearly r)]) @
     (if ret_Within r \<noteq> [] then [(''--keep-within'', ret_Within r)] else [])"

lemma ForgetArgs_rules: "ForgetArgs r = concat (map (\<lambda>(f, v). [f, v]) (keep_rules r))"
  unfolding ForgetArgs_def Let_def keep_rules_def add_flag_def by simp

section \<open>Overrides: properties\<close>

lemma find_target_spec_Some:
  "find_target_spec ts n = Some t \<Longrightarrow> t \<in> set ts \<and> ts_Name t = n"
  by (induction ts) (auto split: if_splits)

lemma find_target_spec_None: "find_target_spec ts n = None \<longleftrightarrow> n \<notin> ts_Name ` set ts"
  by (induction ts) auto

lemma TargetOverride_listed: "TargetOverride s n = Some t \<Longrightarrow> n \<in> set (TargetNames s)"
  by (auto simp: TargetOverride_def TargetNames_def dest: find_target_spec_Some)

lemma TargetOverride_None_iff: "TargetOverride s n = None \<longleftrightarrow> n \<notin> set (TargetNames s)"
  by (simp add: TargetOverride_def TargetNames_def find_target_spec_None)

section \<open>Validation: properties\<close>

text \<open>
  Two clean paths overlap when one is the other or one of its parents, read off their components.
\<close>

definition paths_overlap :: "string \<Rightarrow> string \<Rightarrow> bool" where
  "paths_overlap a b \<longleftrightarrow> prefix (abs_comps a) (abs_comps b) \<or> prefix (abs_comps b) (abs_comps a)"

lemma reserved_abs:
  assumes "r \<in> set reservedMoverPaths"
  shows "IsAbs r \<and> r = abs_path (abs_comps r) \<and> abs_comps r \<noteq> []"
proof -
  have "list_all (\<lambda>r. IsAbs r \<and> r = abs_path (abs_comps r) \<and> abs_comps r \<noteq> []) reservedMoverPaths"
    unfolding reservedMoverPaths_def by code_simp
  with assms show ?thesis by (auto simp: list_all_iff)
qed

lemma overlap_test_iff:
  assumes "IsAbs p" "Clean p \<noteq> ''/''" "r \<in> set reservedMoverPaths"
  shows "Clean p = r \<or> HasPrefix (Clean p) (r @ ''/'') \<or> HasPrefix r (Clean p @ ''/'')
    \<longleftrightarrow> paths_overlap p r"
proof -
  let ?c = "abs_comps p" and ?d = "abs_comps r"
  have cp: "Clean p = abs_path ?c" using assms(1) by (rule Clean_abs)
  have c: "list_all normal_comp ?c" and d: "list_all normal_comp ?d" by (rule abs_comps_normal)+
  have rp: "r = abs_path ?d" and dne: "?d \<noteq> []" using reserved_abs[OF assms(3)] by auto
  have cne: "?c \<noteq> []" using assms(2) by (auto simp: cp abs_path_def)
  have eq: "Clean p = r \<longleftrightarrow> ?c = ?d"
    using abs_path_inject[OF c d] cp rp by metis
  have under: "HasPrefix (Clean p) (r @ ''/'') \<longleftrightarrow> strict_prefix ?d ?c"
    using under_iff[OF d dne c] cp rp by metis
  have over: "HasPrefix r (Clean p @ ''/'') \<longleftrightarrow> strict_prefix ?c ?d"
    using under_iff[OF c cne d] cp rp by metis
  show ?thesis unfolding eq under over paths_overlap_def by (auto simp: strict_prefix_def)
qed

lemma collides_None_iff:
  "collides dst rs = None \<longleftrightarrow>
     (\<forall>r\<in>set rs. \<not> (dst = r \<or> HasPrefix dst (r @ ''/'') \<or> HasPrefix r (dst @ ''/'')))"
  by (induction rs) auto

definition valid_file_entry :: "target_file \<Rightarrow> bool" where
  "valid_file_entry f \<longleftrightarrow>
     isCleanHostFile (file_Source f) \<and> IsAbs (file_Target f) \<and> CHR '':'' \<notin> set (file_Target f) \<and>
     Clean (file_Target f) \<noteq> ''/'' \<and> (\<forall>r\<in>set reservedMoverPaths. \<not> paths_overlap (file_Target f) r)"

definition valid_files :: "target_file list \<Rightarrow> bool" where
  "valid_files fs \<longleftrightarrow> list_all valid_file_entry fs \<and> distinct (map (Clean \<circ> file_Target) fs)"

lemma Contains_char [simp]: "Contains s [x] \<longleftrightarrow> x \<in> set s"
  by (simp add: Contains_def Index_char_None)

lemma IsAbs_Nil [simp]: "\<not> IsAbs []"
  by (simp add: IsAbs_def)

lemma isCleanHostFile_Nil [simp]: "\<not> isCleanHostFile []"
  by (simp add: isCleanHostFile_def)

lemma collides_valid:
  assumes "IsAbs p" "Clean p \<noteq> ''/''"
  shows "collides (Clean p) reservedMoverPaths = None \<longleftrightarrow>
    (\<forall>r\<in>set reservedMoverPaths. \<not> paths_overlap p r)"
  using assms by (simp add: collides_None_iff overlap_test_iff)

lemma validateFiles_loop_None_iff:
  "validateFiles_loop tn i seen fs = None \<longleftrightarrow>
     list_all valid_file_entry fs \<and> distinct (map (Clean \<circ> file_Target) fs) \<and>
     set (map (Clean \<circ> file_Target) fs) \<inter> set seen = {}"
proof (induction fs arbitrary: i seen)
  case (Cons f fs)
  show ?case
  proof (cases "valid_file_entry f \<and> Clean (file_Target f) \<notin> set seen")
    case True
    then have "file_Source f \<noteq> []" "file_Target f \<noteq> []"
      "collides (Clean (file_Target f)) reservedMoverPaths = None"
      by (auto simp: valid_file_entry_def collides_valid)
    with True Cons.IH[of "Suc i" "Clean (file_Target f) # seen"] show ?thesis
      by (auto simp: valid_file_entry_def Let_def)
  next
    case False
    then have "validateFiles_loop tn i seen (f # fs) \<noteq> None"
      using collides_valid[of "file_Target f"]
      by (auto simp: valid_file_entry_def Let_def split: option.splits)
    with False show ?thesis by auto
  qed
qed simp

lemma validateFiles_None_iff: "validateFiles t = None \<longleftrightarrow> valid_files (tgt_Files t)"
  by (simp add: validateFiles_def validateFiles_loop_None_iff valid_files_def)

definition valid_target :: "target \<Rightarrow> bool" where
  "valid_target t \<longleftrightarrow>
     (tgt_Path t = []) \<noteq> (tgt_Repo t = []) \<and>
     (\<forall>k\<in>fst ` set (tgt_MoverLabels t). \<not> prefix ''sabon.'' k) \<and>
     (tgt_PasswordFile t = [] \<or> isCleanHostFile (tgt_PasswordFile t)) \<and>
     (tgt_CredentialsFile t = [] \<or> isCleanHostFile (tgt_CredentialsFile t)) \<and>
     valid_files (tgt_Files t)"

lemma validateTarget_None_iff: "validateTarget t = None \<longleftrightarrow> valid_target t"
  unfolding validateTarget_def valid_target_def
  by (auto simp: first_err_None_iff validateFiles_None_iff split: if_splits)

definition valid_target_file :: "target list \<Rightarrow> bool" where
  "valid_target_file ts \<longleftrightarrow>
     list_all (\<lambda>t. tgt_Name t \<noteq> [] \<and> valid_target t) ts \<and> distinct (map tgt_Name ts)"

lemma Validate_loop_None_iff:
  "Validate_loop i seen ts = None \<longleftrightarrow>
     list_all (\<lambda>t. tgt_Name t \<noteq> [] \<and> valid_target t) ts \<and> distinct (map tgt_Name ts) \<and>
     set (map tgt_Name ts) \<inter> set seen = {}"
proof (induction ts arbitrary: i seen)
  case (Cons t ts)
  then show ?case
    using validateTarget_None_iff[of t] by (auto split: option.splits)
qed simp

lemma Validate_None_iff: "Validate ts = None \<longleftrightarrow> valid_target_file ts"
  by (simp add: Validate_def Validate_loop_None_iff valid_target_file_def)

section \<open>Claims\<close>

text \<open>
  The validation of the targets file accepts exactly the well-formed files: every target is named
  and the names are distinct; each has exactly one of path and repo, uses no reserved label prefix,
  and names clean absolute secret files; every extra file has a clean absolute source and an absolute
  destination that is not the root, is mounted nowhere else, and neither contains nor lies in any of
  the paths the mover mounts itself.
\<close>

theorem targets_validation_exact: "Validate ts = None \<longleftrightarrow> valid_target_file ts"
  by (rule Validate_None_iff)

end
