(* ===== verification/Config.thy ===== *)
theory Config
  imports Api
begin

text \<open>
  The process configuration (\<^verbatim>\<open>internal/config/config.go\<close>): the \<^verbatim>\<open>SABON_*\<close> environment
  and the targets file. The environment is \<open>look\<close> (\<^verbatim>\<open>os.LookupEnv\<close>), files are read with
  \<open>read_file\<close>, the strict YAML decoder and \<^verbatim>\<open>time.ParseDuration\<close> are arguments; durations are
  nanoseconds.
\<close>

record config =
  conf_LabelPrefix :: string
  conf_Runtime :: string
  conf_WatchByDefault :: bool
  conf_ConfigFile :: string
  conf_ResyncInterval :: duration
  conf_DebounceDelay :: duration
  conf_MetricsAddr :: string
  conf_HealthAddr :: string
  conf_LogLevel :: string
  conf_MoverImage :: string
  conf_MoverUser :: string
  conf_MoverGroups :: "string list"
  conf_MoverNetwork :: string
  conf_MoverLabels :: "(string, string) gomap"
  conf_CacheVolume :: string
  conf_MoverHistory :: int
  conf_RunOnStartup :: bool
  conf_Instance :: string
  conf_MaxParallel :: int
  conf_ScheduleJitter :: duration
  conf_BackupTimeout :: duration
  conf_Snapshot :: string
  conf_SnapshotZFSImage :: string
  conf_NotifyURLs :: "string list"
  conf_NotifyOn :: string
  conf_NotifyTitleTemplate :: string
  conf_NotifyTemplate :: string
  conf_APIAddr :: string
  conf_APIToken :: string
  conf_Targets :: "target list"

section \<open>Reading the environment\<close>

type_synonym lookup_env = "string \<Rightarrow> string option"

text \<open>\<^verbatim>\<open>strconv.Atoi\<close> on a 64-bit platform.\<close>

definition parse_digits :: "string \<Rightarrow> nat option" where
  "parse_digits s = (if s \<noteq> [] \<and> list_all is_digit s then Some (undigits s) else None)"

definition Atoi :: "string \<Rightarrow> int res" where
  "Atoi s =
     (let (neg, ds) = (case s of c # r \<Rightarrow> if c = CHR ''-'' then (True, r) else if c = CHR ''+'' then (False, r) else (False, s)
                      | [] \<Rightarrow> (False, []))
      in case parse_digits ds of
           None \<Rightarrow> Inl (Errorf ''strconv.Atoi: invalid syntax'' [s])
         | Some n \<Rightarrow>
             (let i = (if neg then - int n else int n)
              in if - (2 ^ 63) \<le> i \<and> i < 2 ^ 63 then Inr i
                 else Inl (Errorf ''strconv.Atoi: value out of range'' [s])))"

definition env :: "lookup_env \<Rightarrow> string \<Rightarrow> string \<Rightarrow> string" where
  "env look key fallback = (case look key of Some v \<Rightarrow> v | None \<Rightarrow> fallback)"

definition envBool :: "lookup_env \<Rightarrow> string \<Rightarrow> bool \<Rightarrow> bool" where
  "envBool look key fallback =
     (case look key of
        Some v \<Rightarrow> (case ParseBool (TrimSpace v) of Inr b \<Rightarrow> b | Inl _ \<Rightarrow> fallback)
      | None \<Rightarrow> fallback)"

definition envInt :: "lookup_env \<Rightarrow> string \<Rightarrow> int \<Rightarrow> int" where
  "envInt look key fallback =
     (case look key of
        Some v \<Rightarrow> (case Atoi (TrimSpace v) of Inr n \<Rightarrow> n | Inl _ \<Rightarrow> fallback)
      | None \<Rightarrow> fallback)"

definition envDuration :: "(string \<Rightarrow> duration res) \<Rightarrow> lookup_env \<Rightarrow> string \<Rightarrow> duration \<Rightarrow> duration" where
  "envDuration ParseDuration look key fallback =
     (case look key of
        Some v \<Rightarrow> (case ParseDuration (TrimSpace v) of Inr d \<Rightarrow> d | Inl _ \<Rightarrow> fallback)
      | None \<Rightarrow> fallback)"

definition envList :: "lookup_env \<Rightarrow> string \<Rightarrow> string list" where
  "envList look key =
     (case look key of
        None \<Rightarrow> []
      | Some v \<Rightarrow> filter (\<lambda>s. s \<noteq> []) (map TrimSpace (Split v (CHR '',''))))"

fun env_pairs :: "string \<Rightarrow> string list \<Rightarrow> (string, string) gomap \<Rightarrow> (string, string) gomap res" where
  "env_pairs key [] out = Inr out"
| "env_pairs key (pair # ps) out =
     (if TrimSpace pair = [] then env_pairs key ps out
      else case Cut pair ''='' of
        (k, val, found) \<Rightarrow>
          (let k = TrimSpace k
           in if \<not> found \<or> k = [] then
                Inl (Errorf ''%s: %q is not a key=value pair'' [key, TrimSpace pair])
              else if HasPrefix k ''sabon.'' then
                Inl (Errorf ''%s: key %q uses the reserved \"sabon.\" prefix'' [key, k])
              else env_pairs key ps (AList.update k (TrimSpace val) out)))"

definition envMap :: "lookup_env \<Rightarrow> string \<Rightarrow> (string, string) gomap res" where
  "envMap look key =
     (case look key of
        None \<Rightarrow> Inr []
      | Some v \<Rightarrow> if TrimSpace v = [] then Inr [] else env_pairs key (Split v (CHR '','')) [])"

datatype file_read = Contents string | NotExist error | ReadErr error

definition envTemplate :: "(string \<Rightarrow> file_read) \<Rightarrow> lookup_env \<Rightarrow> string \<Rightarrow> string res" where
  "envTemplate read_file look key =
     (case look key of
        None \<Rightarrow> Inr []
      | Some v \<Rightarrow>
          if v = [] then Inr []
          else (case CutPrefix v ''@'' of
                  None \<Rightarrow> Inr v
                | Some path \<Rightarrow>
                    (case read_file path of
                       Contents b \<Rightarrow> Inr b
                     | NotExist e \<Rightarrow> Inl (Wrapf ''%s: read template file: %w'' [key] e)
                     | ReadErr e \<Rightarrow> Inl (Wrapf ''%s: read template file: %w'' [key] e))))"

definition DefaultMetricsAddr :: string where "DefaultMetricsAddr = '':9333''"
definition DefaultHealthAddr :: string where "DefaultHealthAddr = ''127.0.0.1:9333''"

definition MetricsAddrFromEnv :: "lookup_env \<Rightarrow> string" where
  "MetricsAddrFromEnv look = env look ''SABON_METRICS_ADDR'' DefaultMetricsAddr"

definition HealthAddrFromEnv :: "lookup_env \<Rightarrow> string" where
  "HealthAddrFromEnv look =
     (case look ''SABON_HEALTH_ADDR'' of
        Some v \<Rightarrow> v
      | None \<Rightarrow> if MetricsAddrFromEnv look \<noteq> [] then [] else DefaultHealthAddr)"

definition HealthProbeAddr :: "lookup_env \<Rightarrow> string" where
  "HealthProbeAddr look =
     (let h = HealthAddrFromEnv look in if h \<noteq> [] then h else MetricsAddrFromEnv look)"

section \<open>Loading\<close>

datatype decoded = Decoded "target list" | DecodeEOF | DecodeErr error

definition LoadTargets :: "(string \<Rightarrow> file_read) \<Rightarrow> (string \<Rightarrow> decoded) \<Rightarrow> string \<Rightarrow> target list res" where
  "LoadTargets read_file decode path =
     (case read_file path of
        NotExist _ \<Rightarrow> Inr []
      | ReadErr e \<Rightarrow> Inl (Wrapf ''read config %s: %w'' [path] e)
      | Contents raw \<Rightarrow>
          (case decode raw of
             DecodeEOF \<Rightarrow> Inr []
           | DecodeErr e \<Rightarrow> Inl (Wrapf ''parse config %s: %w'' [path] e)
           | Decoded ts \<Rightarrow>
               (case Validate ts of
                  Some e \<Rightarrow> Inl (Wrapf ''config %s: %w'' [path] e)
                | None \<Rightarrow> Inr ts)))"

definition second :: duration where "second = 1000000000"
definition minute :: duration where "minute = 60 * second"

definition read_env :: "(string \<Rightarrow> duration res) \<Rightarrow> lookup_env \<Rightarrow> config" where
  "read_env pd look = \<lparr>
     conf_LabelPrefix = env look ''SABON_LABEL_PREFIX'' ''sabon'',
     conf_Runtime = env look ''SABON_RUNTIME'' ''auto'',
     conf_WatchByDefault = envBool look ''SABON_WATCH_BY_DEFAULT'' False,
     conf_ConfigFile = env look ''SABON_CONFIG'' ''/etc/sabon/targets.yaml'',
     conf_ResyncInterval = envDuration pd look ''SABON_RESYNC_INTERVAL'' (5 * minute),
     conf_DebounceDelay = envDuration pd look ''SABON_DEBOUNCE_DELAY'' (2 * second),
     conf_MetricsAddr = MetricsAddrFromEnv look,
     conf_HealthAddr = HealthAddrFromEnv look,
     conf_LogLevel = env look ''SABON_LOG_LEVEL'' ''info'',
     conf_MoverImage = env look ''SABON_MOVER_IMAGE'' [],
     conf_MoverUser = env look ''SABON_MOVER_USER'' ''0:0'',
     conf_MoverGroups = envList look ''SABON_MOVER_GROUPS'',
     conf_MoverNetwork = env look ''SABON_MOVER_NETWORK'' [],
     conf_MoverLabels = [],
     conf_CacheVolume = env look ''SABON_CACHE_VOLUME'' ''sabon-cache'',
     conf_MoverHistory = envInt look ''SABON_MOVER_HISTORY'' 3,
     conf_RunOnStartup = envBool look ''SABON_RUN_ON_STARTUP'' False,
     conf_Instance = env look ''SABON_INSTANCE'' [],
     conf_MaxParallel = envInt look ''SABON_MAX_PARALLEL'' 0,
     conf_ScheduleJitter = envDuration pd look ''SABON_SCHEDULE_JITTER'' 0,
     conf_BackupTimeout = envDuration pd look ''SABON_BACKUP_TIMEOUT'' 0,
     conf_Snapshot = env look ''SABON_SNAPSHOT'' ''none'',
     conf_SnapshotZFSImage = env look ''SABON_SNAPSHOT_ZFS_IMAGE'' [],
     conf_NotifyURLs = envList look ''SABON_NOTIFY_URLS'',
     conf_NotifyOn = env look ''SABON_NOTIFY_ON'' ''failure'',
     conf_NotifyTitleTemplate = [], conf_NotifyTemplate = [],
     conf_APIAddr = env look ''SABON_API_ADDR'' [],
     conf_APIToken = env look ''SABON_API_TOKEN'' [],
     conf_Targets = []\<rparr>"

definition clamp_intervals :: "config \<Rightarrow> config" where
  "clamp_intervals c =
     (let c = (if conf_ResyncInterval c \<le> 0 then c\<lparr>conf_ResyncInterval := 5 * minute\<rparr> else c)
      in if conf_DebounceDelay c \<le> 0 then c\<lparr>conf_DebounceDelay := 2 * second\<rparr> else c)"

definition check_enums :: "config \<Rightarrow> error option" where
  "check_enums c =
     (if conf_Snapshot c \<noteq> ''none'' \<and> conf_Snapshot c \<noteq> ''zfs'' \<and> conf_Snapshot c \<noteq> ''auto'' then
        Some (Errorf ''SABON_SNAPSHOT must be \"none\", \"zfs\" or \"auto\", got %q'' [conf_Snapshot c])
      else if conf_Runtime c \<noteq> ''auto'' \<and> conf_Runtime c \<noteq> ''standalone'' \<and> conf_Runtime c \<noteq> ''swarm'' then
        Some (Errorf ''SABON_RUNTIME must be \"auto\", \"standalone\" or \"swarm\", got %q'' [conf_Runtime c])
      else if conf_NotifyOn c \<noteq> ''failure'' \<and> conf_NotifyOn c \<noteq> ''always'' then
        Some (Errorf ''SABON_NOTIFY_ON must be \"failure\" or \"always\", got %q'' [conf_NotifyOn c])
      else None)"

definition Load ::
  "(string \<Rightarrow> duration res) \<Rightarrow> (string \<Rightarrow> file_read) \<Rightarrow> (string \<Rightarrow> decoded) \<Rightarrow> lookup_env \<Rightarrow> config res" where
  "Load pd read_file decode look =
     (let c = clamp_intervals (read_env pd look)
      in case check_enums c of
           Some e \<Rightarrow> Inl e
         | None \<Rightarrow>
             res_bind (envTemplate read_file look ''SABON_NOTIFY_TITLE_TEMPLATE'') (\<lambda>title.
             res_bind (envTemplate read_file look ''SABON_NOTIFY_TEMPLATE'') (\<lambda>body.
             res_bind (envMap look ''SABON_MOVER_LABELS'') (\<lambda>labels.
             res_bind (LoadTargets read_file decode (conf_ConfigFile c)) (\<lambda>ts.
               Inr (c\<lparr>conf_NotifyTitleTemplate := title, conf_NotifyTemplate := body,
                      conf_MoverLabels := labels, conf_Targets := ts\<rparr>))))))"

fun find_target :: "target list \<Rightarrow> string \<Rightarrow> target option" where
  "find_target [] name = None"
| "find_target (t # ts) name = (if tgt_Name t = name then Some t else find_target ts name)"

definition Config_Target :: "config \<Rightarrow> string \<Rightarrow> target option" where
  "Config_Target c name = find_target (conf_Targets c) name"

section \<open>Properties\<close>

lemma env_pairs_labels:
  assumes "env_pairs key ps out = Inr m" "wf_map out" "\<forall>k\<in>fst ` set out. k \<noteq> [] \<and> \<not> prefix ''sabon.'' k"
  shows "wf_map m \<and> (\<forall>k\<in>fst ` set m. k \<noteq> [] \<and> \<not> prefix ''sabon.'' k)"
  using assms
proof (induction key ps out rule: env_pairs.induct)
  case (2 key pair ps out)
  show ?case
  proof (cases "TrimSpace pair = []")
    case True
    with 2 show ?thesis by simp
  next
    case False
    obtain k val found where c: "Cut pair ''='' = (k, val, found)" by (metis surj_pair)
    with 2(3) False have f: "found" "TrimSpace k \<noteq> []" "\<not> prefix ''sabon.'' (TrimSpace k)"
      and r: "env_pairs key ps (AList.update (TrimSpace k) (TrimSpace val) out) = Inr m"
      by (auto simp: Let_def split: if_splits)
    have "\<forall>k'\<in>fst ` set (AList.update (TrimSpace k) (TrimSpace val) out). k' \<noteq> [] \<and> \<not> prefix ''sabon.'' k'"
      using 2(5) f by (auto simp: dom_update)
    with 2(2)[OF False c[symmetric] refl refl] f r 2(4) show ?thesis by simp
  qed
qed auto

lemma envMap_labels:
  "envMap look key = Inr m \<Longrightarrow> wf_map m \<and> (\<forall>k\<in>fst ` set m. k \<noteq> [] \<and> \<not> prefix ''sabon.'' k)"
proof -
  assume m: "envMap look key = Inr m"
  show ?thesis
  proof (cases "m = []")
    case False
    with m obtain v where "env_pairs key (Split v (CHR '','')) [] = Inr m"
      by (auto simp: envMap_def split: option.splits if_splits)
    from env_pairs_labels[OF this] show ?thesis by simp
  qed simp
qed

lemma LoadTargets_valid: "LoadTargets rf dec path = Inr ts \<Longrightarrow> valid_target_file ts"
  by (auto simp: LoadTargets_def Validate_None_iff valid_target_file_def split: file_read.splits decoded.splits option.splits)

lemma find_target_Some_iff:
  assumes "distinct (map tgt_Name ts)"
  shows "find_target ts n = Some t \<longleftrightarrow> t \<in> set ts \<and> tgt_Name t = n"
  using assms by (induction ts) (auto simp: image_iff)

lemma find_target_None: "find_target ts n = None \<longleftrightarrow> n \<notin> tgt_Name ` set ts"
  by (induction ts) auto

definition valid_config :: "config \<Rightarrow> bool" where
  "valid_config c \<longleftrightarrow>
     conf_ResyncInterval c > 0 \<and> conf_DebounceDelay c > 0 \<and>
     conf_Snapshot c \<in> {''none'', ''zfs'', ''auto''} \<and> conf_Runtime c \<in> {''auto'', ''standalone'', ''swarm''} \<and>
     conf_NotifyOn c \<in> {''failure'', ''always''} \<and>
     wf_map (conf_MoverLabels c) \<and> (\<forall>k\<in>fst ` set (conf_MoverLabels c). k \<noteq> [] \<and> \<not> prefix ''sabon.'' k) \<and>
     valid_target_file (conf_Targets c)"

lemma Load_valid:
  assumes "Load pd rf dec look = Inr c"
  shows "valid_config c"
proof -
  let ?c = "clamp_intervals (read_env pd look)"
  have clamp: "conf_ResyncInterval ?c > 0" "conf_DebounceDelay ?c > 0"
    by (simp_all add: clamp_intervals_def Let_def minute_def second_def)
  have enums: "check_enums ?c = None" using assms by (auto simp: Load_def Let_def split: option.splits)
  then obtain title body labels ts where l: "envMap look ''SABON_MOVER_LABELS'' = Inr labels"
    and t: "LoadTargets rf dec (conf_ConfigFile ?c) = Inr ts"
    and c: "c = ?c\<lparr>conf_NotifyTitleTemplate := title, conf_NotifyTemplate := body, conf_MoverLabels := labels, conf_Targets := ts\<rparr>"
    using assms by (auto simp: Load_def Let_def res_bind_eq_Inr)
  show ?thesis
    using clamp enums envMap_labels[OF l] LoadTargets_valid[OF t]
    by (auto simp: valid_config_def c check_enums_def split: if_splits)
qed

section \<open>Claims\<close>

text \<open>
  C34. A configuration that loads is valid: whatever the environment and the files hold, the resync
  and debounce intervals are positive, the three enumerated settings have one of their values, the
  global mover labels are a map whose keys are not empty and avoid the reserved prefix, and the
  targets are a well-formed file. A lookup of a target by name finds exactly the target of that name.
\<close>

theorem config_load_valid:
  assumes "Load pd read_file decode look = Inr c"
  shows "valid_config c \<and> (\<forall>n t. Config_Target c n = Some t \<longleftrightarrow> t \<in> set (conf_Targets c) \<and> tgt_Name t = n)"
proof -
  have v: "valid_config c" using assms by (rule Load_valid)
  then have "distinct (map tgt_Name (conf_Targets c))" by (simp add: valid_config_def valid_target_file_def)
  with v show ?thesis by (simp add: Config_Target_def find_target_Some_iff)
qed

theorem config_load_valid_witness:
  "\<exists>c. Load (\<lambda>s. Inr (- 1)) (\<lambda>p. Contents ''x'') (\<lambda>raw. Decoded [empty_target\<lparr>tgt_Name := ''nas'', tgt_Path := ''/backup''\<rparr>])
       (\<lambda>v. if v = ''SABON_RESYNC_INTERVAL'' then Some ''-1ns'' else if v = ''SABON_MOVER_LABELS'' then Some ''team=ops, tier = gold'' else None)
     = Inr c \<and> conf_ResyncInterval c = 5 * minute \<and> conf_MoverLabels c = [(''team'', ''ops''), (''tier'', ''gold'')] \<and> valid_config c"
proof -
  let ?l = "Load (\<lambda>s. Inr (- 1)) (\<lambda>p. Contents ''x'') (\<lambda>raw. Decoded [empty_target\<lparr>tgt_Name := ''nas'', tgt_Path := ''/backup''\<rparr>])
       (\<lambda>v. if v = ''SABON_RESYNC_INTERVAL'' then Some ''-1ns'' else if v = ''SABON_MOVER_LABELS'' then Some ''team=ops, tier = gold'' else None)"
  have e: "map_sum id (\<lambda>c. (conf_ResyncInterval c, conf_MoverLabels c)) ?l = Inr (5 * minute, [(''team'', ''ops''), (''tier'', ''gold'')])"
    by code_simp
  then obtain c where c: "?l = Inr c" by (cases ?l) auto
  with e config_load_valid[OF c] show ?thesis by auto
qed

text \<open>
  The health probe always aims at a server that runs: the probe address is the health listener
  when one is configured and the metrics server otherwise, and it is blank exactly when both are
  disabled; with nothing set it is the default metrics address, and disabling metrics alone moves the
  probe to the loopback default.
\<close>

theorem health_probe_reaches_server:
  "HealthProbeAddr look \<in> {HealthAddrFromEnv look, MetricsAddrFromEnv look} \<and>
   (HealthProbeAddr look = [] \<longleftrightarrow> HealthAddrFromEnv look = [] \<and> MetricsAddrFromEnv look = []) \<and>
   (look ''SABON_HEALTH_ADDR'' = None \<longrightarrow> HealthProbeAddr look \<noteq> [] \<and>
      (look ''SABON_METRICS_ADDR'' = None \<longrightarrow> HealthProbeAddr look = DefaultMetricsAddr) \<and>
      (look ''SABON_METRICS_ADDR'' = Some [] \<longrightarrow> HealthProbeAddr look = DefaultHealthAddr))"
  by (auto simp: HealthProbeAddr_def HealthAddrFromEnv_def MetricsAddrFromEnv_def env_def Let_def
      DefaultMetricsAddr_def DefaultHealthAddr_def split: option.splits)

theorem health_probe_reaches_server_witness:
  "HealthProbeAddr (\<lambda>v. if v = ''SABON_METRICS_ADDR'' then Some [] else None) = DefaultHealthAddr"
  using health_probe_reaches_server[of "\<lambda>v. if v = ''SABON_METRICS_ADDR'' then Some [] else None"] by simp

end
