(* ===== verification/Labels.thy ===== *)
theory Labels
  imports Api
begin

text \<open>
  Reading sabon's labels off a container (\<^verbatim>\<open>internal/label/label.go\<close>): the enable and
  instance keys, the singleton spec \<^verbatim>\<open><prefix>.backup\<close> and the named specs
  \<^verbatim>\<open><prefix>.backup.<name>\<close>. The labels are a Go map, so the loop over them visits them in
  an open order, the order of the association list; \<open>Read_order_irrelevant\<close> shows that the
  result does not depend on it. \<open>parse_spec\<close> (an argument) is the strict YAML decoder of
  \<^verbatim>\<open>parseSpec\<close>. On an error the Go function also returns the fields read so far, which no
  caller looks at; the model returns the error alone.
\<close>

record named =
  named_Name :: string
  named_Spec :: spec

record label_result =
  res_Enabled :: bool
  res_HasSpec :: bool
  res_Instance :: string
  res_Spec :: spec
  res_Named :: "named list"

text \<open>\<^verbatim>\<open>^[a-z0-9]([a-z0-9-]*[a-z0-9])?$\<close>\<close>

definition lower_digit :: "char \<Rightarrow> bool" where
  "lower_digit c \<longleftrightarrow> (CHR ''a'' \<le> c \<and> c \<le> CHR ''z'') \<or> is_digit c"

definition validName :: "string \<Rightarrow> bool" where
  "validName n \<longleftrightarrow> n \<noteq> [] \<and> lower_digit (hd n) \<and> lower_digit (last n) \<and>
     list_all (\<lambda>c. lower_digit c \<or> c = CHR ''-'') n"

definition HasBackups :: "label_result \<Rightarrow> bool" where
  "HasBackups r \<longleftrightarrow> res_HasSpec r \<or> length (res_Named r) > 0"

definition Named_App :: "named \<Rightarrow> string \<Rightarrow> string" where
  "Named_App n serviceName =
     (if spec_Repo (named_Spec n) \<noteq> [] then spec_Repo (named_Spec n)
      else if named_Name n \<noteq> [] then serviceName @ ''-'' @ named_Name n
      else serviceName)"

definition Backups :: "label_result \<Rightarrow> named list" where
  "Backups r =
     (if res_HasSpec r then [\<lparr>named_Name = [], named_Spec = res_Spec r\<rparr>] else []) @ res_Named r"

text \<open>The strict decode of a label document (\<^verbatim>\<open>parseSpec\<close>); the decoder is the argument.\<close>

definition parseSpec :: "(string \<Rightarrow> spec res) \<Rightarrow> string \<Rightarrow> spec res" where
  "parseSpec decode doc = (case decode doc of Inl e \<Rightarrow> Inl e | Inr s \<Rightarrow> Inr s)"

text \<open>The loop over all labels that collects the named specs, in the map's iteration order.\<close>

fun read_named :: "(string \<Rightarrow> spec res) \<Rightarrow> string \<Rightarrow> (string, string) gomap \<Rightarrow> named list \<Rightarrow> named list res" where
  "read_named decode namedPrefix [] acc = Inr acc"
| "read_named decode namedPrefix ((key, doc) # rest) acc =
     (case CutPrefix key namedPrefix of
        None \<Rightarrow> read_named decode namedPrefix rest acc
      | Some name \<Rightarrow>
          if \<not> validName name then
            Inl (Errorf ''label %s: backup name %q must match %s'' [key, name])
          else
            (case parseSpec decode doc of
               Inl e \<Rightarrow> Inl (Wrapf ''label %s: %w'' [key] e)
             | Inr sp \<Rightarrow>
                 read_named decode namedPrefix rest
                   (acc @ [\<lparr>named_Name = name, named_Spec = sp\<rparr>])))"

definition read_enabled :: "(string, string) gomap \<Rightarrow> string \<Rightarrow> bool \<Rightarrow> bool res" where
  "read_enabled labels pfx watchByDefault =
     (case map_of labels (pfx @ ''.enable'') of
        None \<Rightarrow> Inr watchByDefault
      | Some raw \<Rightarrow>
          (case ParseBool raw of
             Inl e \<Rightarrow> Inl (Wrapf ''label %s.%s: %w'' [pfx, ''enable''] e)
           | Inr b \<Rightarrow> Inr b))"

definition read_singleton :: "(string \<Rightarrow> spec res) \<Rightarrow> (string, string) gomap \<Rightarrow> string \<Rightarrow> (bool \<times> spec) res" where
  "read_singleton decode labels pfx =
     (case map_of labels (pfx @ ''.backup'') of
        None \<Rightarrow> Inr (False, empty_spec)
      | Some doc \<Rightarrow>
          (case parseSpec decode doc of
             Inl e \<Rightarrow> Inl (Wrapf ''label %s.%s: %w'' [pfx, ''backup''] e)
           | Inr s \<Rightarrow> Inr (True, s)))"

definition Read ::
  "(string \<Rightarrow> spec res) \<Rightarrow> (string, string) gomap \<Rightarrow> string \<Rightarrow> bool \<Rightarrow> label_result res" where
  "Read decode labels pfx watchByDefault =
     res_bind (read_enabled labels pfx watchByDefault) (\<lambda>enabled.
     res_bind (read_singleton decode labels pfx) (\<lambda>(hasSpec, sp).
     res_bind (read_named decode (pfx @ ''.backup.'') labels []) (\<lambda>nms.
       Inr \<lparr>res_Enabled = enabled, res_HasSpec = hasSpec,
            res_Instance = lookup_str labels (pfx @ ''.instance''),
            res_Spec = sp, res_Named = sort_key named_Name nms\<rparr>)))"

section \<open>Properties\<close>

text \<open>The named specs a label contributes.\<close>

definition named_of :: "(string \<Rightarrow> spec res) \<Rightarrow> string \<Rightarrow> string \<times> string \<Rightarrow> named option" where
  "named_of decode np kv =
     (case CutPrefix (fst kv) np of
        None \<Rightarrow> None
      | Some name \<Rightarrow>
          (case decode (snd kv) of
             Inl e \<Rightarrow> None
           | Inr sp \<Rightarrow> Some \<lparr>named_Name = name, named_Spec = sp\<rparr>))"

definition named_ok :: "(string \<Rightarrow> spec res) \<Rightarrow> string \<Rightarrow> string \<times> string \<Rightarrow> bool" where
  "named_ok decode np kv \<longleftrightarrow>
     (case CutPrefix (fst kv) np of
        None \<Rightarrow> True
      | Some name \<Rightarrow> validName name \<and> (\<exists>sp. decode (snd kv) = Inr sp))"

lemma read_named_Inr_iff:
  "read_named decode np labels acc = Inr out \<longleftrightarrow>
     list_all (named_ok decode np) labels \<and> out = acc @ List.map_filter (named_of decode np) labels"
proof (induction decode np labels acc rule: read_named.induct)
  case (2 decode np key doc rest acc)
  then show ?case
    by (auto simp: named_ok_def named_of_def parseSpec_def map_filter_simps
        split: option.splits sum.splits)
qed (auto simp: map_filter_simps)

lemma named_of_name: "named_of decode np kv = Some n \<Longrightarrow> fst kv = np @ named_Name n"
  by (auto simp: named_of_def CutPrefix_Some_iff split: option.splits sum.splits)

lemma distinct_named:
  "wf_map labels \<Longrightarrow> distinct (map named_Name (List.map_filter (named_of decode np) labels))"
proof (induction labels)
  case (Cons kv labels)
  show ?case
  proof (cases "named_of decode np kv")
    case None
    with Cons show ?thesis by (simp add: map_filter_simps wf_map_def)
  next
    case (Some n)
    have "named_Name n \<notin> named_Name ` set (List.map_filter (named_of decode np) labels)"
    proof
      assume "named_Name n \<in> named_Name ` set (List.map_filter (named_of decode np) labels)"
      then obtain m kv' where "kv' \<in> set labels" "named_of decode np kv' = Some m"
        "named_Name m = named_Name n"
        by (fastforce simp: List.map_filter_def)
      then have "fst kv' = fst kv" using Some named_of_name by metis
      with \<open>kv' \<in> set labels\<close> have "fst kv \<in> fst ` set labels" by (metis image_eqI)
      with Cons.prems show False by (simp add: wf_map_def)
    qed
    with Cons Some show ?thesis by (simp add: map_filter_simps wf_map_def)
  qed
qed (simp add: map_filter_simps)

lemma mset_map_filter:
  "mset (List.map_filter f xs) = image_mset (the \<circ> f) (filter_mset (\<lambda>x. f x \<noteq> None) (mset xs))"
  by (simp add: List.map_filter_def flip: mset_filter)

text \<open>Sorting by a key that is injective on the elements has one result.\<close>

lemma sort_key_unique:
  assumes "mset xs = mset ys" and "distinct (map f xs)"
  shows "sort_key f xs = sort_key f ys"
proof (rule properties_for_sort_key[OF _ _ _])
  show "mset (sort_key f ys) = mset xs" using assms(1) by simp
  show "sorted (map f (sort_key f ys))" by simp
  fix k assume "k \<in> set (sort_key f ys)"
  then have k: "k \<in> set xs" using assms(1) by (metis set_sort mset_eq_setD)
  have len: "length (filter (\<lambda>x. f k = f x) zs) = 1" if "mset zs = mset xs" for zs
  proof -
    have "distinct (map f zs)" using assms(2) that
      by (metis mset_eq_imp_distinct_iff mset_map)
    moreover have "k \<in> set zs" using k that by (metis mset_eq_setD)
    ultimately show ?thesis
    proof (induction zs)
      case (Cons z zs)
      show ?case
      proof (cases "z = k")
        case True
        then have "filter (\<lambda>x. f k = f x) zs = []"
          using Cons.prems by (auto simp: filter_empty_conv)
        with True show ?thesis by simp
      next
        case False
        with Cons.prems have "k \<in> set zs" by simp
        then have "f z \<noteq> f k" using Cons.prems by auto
        with Cons \<open>k \<in> set zs\<close> show ?thesis by simp
      qed
    qed simp
  qed
  have m: "mset (sort_key f ys) = mset xs" using assms(1) by simp
  obtain a b where a: "filter (\<lambda>x. f k = f x) (sort_key f ys) = [a]"
    and b: "filter (\<lambda>x. f k = f x) xs = [b]"
    using len[OF m] len[OF refl] by (auto simp: length_Suc_conv)
  have "mset [a] = mset [b]"
    using m a b by (metis mset_filter)
  with a b show "filter (\<lambda>x. f k = f x) (sort_key f ys) = filter (\<lambda>x. f k = f x) xs"
    by simp
qed

lemma Read_order_irrelevant_aux:
  assumes wf: "wf_map labels" and perm: "mset labels = mset labels'"
    and r: "Read decode labels pfx wbd = Inr r"
  shows "Read decode labels' pfx wbd = Inr r"
proof -
  let ?np = "pfx @ ''.backup.''"
  have lk: "map_of labels = map_of labels'" using wf perm by (rule map_of_perm)
  from r obtain en hs sp nms where h1: "read_enabled labels pfx wbd = Inr en"
    and h2: "read_singleton decode labels pfx = Inr (hs, sp)"
    and h3: "read_named decode ?np labels [] = Inr nms"
    and req: "r = \<lparr>res_Enabled = en, res_HasSpec = hs,
            res_Instance = lookup_str labels (pfx @ ''.instance''),
            res_Spec = sp, res_Named = sort_key named_Name nms\<rparr>"
    by (auto simp: Read_def res_bind_eq_Inr)
  from h3 have ok: "list_all (named_ok decode ?np) labels"
    and nms: "nms = List.map_filter (named_of decode ?np) labels"
    by (auto simp: read_named_Inr_iff)
  let ?nms' = "List.map_filter (named_of decode ?np) labels'"
  have "list_all (named_ok decode ?np) labels'"
    using ok perm by (metis list_all_iff mset_eq_setD)
  then have h3': "read_named decode ?np labels' [] = Inr ?nms'"
    by (simp add: read_named_Inr_iff)
  have "mset nms = mset ?nms'" using perm by (simp add: nms mset_map_filter)
  moreover have "distinct (map named_Name nms)" unfolding nms using wf by (rule distinct_named)
  ultimately have s: "sort_key named_Name nms = sort_key named_Name ?nms'"
    by (rule sort_key_unique)
  have h1': "read_enabled labels' pfx wbd = Inr en" using h1 by (simp add: read_enabled_def lk)
  have h2': "read_singleton decode labels' pfx = Inr (hs, sp)"
    using h2 by (simp add: read_singleton_def lk)
  show ?thesis
    by (simp add: Read_def h1' h2' h3' req s lookup_str_def lk)
qed

section \<open>Claims\<close>

text \<open>
  C31. Reading a container's labels does not depend on the order in which Go iterates the label map:
  two orders of the same map give the same result or both fail.
\<close>

theorem label_read_order_irrelevant:
  assumes "wf_map labels" and "mset labels = mset labels'"
  shows "Read decode labels pfx wbd = Inr r \<longleftrightarrow> Read decode labels' pfx wbd = Inr r"
proof -
  have "wf_map labels'"
    using assms unfolding wf_map_def by (metis mset_eq_imp_distinct_iff mset_map)
  note both = Read_order_irrelevant_aux[OF assms] Read_order_irrelevant_aux[OF this assms(2)[symmetric]]
  show ?thesis by (intro iffI) (erule both)+
qed

theorem label_read_order_irrelevant_witness:
  "map_sum id (map named_Name \<circ> res_Named)
     (Read (\<lambda>doc. Inr empty_spec) [(''sabon.backup.db'', ''x''), (''sabon.backup.files'', ''y''), (''sabon.enable'', ''true'')] ''sabon'' False)
   = Inr [''db'', ''files''] \<and>
   Read (\<lambda>doc. Inr empty_spec) [(''sabon.enable'', ''true''), (''sabon.backup.files'', ''y''), (''sabon.backup.db'', ''x'')] ''sabon'' False
   = Read (\<lambda>doc. Inr empty_spec) [(''sabon.backup.db'', ''x''), (''sabon.backup.files'', ''y''), (''sabon.enable'', ''true'')] ''sabon'' False"
proof -
  let ?l = "[(''sabon.backup.db'', ''x''), (''sabon.backup.files'', ''y''), (''sabon.enable'', ''true'')]"
  let ?m = "[(''sabon.enable'', ''true''), (''sabon.backup.files'', ''y''), (''sabon.backup.db'', ''x'')]"
  have e: "map_sum id (map named_Name \<circ> res_Named) (Read (\<lambda>doc. Inr empty_spec) ?l ''sabon'' False) = Inr [''db'', ''files'']"
    by code_simp
  then obtain r where r: "Read (\<lambda>doc. Inr empty_spec) ?l ''sabon'' False = Inr r"
    by (cases "Read (\<lambda>doc. Inr empty_spec) ?l ''sabon'' False") auto
  have w: "wf_map ?l" by (simp add: wf_map_def)
  have p: "mset ?l = mset ?m" by simp
  from label_read_order_irrelevant[OF w p] r have "Read (\<lambda>doc. Inr empty_spec) ?m ''sabon'' False = Inr r" by blast
  with e r show ?thesis by simp
qed

end
