(* ===== verification/Discovery.thy ===== *)
theory Discovery
  imports Labels
begin

text \<open>
  The shared job types and helpers of \<^verbatim>\<open>internal/discovery/discovery.go\<close>: sources and jobs,
  the app-name check, the collision filter for named backups, mount names and the \<open>Namer\<close>.
  The \<open>fresh_names\<close> locale is the contract the discoverers rely on: a name is fresh and is reserved
  when it is handed out. It is interpreted on \<open>Pick\<close> below.
\<close>

section \<open>Sources and jobs\<close>

datatype mount_type = TypeBind | TypeVolume | TypeOther string

record source =
  src_Name :: string
  src_Type :: mount_type
  src_Ref :: string

record job =
  job_Container :: string
  job_Backup :: string
  job_App :: string
  job_Instance :: string
  job_Project :: string
  job_Spec :: spec
  job_Sources :: "source list"
  job_Node :: string

definition ComposeServiceLabel :: string where
  "ComposeServiceLabel = ''com.docker.compose.service''"

definition ComposeProjectLabel :: string where
  "ComposeProjectLabel = ''com.docker.compose.project''"

definition ValidAppName :: "string \<Rightarrow> error option" where
  "ValidAppName app =
     (if app = [] then Some (Errorf ''empty app/repo name'' [])
      else if ContainsAny app [CHR ''/'', CHR 0x5C] \<or> Contains app ''..'' then
        Some (Errorf ''app/repo name %q must not contain path separators or %q'' [app, ''..''])
      else None)"

section \<open>Collisions of named backups\<close>

text \<open>The first loop: the containers of every app, and the apps with a named backup.\<close>

fun scan_jobs ::
  "job list \<Rightarrow> (string, string list) gomap \<Rightarrow> string list \<Rightarrow> (string, string list) gomap \<times> string list" where
  "scan_jobs [] containers nmd = (containers, nmd)"
| "scan_jobs (j # js) containers nmd =
     scan_jobs js
       (AList.update (job_App j)
          ((case map_of containers (job_App j) of Some cs \<Rightarrow> cs | None \<Rightarrow> []) @ [job_Container j]) containers)
       (if job_Backup j \<noteq> [] then job_App j # nmd else nmd)"

text \<open>The second loop: kept jobs in order, and the colliding apps with their containers.\<close>

fun drop_colliding ::
  "(string, string list) gomap \<Rightarrow> string list \<Rightarrow> job list \<Rightarrow> job list \<Rightarrow> (string, string list) gomap
   \<Rightarrow> job list \<times> (string, string list) gomap" where
  "drop_colliding containers nmd [] kept collisions = (kept, collisions)"
| "drop_colliding containers nmd (j # js) kept collisions =
     (let cs = (case map_of containers (job_App j) of Some cs \<Rightarrow> cs | None \<Rightarrow> [])
      in if job_App j \<in> set nmd \<and> length cs > 1
         then drop_colliding containers nmd js kept (AList.update (job_App j) cs collisions)
         else drop_colliding containers nmd js (kept @ [j]) collisions)"

definition DropNamedCollisions :: "job list \<Rightarrow> job list \<times> (string, string list) gomap" where
  "DropNamedCollisions jobs =
     (case scan_jobs jobs [] [] of (containers, nmd) \<Rightarrow> drop_colliding containers nmd jobs [] [])"

section \<open>Mount names\<close>

definition safe_name_char :: "char \<Rightarrow> bool" where
  "safe_name_char c \<longleftrightarrow> is_alnum c \<or> c \<in> set ''._-''"

text \<open>\<^verbatim>\<open>unsafeName.ReplaceAllString(s, "-")\<close>: every maximal run of other bytes to one dash.\<close>

function replace_unsafe :: "string \<Rightarrow> string" where
  "replace_unsafe [] = []"
| "replace_unsafe (c # s) =
     (if safe_name_char c then c # replace_unsafe s
      else CHR ''-'' # replace_unsafe (dropWhile (\<lambda>d. \<not> safe_name_char d) s))"
  by pat_completeness auto
termination
  by (relation "measure length") (auto simp: le_imp_less_Suc length_dropWhile_le)

definition BaseName :: "string \<Rightarrow> string \<Rightarrow> string" where
  "BaseName dest src =
     (let b = Base (TrimRight dest ''/'');
          b = (if b = [] \<or> b = ''/'' \<or> b = ''.'' then Base (TrimRight src ''/'') else b);
          b = replace_unsafe b;
          b = Trim b ''-._''
      in if b = [] then ''data'' else b)"

text \<open>
  \<^verbatim>\<open>itoa\<close> fills a 20-byte buffer from the end; the model keeps the filled part.
\<close>

function itoa_loop :: "nat \<Rightarrow> string \<Rightarrow> string" where
  "itoa_loop i b = (if 0 < i then itoa_loop (i div 10) (char_of (48 + i mod 10) # b) else b)"
  by pat_completeness auto
termination
  by (relation "measure fst") auto

declare itoa_loop.simps [simp del]

definition itoa :: "nat \<Rightarrow> string" where
  "itoa i = (if i = 0 then ''0'' else itoa_loop i [])"

lemma itoa_loop_digits: "0 < i \<Longrightarrow> itoa_loop i b = digits i @ b"
proof (induction i b rule: itoa_loop.induct)
  case (1 i b)
  show ?case
  proof (cases "i < 10")
    case True
    with 1 show ?thesis
      by (subst itoa_loop.simps) (simp add: itoa_loop.simps[of 0] digits.simps)
  next
    case False
    then have "itoa_loop (i div 10) (char_of (48 + i mod 10) # b)
        = digits (i div 10) @ char_of (48 + i mod 10) # b"
      using 1 by simp
    with False show ?thesis
      by (subst itoa_loop.simps) (simp add: digits.simps[of i])
  qed
qed

lemma digits_0: "digits 0 = ''0''"
  by code_simp

lemma itoa_digits: "itoa n = digits n"
  by (cases "n = 0") (simp_all add: itoa_def itoa_loop_digits digits_0)

section \<open>The namer\<close>

text \<open>\<open>seen\<close> is the key set of the map of handed-out names.\<close>

record namer =
  seen :: "string list"

definition NewNamer :: namer where
  "NewNamer = \<lparr>seen = []\<rparr>"

definition suffixed :: "string \<Rightarrow> nat \<Rightarrow> string" where
  "suffixed base i = base @ ''-'' @ itoa i"

lemma suffixed_inject [simp]: "suffixed base i = suffixed base j \<longleftrightarrow> i = j"
  by (simp add: suffixed_def itoa_digits)

text \<open>The loop \<^verbatim>\<open>for i := 1; n.seen[name]; i++ { name = base + "-" + itoa(i) }\<close>.\<close>

function pick_loop :: "string list \<Rightarrow> string \<Rightarrow> nat \<Rightarrow> string \<Rightarrow> string" where
  "pick_loop sn base i name =
     (if name \<in> set sn then pick_loop sn base (Suc i) (suffixed base i) else name)"
  by pat_completeness auto
termination
proof (relation "measures [\<lambda>(sn, base, i, name). card {j. i \<le> j \<and> suffixed base j \<in> set sn},
    \<lambda>(sn, base, i, name). if name \<in> set sn then 1 else 0]", goal_cases)
  case (2 sn base i name)
  let ?A = "\<lambda>i. {j. i \<le> j \<and> suffixed base j \<in> set sn}"
  have fin: "finite (?A i)" for i
  proof (rule finite_imageD)
    show "finite (suffixed base ` ?A i)" by (rule finite_subset[of _ "set sn"]) auto
    show "inj_on (suffixed base) (?A i)" by (simp add: inj_on_def)
  qed
  have sub: "?A (Suc i) \<subseteq> ?A i" by auto
  show ?case
  proof (cases "suffixed base i \<in> set sn")
    case True
    then have "i \<in> ?A i" "i \<notin> ?A (Suc i)" by simp_all
    with sub have "?A (Suc i) \<subset> ?A i" by blast
    then have "card (?A (Suc i)) < card (?A i)" using fin by (rule psubset_card_mono[rotated])
    then show ?thesis by simp
  next
    case False
    have "card (?A (Suc i)) \<le> card (?A i)" using fin sub by (rule card_mono)
    with False 2 show ?thesis by auto
  qed
qed simp

declare pick_loop.simps [simp del]

definition Pick :: "namer \<Rightarrow> string \<Rightarrow> string \<times> namer" where
  "Pick n base =
     (let base = replace_unsafe base;
          base = (if base = [] then ''data'' else base);
          name = pick_loop (seen n) base 1 base
      in (name, n\<lparr>seen := name # seen n\<rparr>))"

subsection \<open>What a caller relies on\<close>

locale fresh_names =
  fixes pick :: "'n \<Rightarrow> string \<Rightarrow> string \<times> 'n" and used :: "'n \<Rightarrow> string set"
  assumes pick_fresh: "pick n b = (x, n') \<Longrightarrow> x \<notin> used n"
    and pick_reserves: "pick n b = (x, n') \<Longrightarrow> used n' = insert x (used n)"
begin

text \<open>Adding an element named by a pick keeps the names of a list distinct and reserved.\<close>

lemma pick_extends:
  assumes "distinct (map f xs)" "set (map f xs) \<subseteq> used n" "pick n b = (f y, n')"
  shows "distinct (map f (xs @ [y]))" "set (map f (xs @ [y])) \<subseteq> used n'"
  using assms pick_fresh[OF assms(3)] pick_reserves[OF assms(3)] by auto

end

lemma pick_loop_fresh: "pick_loop sn base i name \<notin> set sn"
proof (induction sn base i name rule: pick_loop.induct)
  case (1 sn base i name)
  then show ?case by (cases "name \<in> set sn") (auto simp: pick_loop.simps[of sn base i name])
qed

lemma pick_loop_shape:
  "pick_loop sn base i name = name \<or> (\<exists>j \<ge> i. pick_loop sn base i name = suffixed base j)"
proof (induction sn base i name rule: pick_loop.induct)
  case (1 sn base i name)
  show ?case
  proof (cases "name \<in> set sn")
    case True
    then have e: "pick_loop sn base i name = pick_loop sn base (Suc i) (suffixed base i)"
      by (subst pick_loop.simps) simp
    from 1[OF True] show ?thesis unfolding e using Suc_leD by blast
  next
    case False
    then show ?thesis by (subst pick_loop.simps) simp
  qed
qed

interpretation names: fresh_names Pick "\<lambda>n. set (seen n)"
  by unfold_locales (auto simp: Pick_def Let_def pick_loop_fresh)

section \<open>Properties of names\<close>

lemma replace_unsafe_safe: "c \<in> set (replace_unsafe s) \<Longrightarrow> safe_name_char c"
  by (induction s rule: replace_unsafe.induct) (auto simp: safe_name_char_def split: if_splits)

lemma replace_unsafe_id: "list_all safe_name_char s \<Longrightarrow> replace_unsafe s = s"
  by (induction s) auto

lemma replace_unsafe_Nil_iff [simp]: "replace_unsafe s = [] \<longleftrightarrow> s = []"
  by (cases s) auto

lemma safe_suffixed: "(\<And>c. c \<in> set base \<Longrightarrow> safe_name_char c) \<Longrightarrow> c \<in> set (suffixed base i) \<Longrightarrow> safe_name_char c"
  by (auto simp: suffixed_def itoa_digits safe_name_char_def is_alnum_def dest: digits_are_digits)

lemma safe_data: "c \<in> set ''data'' \<Longrightarrow> safe_name_char c"
proof -
  have "list_all safe_name_char ''data''" by code_simp
  then show "c \<in> set ''data'' \<Longrightarrow> safe_name_char c" unfolding list_all_iff by blast
qed

text \<open>A picked name is its sanitised base, perhaps with a counter.\<close>

lemma Pick_shape:
  assumes "Pick n base = (x, n')"
  obtains b where "b \<noteq> []" "list_all safe_name_char b" "x = b \<or> (\<exists>j. x = suffixed b j)"
proof -
  define b where "b = (if replace_unsafe base = [] then ''data'' else replace_unsafe base)"
  have "b \<noteq> []" by (simp add: b_def)
  moreover have "list_all safe_name_char b"
    using replace_unsafe_safe safe_data by (simp add: b_def list_all_iff)
  moreover have "x = pick_loop (seen n) b 1 b"
    using assms by (simp add: Pick_def Let_def b_def)
  ultimately show thesis using that pick_loop_shape[of "seen n" b 1 b] by blast
qed

lemma Pick_safe:
  assumes "Pick n base = (x, n')" "c \<in> set x"
  shows "safe_name_char c"
proof -
  from assms(1) obtain b where "b \<noteq> []" "list_all safe_name_char b" "x = b \<or> (\<exists>j. x = suffixed b j)"
    by (rule Pick_shape)
  with assms(2) show ?thesis using safe_suffixed[of b] by (auto simp: list_all_iff)
qed

lemma Pick_not_Nil:
  assumes "Pick n base = (x, n')"
  shows "x \<noteq> []"
proof -
  from assms obtain b where "b \<noteq> []" "list_all safe_name_char b" "x = b \<or> (\<exists>j. x = suffixed b j)"
    by (rule Pick_shape)
  then show ?thesis by (auto simp: suffixed_def)
qed

lemma safe_not_slash: "safe_name_char c \<Longrightarrow> c \<noteq> CHR ''/''"
  by (auto simp: safe_name_char_def is_alnum_def is_digit_def char_le_iff)

section \<open>Properties of app names\<close>

lemma ValidAppName_None_iff:
  "ValidAppName app = None \<longleftrightarrow>
     app \<noteq> [] \<and> CHR ''/'' \<notin> set app \<and> CHR 0x5C \<notin> set app \<and> \<not> sublist ''..'' app"
  by (auto simp: ValidAppName_def ContainsAny_iff Contains_iff_sublist)

lemma valid_app_normal:
  "ValidAppName app = None \<Longrightarrow> app \<noteq> ''.'' \<Longrightarrow> normal_comp app"
  by (auto simp: ValidAppName_None_iff normal_comp_def)

lemma Path_Join_two:
  "a \<noteq> [] \<Longrightarrow> b \<noteq> [] \<Longrightarrow> Path_Join [a, b] = Clean (a @ ''/'' @ b)"
  by (simp add: Path_Join_def)

lemma abs_comps_append:
  "normal_comp c \<Longrightarrow> abs_comps (p @ ''/'' @ c) = abs_comps p @ [c]"
  by (simp add: abs_comps_def Split_append_Split clean_comps_append normal_comp_def)

lemma Path_Join_app:
  assumes "IsAbs base" "ValidAppName app = None" "app \<noteq> ''.''"
  shows "Path_Join [base, app] = abs_path (abs_comps base @ [app])"
proof -
  have n: "normal_comp app" using assms(2,3) by (rule valid_app_normal)
  have "IsAbs (base @ ''/'' @ app)" using assms(1) by (auto simp: IsAbs_def prefix_def)
  moreover have "base \<noteq> []" "app \<noteq> []" using assms by (auto simp: ValidAppName_None_iff)
  ultimately show ?thesis
    using abs_comps_append[OF n, of base] by (simp add: Path_Join_two Clean_abs)
qed

section \<open>Properties of the collision filter\<close>

definition containers_of :: "job list \<Rightarrow> string \<Rightarrow> string list" where
  "containers_of jobs app = map job_Container (filter (\<lambda>j. job_App j = app) jobs)"

text \<open>An app collides when two jobs claim it and one of them is a named backup.\<close>

definition app_collides :: "job list \<Rightarrow> string \<Rightarrow> bool" where
  "app_collides jobs app \<longleftrightarrow>
     (\<exists>j\<in>set jobs. job_App j = app \<and> job_Backup j \<noteq> []) \<and> length (containers_of jobs app) > 1"

definition list_of :: "(string, string list) gomap \<Rightarrow> string \<Rightarrow> string list" where
  "list_of m a = (case map_of m a of Some cs \<Rightarrow> cs | None \<Rightarrow> [])"

lemma scan_jobs_containers:
  "list_of (fst (scan_jobs js cs nmd)) a = list_of cs a @ containers_of js a"
  by (induction js cs nmd rule: scan_jobs.induct)
    (auto simp: list_of_def containers_of_def update_conv split: option.splits)

lemma scan_jobs_named:
  "set (snd (scan_jobs js cs nmd)) = set nmd \<union> job_App ` {j\<in>set js. job_Backup j \<noteq> []}"
  by (induction js cs nmd rule: scan_jobs.induct) auto

definition crowded :: "(string, string list) gomap \<Rightarrow> string list \<Rightarrow> string \<Rightarrow> bool" where
  "crowded cs nmd a \<longleftrightarrow> a \<in> set nmd \<and> length (list_of cs a) > 1"

lemma drop_colliding_kept:
  "fst (drop_colliding cs nmd js kept coll) = kept @ filter (\<lambda>j. \<not> crowded cs nmd (job_App j)) js"
  by (induction cs nmd js kept coll rule: drop_colliding.induct)
    (auto simp: Let_def crowded_def list_of_def[symmetric])

lemma drop_colliding_reported:
  "map_of (snd (drop_colliding cs nmd js kept coll)) a =
     (if \<exists>j\<in>set js. job_App j = a \<and> crowded cs nmd a then Some (list_of cs a) else map_of coll a)"
  by (induction cs nmd js kept coll rule: drop_colliding.induct)
    (auto simp: Let_def crowded_def list_of_def[symmetric] update_conv)

lemma crowded_scan:
  assumes "scan_jobs jobs [] [] = (cs, nmd)"
  shows "crowded cs nmd a \<longleftrightarrow> app_collides jobs a" "list_of cs a = containers_of jobs a"
proof -
  show l: "list_of cs a = containers_of jobs a"
    using scan_jobs_containers[of jobs "[]" "[]" a] assms by (simp add: list_of_def)
  have "set nmd = job_App ` {j\<in>set jobs. job_Backup j \<noteq> []}"
    using scan_jobs_named[of jobs "[]" "[]"] assms by simp
  with l show "crowded cs nmd a \<longleftrightarrow> app_collides jobs a"
    by (auto simp: app_collides_def crowded_def)
qed

lemma DropNamedCollisions_kept:
  "fst (DropNamedCollisions jobs) = filter (\<lambda>j. \<not> app_collides jobs (job_App j)) jobs"
proof -
  obtain cs nmd where s: "scan_jobs jobs [] [] = (cs, nmd)" by (meson surj_pair)
  show ?thesis
    by (simp add: DropNamedCollisions_def s drop_colliding_kept crowded_scan(1)[OF s])
qed

lemma DropNamedCollisions_reported:
  "map_of (snd (DropNamedCollisions jobs)) a =
     (if app_collides jobs a then Some (containers_of jobs a) else None)"
proof -
  obtain cs nmd where s: "scan_jobs jobs [] [] = (cs, nmd)" by (meson surj_pair)
  have "app_collides jobs a \<Longrightarrow> \<exists>j\<in>set jobs. job_App j = a" by (auto simp: app_collides_def)
  then show ?thesis
    by (auto simp: DropNamedCollisions_def s drop_colliding_reported
        crowded_scan(1)[OF s] crowded_scan(2)[OF s])
qed

text \<open>After the filter a named backup owns its repository alone.\<close>

lemma kept_named_alone:
  assumes "j \<in> set (fst (DropNamedCollisions jobs))" "job_Backup j \<noteq> []"
  shows "filter (\<lambda>k. job_App k = job_App j) jobs = [j]"
proof -
  have j: "j \<in> set jobs" "\<not> app_collides jobs (job_App j)"
    using assms(1) by (auto simp: DropNamedCollisions_kept)
  let ?f = "filter (\<lambda>k. job_App k = job_App j) jobs"
  have "j \<in> set ?f" using j by simp
  moreover have "length ?f \<le> 1"
    using j assms(2) by (auto simp: app_collides_def containers_of_def not_less)
  ultimately show ?thesis
    by (metis (no_types, lifting) One_nat_def le_Suc_eq length_0_conv length_Suc_conv le_zero_eq
        list.set_cases list.sel(1) not_Cons_self2 set_ConsD list.distinct(1))
qed

section \<open>Claims\<close>



text \<open>
  The app-name check lets one name through that breaks the per-app isolation: a single dot is a
  valid app name, and its repository directory is the base path itself, which contains every other
  app's repository.
\<close>

theorem dot_app_is_base:
  "ValidAppName ''.'' = None \<and> (IsAbs base \<longrightarrow> Path_Join [base, ''.''] = Clean base)"
proof -
  have v: "ValidAppName ''.'' = None" by code_simp
  moreover have "Path_Join [base, ''.''] = Clean base" if a: "IsAbs base"
  proof -
    have "base \<noteq> []" using a by auto
    then have "Path_Join [base, ''.''] = Clean (base @ ''/'' @ ''.'')" by (simp add: Path_Join_def)
    moreover have "IsAbs (base @ ''/'' @ ''.'')" using a by (auto simp: IsAbs_def prefix_def)
    moreover have "abs_comps (base @ ''/'' @ ''.'') = abs_comps base"
      by (simp add: abs_comps_def Split_append_Split clean_comps_def clean_step_def)
    ultimately show ?thesis using a by (simp add: Clean_abs)
  qed
  ultimately show ?thesis by simp
qed

theorem dot_app_is_base_witness: "Path_Join [''/srv/repos'', ''.''] = Clean ''/srv/repos''"
proof -
  have "IsAbs ''/srv/repos''" by code_simp
  then show ?thesis using dot_app_is_base by blast
qed

text \<open>
  The collision filter drops exactly the apps that two jobs claim when one of them is a named
  backup, keeps every other job in order, and reports every dropped app with all the containers that
  claimed it.
\<close>

theorem named_collisions_exact:
  "fst (DropNamedCollisions jobs) = filter (\<lambda>j. \<not> app_collides jobs (job_App j)) jobs \<and>
   map_of (snd (DropNamedCollisions jobs)) app =
     (if app_collides jobs app then Some (containers_of jobs app) else None)"
  by (simp add: DropNamedCollisions_kept DropNamedCollisions_reported)

end
