(* ===== verification/Runtime_Discovery.thy ===== *)
theory Runtime_Discovery
  imports Discovery "HOL-Library.Word"
begin

text \<open>
  The two concrete discoverers, \<^verbatim>\<open>internal/engine/docker/discovery.go\<close> and
  \<^verbatim>\<open>internal/engine/swarm/discovery.go\<close>: from labelled containers or services to jobs. The
  Docker API calls are arguments: \<open>inspect\<close> the mounts of a container, \<open>tasks\<close> the running tasks of
  a service, the lists of containers, services and nodes. \<open>srt\<close> is the final \<^verbatim>\<open>sort.Slice\<close>
  by app, which leaves the order of equal apps open. The locale \<open>discoverer\<close> states what the
  reconciler relies on; both runtimes are shown to provide it.
\<close>

section \<open>Docker data\<close>

record mount =
  mnt_Type :: mount_type
  mnt_Source :: string
  mnt_Target :: string
  mnt_ReadOnly :: bool

record mount_point =
  mp_Type :: mount_type
  mp_Name :: string
  mp_Source :: string
  mp_Destination :: string

record container_summary =
  cs_ID :: string
  cs_Names :: "string list"
  cs_Labels :: "(string, string) gomap"
  cs_State :: string
  cs_Created :: int

record service =
  svc_ID :: string
  svc_Version :: nat
  svc_CreatedAt :: int
  svc_Name :: string
  svc_Labels :: "(string, string) gomap"
  svc_Mounts :: "mount list option"
  svc_Env :: "string list"
  svc_Constraints :: "string list option"
  svc_Replicated :: "64 word option option"

record node =
  node_ID :: string
  node_Hostname :: string
  node_Labels :: "(string, string) gomap"

record disc_config =
  disc_prefix :: string
  disc_watchByDefault :: bool
  disc_cacheVolume :: string
  disc_instance :: string

section \<open>Collecting sources\<close>

type_synonym source_state = "namer \<times> source list"

definition add_source :: "string \<Rightarrow> mount_type \<Rightarrow> string \<Rightarrow> source_state \<Rightarrow> source_state" where
  "add_source base ty ref st =
     (case Pick (fst st) base of (x, n') \<Rightarrow>
        (n', snd st @ [\<lparr>src_Name = x, src_Type = ty, src_Ref = ref\<rparr>]))"

definition add_volume :: "string \<Rightarrow> source_state \<Rightarrow> source_state" where
  "add_volume v st = (if v = [] then st else add_source v TypeVolume v st)"

definition add_path :: "string \<Rightarrow> source_state \<Rightarrow> source_state" where
  "add_path p st = (if p = [] then st else add_source (BaseName p p) TypeBind p st)"

definition docker_add_mount :: "string \<Rightarrow> string list \<Rightarrow> mount_point \<Rightarrow> source_state \<Rightarrow> source_state" where
  "docker_add_mount cacheVolume excluded m st =
     (case mp_Type m of
        TypeBind \<Rightarrow>
          if mp_Source m = [] then st
          else add_source (BaseName (mp_Destination m) (mp_Source m)) TypeBind (mp_Source m) st
      | TypeVolume \<Rightarrow>
          if mp_Name m = [] \<or> mp_Name m = cacheVolume then st
          else if mp_Name m \<in> set excluded then st
          else add_source (mp_Name m) TypeVolume (mp_Name m) st
      | TypeOther _ \<Rightarrow> st)"

definition swarm_add_mount :: "string \<Rightarrow> string list \<Rightarrow> mount \<Rightarrow> source_state \<Rightarrow> source_state" where
  "swarm_add_mount cacheVolume excluded m st =
     (case mnt_Type m of
        TypeBind \<Rightarrow>
          if mnt_Source m = [] then st
          else add_source (BaseName (mnt_Target m) (mnt_Source m)) TypeBind (mnt_Source m) st
      | TypeVolume \<Rightarrow>
          if mnt_Source m = [] \<or> mnt_Source m = cacheVolume then st
          else if mnt_Source m \<in> set excluded then st
          else add_source (mnt_Source m) TypeVolume (mnt_Source m) st
      | TypeOther _ \<Rightarrow> st)"

definition add_extras :: "spec \<Rightarrow> source_state \<Rightarrow> source_state" where
  "add_extras sp st = fold add_path (spec_ExtraPaths sp) (fold add_volume (spec_ExtraVolumes sp) st)"

section \<open>Standalone Docker\<close>

definition docker_name :: "container_summary \<Rightarrow> string" where
  "docker_name c =
     (case cs_Names c of
        nm # _ \<Rightarrow> TrimPrefix nm ''/''
      | [] \<Rightarrow> if length (cs_ID c) \<ge> 12 then take 12 (cs_ID c) else cs_ID c)"

text \<open>The container's own bind mounts and named volumes, when the spec asks for them.\<close>

definition docker_auto :: "(string \<Rightarrow> mount_point list res) \<Rightarrow> string \<Rightarrow> string \<Rightarrow> spec \<Rightarrow> source_state res" where
  "docker_auto inspect cacheVolume cname sp =
     (if AutoSources sp
      then (case inspect cname of
              Inl e \<Rightarrow> Inl e
            | Inr ms \<Rightarrow>
                Inr (fold (docker_add_mount cacheVolume (spec_ExcludeVolumes sp)) ms (NewNamer, [])))
      else Inr (NewNamer, []))"

definition docker_resolve ::
  "(string \<Rightarrow> mount_point list res) \<Rightarrow> string \<Rightarrow> string \<Rightarrow> (string, string) gomap \<Rightarrow> string \<Rightarrow> named \<Rightarrow> job res" where
  "docker_resolve inspect cacheVolume cname labels inst b =
     (let sp = named_Spec b;
          service = (if lookup_str labels ComposeServiceLabel = [] then cname
                     else lookup_str labels ComposeServiceLabel);
          app = Named_App b service
      in case ValidAppName app of
           Some e \<Rightarrow> Inl e
         | None \<Rightarrow>
             res_bind (docker_auto inspect cacheVolume cname sp)
               (\<lambda>st. Inr \<lparr>job_Container = cname, job_Backup = named_Name b, job_App = app,
                  job_Instance = inst, job_Project = lookup_str labels ComposeProjectLabel,
                  job_Spec = sp, job_Sources = snd (add_extras sp st), job_Node = []\<rparr>))"

text \<open>The jobs of one container; an unreadable label, a failed resolve or no sources skips it.\<close>

definition keep_resolved :: "job res \<Rightarrow> job option" where
  "keep_resolved r =
     (case r of Inl e \<Rightarrow> None | Inr j \<Rightarrow> if job_Sources j = [] then None else Some j)"

definition docker_jobs_of ::
  "(string \<Rightarrow> spec res) \<Rightarrow> (string \<Rightarrow> mount_point list res) \<Rightarrow> disc_config \<Rightarrow> container_summary \<Rightarrow> job list" where
  "docker_jobs_of decode inspect d c =
     (case Read decode (cs_Labels c) (disc_prefix d) (disc_watchByDefault d) of
        Inl e \<Rightarrow> []
      | Inr r \<Rightarrow>
          if \<not> res_Enabled r \<or> \<not> HasBackups r then []
          else if disc_instance d \<noteq> [] \<and> res_Instance r \<noteq> disc_instance d then []
          else List.map_filter
            (\<lambda>b. keep_resolved
               (docker_resolve inspect (disc_cacheVolume d) (docker_name c) (cs_Labels c) (res_Instance r) b))
            (Backups r))"

definition docker_List ::
  "(job list \<Rightarrow> job list) \<Rightarrow> (string \<Rightarrow> spec res) \<Rightarrow> (string \<Rightarrow> mount_point list res) \<Rightarrow> disc_config
   \<Rightarrow> container_summary list res \<Rightarrow> job list res" where
  "docker_List srt decode inspect d containers =
     (case containers of
        Inl e \<Rightarrow> Inl e
      | Inr cs \<Rightarrow>
          Inr (srt (fst (DropNamedCollisions (concat (map (docker_jobs_of decode inspect d) cs))))))"

section \<open>Docker Swarm\<close>

fun hostByID :: "node list \<Rightarrow> string \<Rightarrow> string" where
  "hostByID [] i = []"
| "hostByID (n # ns) i = (if node_ID n = i then node_Hostname n else hostByID ns i)"

definition constraintEq :: "string \<Rightarrow> (string \<times> string) option" where
  "constraintEq c =
     (case Index c ''=='' of
        None \<Rightarrow> None
      | Some i \<Rightarrow> Some (TrimSpace (take i c), TrimSpace (drop (i + 2) c)))"

text \<open>The inner loop over the nodes for a label constraint: the last match and the match count.\<close>

fun label_matches :: "string \<Rightarrow> string \<Rightarrow> node list \<Rightarrow> string \<times> nat \<Rightarrow> string \<times> nat" where
  "label_matches lk v [] acc = acc"
| "label_matches lk v (nd # nds) (m, n) =
     label_matches lk v nds
       (if lookup_str (node_Labels nd) lk = v then (node_Hostname nd, n + 1) else (m, n))"

fun placement_loop :: "node list \<Rightarrow> string list \<Rightarrow> string" where
  "placement_loop nodes [] = []"
| "placement_loop nodes (c # cs) =
     (case constraintEq c of
        None \<Rightarrow> placement_loop nodes cs
      | Some (key, v) \<Rightarrow>
          if v = [] then placement_loop nodes cs
          else if key = ''node.hostname'' then v
          else if key = ''node.id'' then
            (let h = hostByID nodes v in if h \<noteq> [] then h else placement_loop nodes cs)
          else if HasPrefix key ''node.labels.'' then
            (case label_matches (TrimPrefix key ''node.labels.'') v nodes ([], 0) of
               (m, n) \<Rightarrow> if n = 1 then m else placement_loop nodes cs)
          else placement_loop nodes cs)"

definition placementNode :: "service \<Rightarrow> node list \<Rightarrow> string" where
  "placementNode svc nodes =
     (case svc_Constraints svc of None \<Rightarrow> [] | Some cs \<Rightarrow> placement_loop nodes cs)"

fun first_host :: "node list \<Rightarrow> string list \<Rightarrow> string" where
  "first_host nodes [] = []"
| "first_host nodes (i # ids) = (let h = hostByID nodes i in if h \<noteq> [] then h else first_host nodes ids)"

text \<open>\<open>tasks\<close> gives the node ids of a service's tasks that should be running.\<close>

definition taskNode :: "(string \<Rightarrow> string list res) \<Rightarrow> string \<Rightarrow> node list \<Rightarrow> string" where
  "taskNode tasks serviceID nodes =
     (case tasks serviceID of Inl e \<Rightarrow> [] | Inr ids \<Rightarrow> first_host nodes ids)"

definition nodeFor :: "(string \<Rightarrow> string list res) \<Rightarrow> service \<Rightarrow> node list \<Rightarrow> string" where
  "nodeFor tasks svc nodes =
     (let h = taskNode tasks (svc_ID svc) nodes in if h \<noteq> [] then h else placementNode svc nodes)"

definition swarm_auto :: "string \<Rightarrow> service \<Rightarrow> spec \<Rightarrow> source_state" where
  "swarm_auto cacheVolume svc sp =
     (case svc_Mounts svc of
        Some ms \<Rightarrow>
          if AutoSources sp
          then fold (swarm_add_mount cacheVolume (spec_ExcludeVolumes sp)) ms (NewNamer, [])
          else (NewNamer, [])
      | None \<Rightarrow> (NewNamer, []))"

definition swarm_resolve ::
  "(string \<Rightarrow> string list res) \<Rightarrow> string \<Rightarrow> node list \<Rightarrow> service \<Rightarrow> string \<Rightarrow> named \<Rightarrow> job res" where
  "swarm_resolve tasks cacheVolume nodes svc inst b =
     (let sp = named_Spec b;
          labels = svc_Labels svc;
          service = (if lookup_str labels ComposeServiceLabel = [] then svc_Name svc
                     else lookup_str labels ComposeServiceLabel);
          app = Named_App b service
      in case ValidAppName app of
           Some e \<Rightarrow> Inl e
         | None \<Rightarrow>
             Inr \<lparr>job_Container = svc_Name svc, job_Backup = named_Name b, job_App = app,
                  job_Instance = inst, job_Project = lookup_str labels ComposeProjectLabel,
                  job_Spec = sp, job_Sources = snd (add_extras sp (swarm_auto cacheVolume svc sp)),
                  job_Node = nodeFor tasks svc nodes\<rparr>)"

definition swarm_jobs_of ::
  "(string \<Rightarrow> spec res) \<Rightarrow> (string \<Rightarrow> string list res) \<Rightarrow> disc_config \<Rightarrow> node list \<Rightarrow> service \<Rightarrow> job list" where
  "swarm_jobs_of decode tasks d nodes svc =
     (case Read decode (svc_Labels svc) (disc_prefix d) (disc_watchByDefault d) of
        Inl e \<Rightarrow> []
      | Inr r \<Rightarrow>
          if \<not> res_Enabled r \<or> \<not> HasBackups r then []
          else if disc_instance d \<noteq> [] \<and> res_Instance r \<noteq> disc_instance d then []
          else List.map_filter
            (\<lambda>b. keep_resolved
               (swarm_resolve tasks (disc_cacheVolume d) nodes svc (res_Instance r) b))
            (Backups r))"

definition listNodes :: "node list res \<Rightarrow> node list" where
  "listNodes r = (case r of Inl e \<Rightarrow> [] | Inr ns \<Rightarrow> ns)"

definition swarm_List ::
  "(job list \<Rightarrow> job list) \<Rightarrow> (string \<Rightarrow> spec res) \<Rightarrow> (string \<Rightarrow> string list res) \<Rightarrow> disc_config
   \<Rightarrow> node list res \<Rightarrow> service list res \<Rightarrow> job list res" where
  "swarm_List srt decode tasks d nodes services =
     (case services of
        Inl e \<Rightarrow> Inl e
      | Inr svcs \<Rightarrow>
          Inr (srt (fst (DropNamedCollisions
            (concat (map (swarm_jobs_of decode tasks d (listNodes nodes)) svcs))))))"

section \<open>Well-formed jobs\<close>

definition wf_source :: "source \<Rightarrow> bool" where
  "wf_source s \<longleftrightarrow>
     src_Name s \<noteq> [] \<and> list_all safe_name_char (src_Name s) \<and> src_Ref s \<noteq> [] \<and>
     (src_Type s = TypeBind \<or> src_Type s = TypeVolume)"

definition wf_job :: "job \<Rightarrow> bool" where
  "wf_job j \<longleftrightarrow>
     ValidAppName (job_App j) = None \<and> job_Sources j \<noteq> [] \<and>
     distinct (map src_Name (job_Sources j)) \<and> list_all wf_source (job_Sources j)"

definition wf_sources :: "source_state \<Rightarrow> bool" where
  "wf_sources st \<longleftrightarrow>
     distinct (map src_Name (snd st)) \<and> set (map src_Name (snd st)) \<subseteq> set (seen (fst st)) \<and>
     list_all wf_source (snd st)"

lemma wf_sources_new [wf_intros]: "wf_sources (NewNamer, [])"
  by (simp add: wf_sources_def NewNamer_def)

lemma wf_add_source [wf_intros]:
  assumes "wf_sources st" "ref \<noteq> []" "ty = TypeBind \<or> ty = TypeVolume"
  shows "wf_sources (add_source base ty ref st)"
proof -
  obtain x n' where p: "Pick (fst st) base = (x, n')" by (meson surj_pair)
  let ?s = "\<lparr>src_Name = x, src_Type = ty, src_Ref = ref\<rparr>"
  have e: "add_source base ty ref st = (n', snd st @ [?s])" by (simp add: add_source_def p)
  have p': "Pick (fst st) base = (src_Name ?s, n')" by (simp add: p)
  have "wf_source ?s"
    using assms(2,3) Pick_not_Nil[OF p] Pick_safe[OF p] by (auto simp: wf_source_def list_all_iff)
  moreover note names.pick_extends[of src_Name "snd st" "fst st" base ?s n']
  ultimately show ?thesis
    using assms(1) p' unfolding e wf_sources_def by simp
qed

lemma wf_add_volume [wf_intros]: "wf_sources st \<Longrightarrow> wf_sources (add_volume v st)"
  by (simp add: add_volume_def wf_add_source)

lemma wf_add_path [wf_intros]: "wf_sources st \<Longrightarrow> wf_sources (add_path p st)"
  by (simp add: add_path_def wf_add_source)

lemma wf_docker_add_mount [wf_intros]:
  "wf_sources st \<Longrightarrow> wf_sources (docker_add_mount cv ex m st)"
  by (auto simp: docker_add_mount_def wf_add_source split: mount_type.splits)

lemma wf_swarm_add_mount [wf_intros]:
  "wf_sources st \<Longrightarrow> wf_sources (swarm_add_mount cv ex m st)"
  by (auto simp: swarm_add_mount_def wf_add_source split: mount_type.splits)

lemma wf_fold: "(\<And>x st. wf_sources st \<Longrightarrow> wf_sources (f x st)) \<Longrightarrow> wf_sources st \<Longrightarrow> wf_sources (fold f xs st)"
  by (induction xs arbitrary: st) auto

lemma wf_add_extras [wf_intros]: "wf_sources st \<Longrightarrow> wf_sources (add_extras sp st)"
  unfolding add_extras_def by (intro wf_fold wf_intros)

lemma docker_auto_wf: "docker_auto inspect cv cname sp = Inr st \<Longrightarrow> wf_sources st"
  by (auto simp: docker_auto_def intro!: wf_fold wf_intros split: if_splits sum.splits)

lemma swarm_auto_wf [wf_intros]: "wf_sources (swarm_auto cv svc sp)"
  by (auto simp: swarm_auto_def intro!: wf_fold wf_intros split: option.splits)

lemma wf_job_sources:
  "wf_sources st \<Longrightarrow> job_Sources j = snd st \<Longrightarrow> job_Sources j \<noteq> [] \<Longrightarrow>
   ValidAppName (job_App j) = None \<Longrightarrow> wf_job j"
  by (simp add: wf_job_def wf_sources_def)

lemma docker_resolve_wf:
  assumes "docker_resolve inspect cv cname labels inst b = Inr j" "job_Sources j \<noteq> []"
  shows "wf_job j"
proof -
  from assms(1) obtain st where "docker_auto inspect cv cname (named_Spec b) = Inr st"
    and v: "ValidAppName (job_App j) = None" and s: "job_Sources j = snd (add_extras (named_Spec b) st)"
    by (force simp: docker_resolve_def Let_def res_bind_eq_Inr split: option.splits)
  then have "wf_sources (add_extras (named_Spec b) st)" by (intro wf_intros docker_auto_wf)
  then show ?thesis using s assms(2) v by (rule wf_job_sources)
qed

lemma swarm_resolve_wf:
  assumes "swarm_resolve tasks cv nodes svc inst b = Inr j" "job_Sources j \<noteq> []"
  shows "wf_job j"
proof (rule wf_job_sources)
  show "wf_sources (add_extras (named_Spec b) (swarm_auto cv svc (named_Spec b)))"
    by (intro wf_intros)
  show "job_Sources j = snd (add_extras (named_Spec b) (swarm_auto cv svc (named_Spec b)))"
    "ValidAppName (job_App j) = None"
    using assms(1) by (auto simp: swarm_resolve_def Let_def split: option.splits)
qed (rule assms(2))

lemma set_map_filter: "set (List.map_filter f xs) = {y. \<exists>x\<in>set xs. f x = Some y}"
  by (force simp: List.map_filter_def)

lemma keep_resolved_Some: "keep_resolved r = Some j \<longleftrightarrow> r = Inr j \<and> job_Sources j \<noteq> []"
  by (auto simp: keep_resolved_def split: sum.splits)

lemma docker_jobs_of_wf: "j \<in> set (docker_jobs_of decode inspect d c) \<Longrightarrow> wf_job j"
  by (auto simp: docker_jobs_of_def set_map_filter keep_resolved_Some dest: docker_resolve_wf
      split: sum.splits if_splits)

lemma swarm_jobs_of_wf: "j \<in> set (swarm_jobs_of decode tasks d nodes svc) \<Longrightarrow> wf_job j"
  by (auto simp: swarm_jobs_of_def set_map_filter keep_resolved_Some dest: swarm_resolve_wf
      split: sum.splits if_splits)

section \<open>The discoverer's contract\<close>

locale discoverer =
  fixes List :: "'env \<Rightarrow> job list res"
  assumes List_wf: "List e = Inr js \<Longrightarrow> j \<in> set js \<Longrightarrow> wf_job j"
    and List_sorted: "List e = Inr js \<Longrightarrow> sorted (map job_App js)"
    and List_named_alone: "List e = Inr js \<Longrightarrow> j \<in> set js \<Longrightarrow> job_Backup j \<noteq> [] \<Longrightarrow>
      filter (\<lambda>k. job_App k = job_App j) js = [j]"
begin

text \<open>Two jobs of one app are both plain (unnamed) backups.\<close>

lemma shared_app_plain:
  assumes "List e = Inr js" "i < length js" "k < length js" "i \<noteq> k"
    and "job_App (js ! i) = job_App (js ! k)"
  shows "job_Backup (js ! i) = [] \<and> job_Backup (js ! k) = []"
proof -
  have "job_Backup (js ! a) = []"
    if ab: "a < length js" "b < length js" "a \<noteq> b" "job_App (js ! a) = job_App (js ! b)" for a b
  proof (rule ccontr)
    assume "job_Backup (js ! a) \<noteq> []"
    with ab have f: "filter (\<lambda>k. job_App k = job_App (js ! a)) js = [js ! a]"
      using List_named_alone[OF assms(1), of "js ! a"] by simp
    let ?S = "{i. i < length js \<and> job_App (js ! i) = job_App (js ! a)}"
    have one: "card ?S = 1"
      using length_filter_conv_card[of "\<lambda>k. job_App k = job_App (js ! a)" js] f by simp
    have sub: "{a, b} \<subseteq> ?S" using ab by auto
    have "finite ?S" by simp
    from card_mono[OF this sub] one have "card {a, b} \<le> 1" by simp
    with ab(3) show False by simp
  qed
  with assms show ?thesis by metis
qed

end

lemma discovery_contract:
  assumes s: "slice_sorter srt job_App" and wf: "\<And>j. j \<in> set jobs \<Longrightarrow> wf_job j"
    and js: "js = srt (fst (DropNamedCollisions jobs))"
  shows "j \<in> set js \<Longrightarrow> wf_job j" "sorted (map job_App js)"
    "j \<in> set js \<Longrightarrow> job_Backup j \<noteq> [] \<Longrightarrow> filter (\<lambda>k. job_App k = job_App j) js = [j]"
proof -
  let ?k = "fst (DropNamedCollisions jobs)"
  have set: "set js = set ?k" using js slice_sorter.srt_set[OF s] by simp
  show "j \<in> set js \<Longrightarrow> wf_job j" using set wf by (auto simp: DropNamedCollisions_kept)
  show "sorted (map job_App js)" using js slice_sorter.srt_sorted[OF s] by simp
  assume j: "j \<in> set js" "job_Backup j \<noteq> []"
  let ?P = "\<lambda>k. job_App k = job_App j"
  have "filter ?P jobs = [j]" using j set kept_named_alone[of j jobs] by simp
  moreover have "filter ?P ?k = filter (\<lambda>j. \<not> app_collides jobs (job_App j)) (filter ?P jobs)"
    by (simp add: DropNamedCollisions_kept conj_commute)
  moreover have "\<not> app_collides jobs (job_App j)" using j set by (simp add: DropNamedCollisions_kept)
  ultimately have "filter ?P ?k = [j]" by simp
  then have "mset (filter ?P js) = {#j#}"
    using js slice_sorter.srt_mset[OF s, of ?k] by (metis mset_filter mset_single_iff)
  then show "filter ?P js = [j]" by (simp only: mset_single_iff)
qed

text \<open>
  Both runtimes keep the contract whatever \<^verbatim>\<open>sort.Slice\<close> does with equal apps: inside the
  sorter's interface the two \<open>List\<close> functions are discoverers.
\<close>

lemma docker_List_result:
  assumes "docker_List srt decode inspect d cs = Inr js"
  obtains jobs where "\<forall>j\<in>set jobs. wf_job j" "js = srt (fst (DropNamedCollisions jobs))"
proof (cases cs)
  case (Inr cs')
  show thesis
    by (rule that[of "concat (map (docker_jobs_of decode inspect d) cs')"])
      (use assms Inr docker_jobs_of_wf in \<open>auto simp: docker_List_def\<close>)
qed (use assms in \<open>simp add: docker_List_def\<close>)

lemma swarm_List_result:
  assumes "swarm_List srt decode tasks d nodes svcs = Inr js"
  obtains jobs where "\<forall>j\<in>set jobs. wf_job j" "js = srt (fst (DropNamedCollisions jobs))"
proof (cases svcs)
  case (Inr svcs')
  show thesis
    by (rule that[of "concat (map (swarm_jobs_of decode tasks d (listNodes nodes)) svcs')"])
      (use assms Inr swarm_jobs_of_wf in \<open>auto simp: swarm_List_def\<close>)
qed (use assms in \<open>simp add: swarm_List_def\<close>)

locale app_sorter = slice_sorter srt job_App for srt :: "job list \<Rightarrow> job list"

sublocale app_sorter \<subseteq> docker: discoverer "docker_List srt decode inspect d" for decode inspect d
proof
  fix e js j
  assume "docker_List srt decode inspect d e = Inr js"
  then obtain jobs where wf: "\<forall>j\<in>set jobs. wf_job j" and js: "js = srt (fst (DropNamedCollisions jobs))"
    by (rule docker_List_result)
  note c = discovery_contract[OF slice_sorter_axioms wf[THEN bspec] js]
  show "j \<in> set js \<Longrightarrow> wf_job j" and "sorted (map job_App js)"
    and "j \<in> set js \<Longrightarrow> job_Backup j \<noteq> [] \<Longrightarrow> filter (\<lambda>k. job_App k = job_App j) js = [j]"
    by (rule c; assumption)+
qed

sublocale app_sorter \<subseteq> swarm: discoverer "swarm_List srt decode tasks d nodes" for decode tasks d nodes
proof
  fix e js j
  assume "swarm_List srt decode tasks d nodes e = Inr js"
  then obtain jobs where wf: "\<forall>j\<in>set jobs. wf_job j" and js: "js = srt (fst (DropNamedCollisions jobs))"
    by (rule swarm_List_result)
  note c = discovery_contract[OF slice_sorter_axioms wf[THEN bspec] js]
  show "j \<in> set js \<Longrightarrow> wf_job j" and "sorted (map job_App js)"
    and "j \<in> set js \<Longrightarrow> job_Backup j \<noteq> [] \<Longrightarrow> filter (\<lambda>k. job_App k = job_App j) js = [j]"
    by (rule c; assumption)+
qed

interpretation by_app: app_sorter "sort_key job_App"
  by unfold_locales

section \<open>Claims\<close>

lemma List_contract:
  assumes s: "slice_sorter srt job_App" and wf: "\<forall>j\<in>set jobs. wf_job j"
    and js: "js = srt (fst (DropNamedCollisions jobs))"
  shows "mset js = mset (filter (\<lambda>j. \<not> app_collides jobs (job_App j)) jobs) \<and> list_all wf_job js \<and>
    sorted (map job_App js) \<and>
    (\<forall>j\<in>set js. job_Backup j \<noteq> [] \<longrightarrow> filter (\<lambda>k. job_App k = job_App j) js = [j])"
proof (intro conjI ballI impI)
  note c = discovery_contract[OF s wf[THEN bspec] js]
  show "mset js = mset (filter (\<lambda>j. \<not> app_collides jobs (job_App j)) jobs)"
    unfolding js by (simp add: slice_sorter.srt_mset[OF s] DropNamedCollisions_kept)
  show "list_all wf_job js" using c(1) by (simp add: list_all_iff)
  show "sorted (map job_App js)" by (rule c(2))
  show "filter (\<lambda>k. job_App k = job_App j) js = [j]" if "j \<in> set js" "job_Backup j \<noteq> []" for j
    using that c(3) by simp
qed


text \<open>
  The Swarm discoverer keeps the same contract on the cluster's services, whether or not the node
  list could be read.
\<close>

theorem swarm_discovery_contract:
  assumes "slice_sorter srt job_App" and "swarm_List srt decode tasks d nodes (Inr svcs) = Inr js"
  shows "let jobs = concat (map (swarm_jobs_of decode tasks d (listNodes nodes)) svcs) in
    mset js = mset (filter (\<lambda>j. \<not> app_collides jobs (job_App j)) jobs) \<and> list_all wf_job js \<and>
    sorted (map job_App js) \<and>
    (\<forall>j\<in>set js. job_Backup j \<noteq> [] \<longrightarrow> filter (\<lambda>k. job_App k = job_App j) js = [j])"
proof -
  have "\<forall>j\<in>set (concat (map (swarm_jobs_of decode tasks d (listNodes nodes)) svcs)). wf_job j"
    using swarm_jobs_of_wf by auto
  moreover have "js = srt (fst (DropNamedCollisions (concat (map (swarm_jobs_of decode tasks d (listNodes nodes)) svcs))))"
    using assms(2) by (simp add: swarm_List_def)
  ultimately show ?thesis unfolding Let_def by (rule List_contract[OF assms(1)])
qed

text \<open>Two containers with a plain and a named backup, for the witnesses.\<close>

definition demo_conf :: disc_config where
  "demo_conf = \<lparr>disc_prefix = ''sabon'', disc_watchByDefault = False, disc_cacheVolume = ''sabon-cache'', disc_instance = []\<rparr>"

definition demo_decode :: "string \<Rightarrow> spec res" where
  "demo_decode doc = (if doc = ''bad'' then Inl (External ''yaml'') else Inr (empty_spec\<lparr>spec_ExtraVolumes := [doc]\<rparr>))"

definition demo_containers :: "container_summary list" where
  "demo_containers =
     [\<lparr>cs_ID = ''1'', cs_Names = [''/web''], cs_Labels = [(''sabon.enable'', ''true''), (''sabon.backup'', ''www'')], cs_State = ''running'', cs_Created = 1\<rparr>,
      \<lparr>cs_ID = ''2'', cs_Names = [''/db''], cs_Labels = [(''sabon.enable'', ''true''), (''sabon.backup.a'', ''x''), (''sabon.backup.b'', ''y'')], cs_State = ''running'', cs_Created = 2\<rparr>]"

definition demo_services :: "service list" where
  "demo_services =
     [\<lparr>svc_ID = ''1'', svc_Version = 1, svc_CreatedAt = 1, svc_Name = ''web'', svc_Labels = [(''sabon.enable'', ''true''), (''sabon.backup'', ''www'')],
       svc_Mounts = None, svc_Env = [], svc_Constraints = None, svc_Replicated = Some (Some 1)\<rparr>]"


theorem swarm_discovery_contract_witness:
  "\<exists>js. swarm_List (sort_key job_App) demo_decode (\<lambda>c. Inr []) demo_conf (Inl (External ''down'')) (Inr demo_services) = Inr js \<and>
     map job_App js = [''web''] \<and> list_all wf_job js"
proof -
  let ?js = "sort_key job_App (fst (DropNamedCollisions (concat (map (swarm_jobs_of demo_decode (\<lambda>c. Inr []) demo_conf (listNodes (Inl (External ''down'')))) demo_services))))"
  have r: "swarm_List (sort_key job_App) demo_decode (\<lambda>c. Inr []) demo_conf (Inl (External ''down'')) (Inr demo_services) = Inr ?js"
    unfolding swarm_List_def sum.case by (rule refl)
  have s: "slice_sorter (sort_key job_App) job_App" by unfold_locales
  have a: "map job_App ?js = [''web'']" by code_simp
  have w: "list_all wf_job ?js"
    using swarm_discovery_contract[OF s r] unfolding Let_def by blast
  show ?thesis by (intro exI conjI) (rule r a w)+
qed

end
