(* ===== verification/Docker_Client.thy ===== *)
theory Docker_Client
  imports Runtime_Discovery
begin

text \<open>
  What the components see of the Docker daemon. The client library is outside the repository, so it
  is a record of functions over an arbitrary world \<open>'w\<close>: a call takes the context and its arguments
  and returns its result and the next world. A context is kept as the expression that built it,
  which is what decides whether a cancel of the caller reaches a call. \<open>traced\<close> wraps a client so
  that every call is also written to a list: the theorems about which calls an operation makes
  run it on the wrapped client, for every client underneath.
\<close>

section \<open>Contexts\<close>

text \<open>
  \<open>Caller\<close> is the context an operation was called with; \<open>WithTimeout c d\<close> has a deadline \<open>d\<close>
  nanoseconds ahead and is done when \<open>c\<close> is; \<open>WithoutCancel c\<close> is never done.
\<close>

datatype ctx = Background | Caller | WithTimeout ctx duration | WithoutCancel ctx

fun follows_caller :: "ctx \<Rightarrow> bool" where
  "follows_caller Background = False"
| "follows_caller Caller = True"
| "follows_caller (WithTimeout c d) = follows_caller c"
| "follows_caller (WithoutCancel c) = False"

section \<open>The container API\<close>

record container_config =
  cfg_Image :: string
  cfg_User :: string
  cfg_Entrypoint :: "string list"
  cfg_Cmd :: "string list"
  cfg_Env :: "string list"
  cfg_Labels :: "(string, string) gomap"
  cfg_Healthcheck :: "string list"

record host_config =
  host_Mounts :: "mount list"
  host_Binds :: "string list"
  host_GroupAdd :: "string list"
  host_NetworkMode :: string
  host_Privileged :: bool
  host_PidMode :: string

definition empty_config :: container_config where
  "empty_config = \<lparr>cfg_Image = [], cfg_User = [], cfg_Entrypoint = [], cfg_Cmd = [], cfg_Env = [],
     cfg_Labels = [], cfg_Healthcheck = []\<rparr>"

definition empty_host :: host_config where
  "empty_host = \<lparr>host_Mounts = [], host_Binds = [], host_GroupAdd = [], host_NetworkMode = [],
     host_Privileged = False, host_PidMode = []\<rparr>"

text \<open>
  The outcome of the \<^verbatim>\<open>select\<close> over the two channels of \<^verbatim>\<open>ContainerWait\<close> and the
  context: the context's cause, the wait error, or an exit status with its optional message.
\<close>

datatype wait_event = CtxDone error | WaitErr error | WaitStatus int "string option"

text \<open>A multiplexed log stream: frames of stdout (\<open>True\<close>) and stderr, and how reading it ended.\<close>

record log_stream =
  log_frames :: "(bool \<times> string) list"
  log_err :: "error option"

definition frames_of :: "bool \<Rightarrow> log_stream \<Rightarrow> string" where
  "frames_of out s = concat (map snd (filter (\<lambda>f. fst f = out) (log_frames s)))"

definition all_frames :: "log_stream \<Rightarrow> string" where
  "all_frames s = concat (map snd (log_frames s))"

record container_json =
  cj_ID :: string
  cj_Image :: string
  cj_Config :: "container_config option"
  cj_Running :: "bool option"
  cj_ExitCode :: int
  cj_StartedAt :: string
  cj_FinishedAt :: string
  cj_Mounts :: "mount_point list"

record volume =
  vol_Driver :: string
  vol_Mountpoint :: string
  vol_Options :: "(string, string) gomap"

record 'w docker_client =
  ContainerCreate :: "ctx \<Rightarrow> container_config \<Rightarrow> host_config \<Rightarrow> string \<Rightarrow> 'w \<Rightarrow> string res \<times> 'w"
  ContainerStart :: "ctx \<Rightarrow> string \<Rightarrow> 'w \<Rightarrow> error option \<times> 'w"
  ContainerStop :: "ctx \<Rightarrow> string \<Rightarrow> 'w \<Rightarrow> error option \<times> 'w"
  ContainerWait :: "ctx \<Rightarrow> string \<Rightarrow> 'w \<Rightarrow> wait_event \<times> 'w"
  ContainerLogs :: "ctx \<Rightarrow> string \<Rightarrow> 'w \<Rightarrow> log_stream res \<times> 'w"
  ContainerRemove :: "ctx \<Rightarrow> string \<Rightarrow> 'w \<Rightarrow> error option \<times> 'w"
  ContainerList :: "ctx \<Rightarrow> bool \<Rightarrow> (string \<times> string) list \<Rightarrow> 'w \<Rightarrow> container_summary list res \<times> 'w"
  ContainerInspect :: "ctx \<Rightarrow> string \<Rightarrow> 'w \<Rightarrow> container_json res \<times> 'w"
  ContainerExecCreate :: "ctx \<Rightarrow> string \<Rightarrow> string list \<Rightarrow> string list \<Rightarrow> string \<Rightarrow> 'w \<Rightarrow> string res \<times> 'w"
  ContainerExecAttach :: "ctx \<Rightarrow> string \<Rightarrow> 'w \<Rightarrow> log_stream res \<times> 'w"
  ContainerExecInspect :: "ctx \<Rightarrow> string \<Rightarrow> 'w \<Rightarrow> int res \<times> 'w"
  ImageInspect :: "ctx \<Rightarrow> string \<Rightarrow> 'w \<Rightarrow> error option \<times> 'w"
  ImagePull :: "ctx \<Rightarrow> string \<Rightarrow> 'w \<Rightarrow> error option \<times> 'w"
  VolumeCreate :: "ctx \<Rightarrow> string \<Rightarrow> 'w \<Rightarrow> error option \<times> 'w"
  VolumeInspect :: "ctx \<Rightarrow> string \<Rightarrow> 'w \<Rightarrow> volume res \<times> 'w"
  ContextErr :: "ctx \<Rightarrow> 'w \<Rightarrow> error option \<times> 'w"

section \<open>Tracing a client\<close>

datatype call =
    CCreate ctx container_config host_config string
  | CStart ctx string
  | CStop ctx string
  | CWait ctx string
  | CLogs ctx string
  | CRemove ctx string
  | CList ctx
  | CInspect ctx string
  | CExec ctx string "string list" "string list" string
  | CExecAttach ctx string
  | CExecInspect ctx string
  | CImage ctx string
  | CPull ctx string
  | CVolCreate ctx string
  | CVolInspect ctx string

type_synonym 'w traced = "'w \<times> call list"

definition note_call :: "call \<Rightarrow> ('w \<Rightarrow> 'a \<times> 'w) \<Rightarrow> 'w traced \<Rightarrow> 'a \<times> 'w traced" where
  "note_call k f wt = (case f (fst wt) of (r, w') \<Rightarrow> (r, (w', snd wt @ [k])))"

definition traced :: "'w docker_client \<Rightarrow> 'w traced docker_client" where
  "traced c = \<lparr>
     ContainerCreate = (\<lambda>x g h n. note_call (CCreate x g h n) (ContainerCreate c x g h n)),
     ContainerStart = (\<lambda>x i. note_call (CStart x i) (ContainerStart c x i)),
     ContainerStop = (\<lambda>x i. note_call (CStop x i) (ContainerStop c x i)),
     ContainerWait = (\<lambda>x i. note_call (CWait x i) (ContainerWait c x i)),
     ContainerLogs = (\<lambda>x i. note_call (CLogs x i) (ContainerLogs c x i)),
     ContainerRemove = (\<lambda>x i. note_call (CRemove x i) (ContainerRemove c x i)),
     ContainerList = (\<lambda>x a f. note_call (CList x) (ContainerList c x a f)),
     ContainerInspect = (\<lambda>x i. note_call (CInspect x i) (ContainerInspect c x i)),
     ContainerExecCreate = (\<lambda>x i cmd env u. note_call (CExec x i cmd env u) (ContainerExecCreate c x i cmd env u)),
     ContainerExecAttach = (\<lambda>x i. note_call (CExecAttach x i) (ContainerExecAttach c x i)),
     ContainerExecInspect = (\<lambda>x i. note_call (CExecInspect x i) (ContainerExecInspect c x i)),
     ImageInspect = (\<lambda>x i. note_call (CImage x i) (ImageInspect c x i)),
     ImagePull = (\<lambda>x i. note_call (CPull x i) (ImagePull c x i)),
     VolumeCreate = (\<lambda>x i. note_call (CVolCreate x i) (VolumeCreate c x i)),
     VolumeInspect = (\<lambda>x i. note_call (CVolInspect x i) (VolumeInspect c x i)),
     ContextErr = (\<lambda>x wt. case ContextErr c x (fst wt) of (r, w') \<Rightarrow> (r, (w', snd wt)))\<rparr>"

lemma note_call_eq: "note_call k f (w, t) = (fst (f w), (snd (f w), t @ [k]))"
  by (simp add: note_call_def split: prod.splits)

text \<open>An operation that only appends to the trace, and only calls of a class.\<close>

definition only_calls :: "(call \<Rightarrow> bool) \<Rightarrow> ('w traced \<Rightarrow> 'a \<times> 'w traced) \<Rightarrow> bool" where
  "only_calls P f \<longleftrightarrow> (\<forall>w t. \<exists>ks. snd (snd (f (w, t))) = t @ ks \<and> list_all P ks)"

lemma only_callsE:
  assumes "only_calls P f"
  obtains r w' ks where "f (w, t) = (r, (w', t @ ks))" "list_all P ks"
  using assms unfolding only_calls_def by (metis prod.collapse)

section \<open>Images\<close>

text \<open>
  \<^verbatim>\<open>ensureImage\<close> of the mover runner, the hook runner and the zfs runner: they differ in the
  text of the wrapped error only.
\<close>

definition ensureImage :: "string \<Rightarrow> 'w docker_client \<Rightarrow> ctx \<Rightarrow> string \<Rightarrow> 'w \<Rightarrow> error option \<times> 'w" where
  "ensureImage fmt cli x ref w =
     (case ImageInspect cli x ref w of
        (None, w) \<Rightarrow> (None, w)
      | (Some _, w) \<Rightarrow>
          (case ImagePull cli x ref w of
             (Some e, w) \<Rightarrow> (Some (Wrapf fmt [ref] e), w)
           | (None, w) \<Rightarrow> (None, w)))"

lemma traced_simps [simp]:
  "ContainerCreate (traced c) x g h n (w, t) =
     (fst (ContainerCreate c x g h n w), (snd (ContainerCreate c x g h n w), t @ [CCreate x g h n]))"
  "ContainerStart (traced c) x i (w, t) =
     (fst (ContainerStart c x i w), (snd (ContainerStart c x i w), t @ [CStart x i]))"
  "ContainerStop (traced c) x i (w, t) =
     (fst (ContainerStop c x i w), (snd (ContainerStop c x i w), t @ [CStop x i]))"
  "ContainerWait (traced c) x i (w, t) =
     (fst (ContainerWait c x i w), (snd (ContainerWait c x i w), t @ [CWait x i]))"
  "ContainerLogs (traced c) x i (w, t) =
     (fst (ContainerLogs c x i w), (snd (ContainerLogs c x i w), t @ [CLogs x i]))"
  "ContainerRemove (traced c) x i (w, t) =
     (fst (ContainerRemove c x i w), (snd (ContainerRemove c x i w), t @ [CRemove x i]))"
  "ContainerList (traced c) x a f (w, t) =
     (fst (ContainerList c x a f w), (snd (ContainerList c x a f w), t @ [CList x]))"
  "ContainerInspect (traced c) x i (w, t) =
     (fst (ContainerInspect c x i w), (snd (ContainerInspect c x i w), t @ [CInspect x i]))"
  "ImageInspect (traced c) x i (w, t) =
     (fst (ImageInspect c x i w), (snd (ImageInspect c x i w), t @ [CImage x i]))"
  "ImagePull (traced c) x i (w, t) =
     (fst (ImagePull c x i w), (snd (ImagePull c x i w), t @ [CPull x i]))"
  "ContextErr (traced c) x (w, t) =
     (fst (ContextErr c x w), (snd (ContextErr c x w), t))"
  by (simp_all add: traced_def note_call_eq split: prod.splits)

definition is_image_call :: "call \<Rightarrow> bool" where
  "is_image_call k \<longleftrightarrow> (\<exists>x i. k = CImage x i \<or> k = CPull x i)"

lemma ensureImage_calls: "only_calls is_image_call (ensureImage fmt (traced c) x ref)"
  unfolding only_calls_def
  by (auto simp: ensureImage_def is_image_call_def split: prod.splits option.splits)

end
