(* ===== verification/Mover.thy ===== *)
theory Mover
  imports Api "HOL-Library.Word"
begin

text \<open>
  The mover side of a run (\<^verbatim>\<open>internal/mover/mover.go\<close>): the program inside the mover container
  that reads its spec from the environment and drives restic. The restic binary is the argument
  \<open>restic\<close>, a function from its arguments and a world \<open>'w\<close> to its combined output, its exit error and the
  next world; the JSON codec and the text of an error are arguments too. A mover that never returns
  (its output pipe is no longer read) is the value \<open>None\<close>. Float fields are carried as their 64-bit
  patterns: nothing computes on them.
\<close>

section \<open>The contract with the orchestrator\<close>

record mover_spec =
  ms_App :: string
  ms_Host :: string
  ms_Sources :: "string list"
  ms_Excludes :: "string list"
  ms_Tags :: "string list"
  ms_Retention :: retention
  ms_Action :: string
  ms_SnapshotID :: string
  ms_RestoreTarget :: string
  ms_Include :: "string list"
  ms_ExtraArgs :: "string list"

definition empty_mover_spec :: mover_spec where
  "empty_mover_spec = \<lparr>ms_App = [], ms_Host = [], ms_Sources = [], ms_Excludes = [], ms_Tags = [],
     ms_Retention = no_retention, ms_Action = [], ms_SnapshotID = [], ms_RestoreTarget = [],
     ms_Include = [], ms_ExtraArgs = []\<rparr>"

record mover_result =
  mr_SnapshotID :: string
  mr_FilesNew :: int
  mr_FilesChanged :: int
  mr_DataAddedBytes :: "64 word"
  mr_TotalBytes :: "64 word"
  mr_BackupSeconds :: "64 word"

definition no_result :: mover_result where
  "no_result = \<lparr>mr_SnapshotID = [], mr_FilesNew = 0, mr_FilesChanged = 0, mr_DataAddedBytes = 0,
     mr_TotalBytes = 0, mr_BackupSeconds = 0\<rparr>"

record restic_summary =
  rsum_MessageType :: string
  rsum_FilesNew :: int
  rsum_FilesChanged :: int
  rsum_DataAdded :: "64 word"
  rsum_TotalBytesProcessed :: "64 word"
  rsum_TotalDuration :: "64 word"
  rsum_SnapshotID :: string

definition no_summary :: restic_summary where
  "no_summary = \<lparr>rsum_MessageType = [], rsum_FilesNew = 0, rsum_FilesChanged = 0, rsum_DataAdded = 0,
     rsum_TotalBytesProcessed = 0, rsum_TotalDuration = 0, rsum_SnapshotID = []\<rparr>"

definition SpecEnv :: string where
  "SpecEnv = ''SABON_MOVER_SPEC''"

definition resultMarker :: string where
  "resultMarker = ''SABON_RESULT ''"

definition ActionBackup :: string where "ActionBackup = ''backup''"
definition ActionRestore :: string where "ActionRestore = ''restore''"
definition ActionSnapshots :: string where "ActionSnapshots = ''snapshots''"
definition ActionCheck :: string where "ActionCheck = ''check''"
definition ActionPrune :: string where "ActionPrune = ''prune''"

lemmas action_defs = ActionBackup_def ActionRestore_def ActionSnapshots_def ActionCheck_def ActionPrune_def

section \<open>Running restic\<close>

type_synonym 'w restic = "string list \<Rightarrow> 'w \<Rightarrow> (string \<times> error option) \<times> 'w"

record 'w mover_io =
  mio_world :: 'w
  mio_stdout :: string
  mio_stderr :: string

datatype sink = Stdout | Stderr | Discard

definition emit :: "sink \<Rightarrow> string \<Rightarrow> 'w mover_io \<Rightarrow> 'w mover_io" where
  "emit d s io =
     (case d of
        Stdout \<Rightarrow> io\<lparr>mio_stdout := mio_stdout io @ s\<rparr>
      | Stderr \<Rightarrow> io\<lparr>mio_stderr := mio_stderr io @ s\<rparr>
      | Discard \<Rightarrow> io)"

definition println :: "sink \<Rightarrow> string \<Rightarrow> 'w mover_io \<Rightarrow> 'w mover_io" where
  "println d s io = emit d (s @ [CHR 0x0A]) io"

text \<open>What the mover's environment provides: restic, the JSON codec, the text of errors.\<close>

record 'w mover_env =
  me_restic :: "'w restic"
  me_decode_spec :: "string \<Rightarrow> mover_spec res"
  me_decode_summary :: "string \<Rightarrow> restic_summary res"
  me_encode_result :: "mover_result \<Rightarrow> string res"
  me_error_text :: "error \<Rightarrow> string"

definition execRestic :: "'w mover_env \<Rightarrow> sink \<Rightarrow> string list \<Rightarrow> 'w mover_io \<Rightarrow> error option \<times> 'w mover_io" where
  "execRestic e d args io =
     (case me_restic e args (mio_world io) of
        ((out, err), w') \<Rightarrow> (err, emit d out (io\<lparr>mio_world := w'\<rparr>)))"

definition runCmd ::
  "'w mover_env \<Rightarrow> string list \<Rightarrow> sink \<Rightarrow> string list \<Rightarrow> 'w mover_io \<Rightarrow> error option \<times> 'w mover_io" where
  "runCmd e globalArgs d args io = execRestic e d (globalArgs @ args) io"

definition unlockStale :: "'w mover_env \<Rightarrow> string list \<Rightarrow> sink \<Rightarrow> 'w mover_io \<Rightarrow> 'w mover_io" where
  "unlockStale e g d io =
     (case runCmd e g Discard [''unlock'', ''--remove-all''] io of
        (None, io) \<Rightarrow> io
      | (Some err, io) \<Rightarrow> println d (''sabon: restic unlock: '' @ me_error_text e err) io)"

section \<open>Backup\<close>

text \<open>
  The scanner over restic's output. A line of \<open>limit\<close> bytes or more is too long: the scanner stops,
  and what is left in the pipe is never read, which blocks restic and the mover (\<open>True\<close> in the second
  component). An unterminated last line of exactly \<open>limit\<close> bytes has been read off the pipe in full.
\<close>

definition scan_limit :: nat where
  "scan_limit = 4 * 1024 * 1024"

definition drop_CR :: "string \<Rightarrow> string" where
  "drop_CR l = (if l \<noteq> [] \<and> last l = CHR 0x0D then butlast l else l)"

fun scan_lines :: "nat \<Rightarrow> string list \<Rightarrow> string list \<times> bool" where
  "scan_lines limit [] = ([], False)"
| "scan_lines limit [l] =
     (if l = [] then ([], False)
      else if length l < limit then ([drop_CR l], False)
      else ([], length l > limit))"
| "scan_lines limit (l # m # ls) =
     (if length l < limit then (case scan_lines limit (m # ls) of (ts, stuck) \<Rightarrow> (drop_CR l # ts, stuck))
      else ([], True))"

fun last_summary :: "(string \<Rightarrow> restic_summary res) \<Rightarrow> string list \<Rightarrow> restic_summary \<Rightarrow> restic_summary" where
  "last_summary dec [] s = s"
| "last_summary dec (l # ls) s =
     (case dec l of
        Inr msg \<Rightarrow> last_summary dec ls (if rsum_MessageType msg = ''summary'' then msg else s)
      | Inl _ \<Rightarrow> last_summary dec ls s)"

definition forward_lines :: "string list \<Rightarrow> string" where
  "forward_lines ls = concat (map (\<lambda>l. TrimRight l [CHR 0x0A] @ [CHR 0x0A]) ls)"

definition backup_args :: "mover_spec \<Rightarrow> string \<Rightarrow> string list" where
  "backup_args spec host =
     [''backup'', ''--json'', ''--host'', host, ''--tag'', ms_App spec]
     @ concat (map (\<lambda>t. [''--tag'', t]) (ms_Tags spec))
     @ concat (map (\<lambda>x. [''--exclude'', x]) (ms_Excludes spec))
     @ ms_Sources spec"

definition result_of :: "restic_summary \<Rightarrow> mover_result" where
  "result_of s = \<lparr>mr_SnapshotID = rsum_SnapshotID s, mr_FilesNew = rsum_FilesNew s,
     mr_FilesChanged = rsum_FilesChanged s, mr_DataAddedBytes = rsum_DataAdded s,
     mr_TotalBytes = rsum_TotalBytesProcessed s, mr_BackupSeconds = rsum_TotalDuration s\<rparr>"

definition backup ::
  "'w mover_env \<Rightarrow> string list \<Rightarrow> mover_spec \<Rightarrow> string \<Rightarrow> 'w mover_io
   \<Rightarrow> ((mover_result \<times> error option) \<times> 'w mover_io) option" where
  "backup e g spec host io =
     (case me_restic e (g @ backup_args spec host) (mio_world io) of
        ((out, err), w') \<Rightarrow>
          (case scan_lines scan_limit (Split out (CHR 0x0A)) of
             (ls, stuck) \<Rightarrow>
               if stuck then None
               else Some ((result_of (last_summary (me_decode_summary e) ls no_summary), err),
                          emit Stdout (forward_lines ls) (io\<lparr>mio_world := w'\<rparr>))))"

text \<open>The probe and the initialisation of the repository; \<open>Some\<close> is the error that ends the run.\<close>

definition ensure_repo :: "'w mover_env \<Rightarrow> string list \<Rightarrow> 'w mover_io \<Rightarrow> error option \<times> 'w mover_io" where
  "ensure_repo e g io =
     (case runCmd e g Discard [''cat'', ''config''] io of
        (None, io) \<Rightarrow> (None, io)
      | (Some _, io) \<Rightarrow>
          (case runCmd e g Stderr [''init''] (println Stderr ''sabon: initialising restic repository'' io) of
             (None, io) \<Rightarrow> (None, io)
           | (Some err, io) \<Rightarrow> (Some (Wrapf ''restic init: %w'' [] err), io)))"

definition forget_args :: "mover_spec \<Rightarrow> string \<Rightarrow> string list" where
  "forget_args spec host =
     [''forget'', ''--host'', host, ''--tag'', ms_App spec] @ ForgetArgs (ms_Retention spec)"

definition apply_retention ::
  "'w mover_env \<Rightarrow> string list \<Rightarrow> mover_spec \<Rightarrow> string \<Rightarrow> 'w mover_io \<Rightarrow> error option \<times> 'w mover_io" where
  "apply_retention e g spec host io =
     (if ForgetArgs (ms_Retention spec) \<noteq> [] then
        (case runCmd e g Stdout (forget_args spec host) io of
           (None, io) \<Rightarrow> (None, io)
         | (Some err, io) \<Rightarrow> (Some (Wrapf ''restic forget: %w'' [] err), io))
      else (None, io))"

definition runBackup ::
  "'w mover_env \<Rightarrow> string list \<Rightarrow> mover_spec \<Rightarrow> string \<Rightarrow> 'w mover_io \<Rightarrow> (error option \<times> 'w mover_io) option" where
  "runBackup e g spec host io =
     (if ms_Sources spec = [] then Some (Some (Errorf ''mover spec has no sources'' []), io)
      else case ensure_repo e g io of
        (Some err, io) \<Rightarrow> Some (Some err, io)
      | (None, io) \<Rightarrow>
          (case backup e g spec host (unlockStale e g Stderr io) of
             None \<Rightarrow> None
           | Some ((res, Some err), io) \<Rightarrow> Some (Some (Wrapf ''restic backup: %w'' [] err), io)
           | Some ((res, None), io) \<Rightarrow>
               Some (apply_retention e g spec host
                 (case me_encode_result e res of
                    Inr out \<Rightarrow> println Stdout (resultMarker @ out) io
                  | Inl _ \<Rightarrow> io))))"

section \<open>Restore and the other actions\<close>

definition restore_args :: "mover_spec \<Rightarrow> string list" where
  "restore_args spec =
     [''restore'', if ms_SnapshotID spec = [] then ''latest'' else ms_SnapshotID spec,
      ''--target'', ms_RestoreTarget spec] @ concat (map (\<lambda>i. [''--include'', i]) (ms_Include spec))"

definition runRestore :: "'w mover_env \<Rightarrow> string list \<Rightarrow> mover_spec \<Rightarrow> 'w mover_io \<Rightarrow> error option \<times> 'w mover_io" where
  "runRestore e g spec io =
     (if ms_RestoreTarget spec = [] then (Some (Errorf ''restore: empty restore target'' []), io)
      else case runCmd e g Stdout (restore_args spec) (unlockStale e g Stdout io) of
        (None, io) \<Rightarrow> (None, io)
      | (Some err, io) \<Rightarrow> (Some (Wrapf ''restic restore: %w'' [] err), io))"

definition execute_spec :: "'w mover_env \<Rightarrow> mover_spec \<Rightarrow> 'w mover_io \<Rightarrow> (error option \<times> 'w mover_io) option" where
  "execute_spec e spec io =
     (let host = (if ms_Host spec = [] then ms_App spec else ms_Host spec);
          g = ms_ExtraArgs spec;
          a = ms_Action spec
      in if a = [] \<or> a = ActionBackup then runBackup e g spec host io
         else if a = ActionSnapshots then Some (runCmd e g Stdout [''snapshots''] (unlockStale e g Stderr io))
         else if a = ActionCheck then Some (runCmd e g Stdout [''check''] (unlockStale e g Stderr io))
         else if a = ActionPrune then Some (runCmd e g Stdout [''prune''] (unlockStale e g Stderr io))
         else if a = ActionRestore then Some (runRestore e g spec io)
         else Some (Some (Errorf ''unknown mover action %q'' [a]), io))"

definition Execute :: "'w mover_env \<Rightarrow> (string \<Rightarrow> string) \<Rightarrow> 'w mover_io \<Rightarrow> (error option \<times> 'w mover_io) option" where
  "Execute e getenv io =
     (let raw = getenv SpecEnv
      in if raw = [] then Some (Some (Errorf ''%s is empty'' [SpecEnv]), io)
         else case me_decode_spec e raw of
                Inl err \<Rightarrow> Some (Some (Wrapf ''decode %s: %w'' [SpecEnv] err), io)
              | Inr spec \<Rightarrow> execute_spec e spec io)"

section \<open>Reading a result back\<close>

fun parse_lines :: "(string \<Rightarrow> mover_result res) \<Rightarrow> string list \<Rightarrow> mover_result option" where
  "parse_lines dec [] = None"
| "parse_lines dec (l # ls) =
     (case Index l resultMarker of
        None \<Rightarrow> parse_lines dec ls
      | Some i \<Rightarrow>
          (case dec (drop (i + length resultMarker) l) of
             Inr r \<Rightarrow> Some r
           | Inl _ \<Rightarrow> parse_lines dec ls))"

definition ParseResult :: "(string \<Rightarrow> mover_result res) \<Rightarrow> string \<Rightarrow> mover_result \<times> bool" where
  "ParseResult dec logs =
     (case parse_lines dec (Split logs (CHR 0x0A)) of Some r \<Rightarrow> (r, True) | None \<Rightarrow> (no_result, False))"

section \<open>The calls a run makes\<close>

text \<open>restic wrapped so that every invocation is also written to a list.\<close>

definition traced_env :: "'w mover_env \<Rightarrow> ('w \<times> string list list) mover_env" where
  "traced_env e = \<lparr>me_restic = (\<lambda>args wt. case me_restic e args (fst wt) of (r, w') \<Rightarrow> (r, (w', snd wt @ [args]))),
     me_decode_spec = me_decode_spec e, me_decode_summary = me_decode_summary e,
     me_encode_result = me_encode_result e, me_error_text = me_error_text e\<rparr>"

definition calls :: "('w \<times> string list list) mover_io \<Rightarrow> string list list" where
  "calls io = snd (mio_world io)"

lemma emit_world [simp]: "mio_world (emit d s io) = mio_world io" "mio_world (println d s io) = mio_world io"
  by (cases d; simp add: emit_def println_def)+

lemma calls_emit [simp]: "calls (emit d s io) = calls io" "calls (println d s io) = calls io"
  by (simp_all add: calls_def)

lemma runCmd_calls:
  assumes "runCmd (traced_env e) g d args io = (r, io')"
  shows "calls io' = calls io @ [g @ args]"
  using assms
  by (auto simp: runCmd_def execRestic_def traced_env_def calls_def split: prod.splits)

lemma unlock_calls: "calls (unlockStale (traced_env e) g d io) = calls io @ [g @ [''unlock'', ''--remove-all'']]"
proof -
  obtain r io' where "runCmd (traced_env e) g Discard [''unlock'', ''--remove-all''] io = (r, io')" by (meson surj_pair)
  with runCmd_calls[OF this] show ?thesis by (auto simp: unlockStale_def split: option.splits)
qed

lemma ensure_repo_calls:
  assumes "ensure_repo (traced_env e) g io = (r, io')"
  shows "\<exists>new. calls io' = calls io @ map ((@) g) new \<and>
    (if r = None then new = [[''cat'', ''config'']] \<or> new = [[''cat'', ''config''], [''init'']]
     else new = [[''cat'', ''config''], [''init'']])"
proof -
  obtain p io1 where p: "runCmd (traced_env e) g Discard [''cat'', ''config''] io = (p, io1)" by (meson surj_pair)
  obtain q io2 where q: "runCmd (traced_env e) g Stderr [''init'']
      (println Stderr ''sabon: initialising restic repository'' io1) = (q, io2)" by (meson surj_pair)
  note c = runCmd_calls[OF p] runCmd_calls[OF q]
  show ?thesis
  proof (cases p)
    case None
    with assms p have "r = None" "io' = io1" by (auto simp: ensure_repo_def)
    with c show ?thesis by (intro exI[of _ "[[''cat'', ''config'']]"]) simp
  next
    case (Some x)
    with assms p q c have "calls io' = calls io @ map ((@) g) [[''cat'', ''config''], [''init'']]"
      by (auto simp: ensure_repo_def split: option.splits)
    then show ?thesis by (intro exI[of _ "[[''cat'', ''config''], [''init'']]"]) simp
  qed
qed

lemma backup_calls:
  "backup (traced_env e) g spec host io = Some ((res, err), io') \<Longrightarrow>
   calls io' = calls io @ [g @ backup_args spec host]"
  by (auto simp: backup_def traced_env_def calls_def split: prod.splits if_splits)

lemma apply_retention_calls:
  assumes "apply_retention (traced_env e) g spec host io = (r, io')"
  shows "calls io' = calls io @ (if ForgetArgs (ms_Retention spec) = [] then [] else [g @ forget_args spec host])"
proof -
  obtain q io2 where q: "runCmd (traced_env e) g Stdout (forget_args spec host) io = (q, io2)" by (meson surj_pair)
  show ?thesis using assms q runCmd_calls[OF q] by (auto simp: apply_retention_def split: option.splits if_splits)
qed

definition repo_setup :: "string list list \<Rightarrow> bool" where
  "repo_setup new \<longleftrightarrow> new = [[''cat'', ''config'']] \<or> new = [[''cat'', ''config''], [''init'']]"

lemma runBackup_calls:
  assumes r: "runBackup (traced_env e) g spec host io = Some (err, io')" and src: "ms_Sources spec \<noteq> []"
  obtains (setup_failed) "err \<noteq> None" "calls io' = calls io @ map ((@) g) [[''cat'', ''config''], [''init'']]"
  | (backup_failed) pre where "repo_setup pre" "err \<noteq> None"
      "calls io' = calls io @ map ((@) g) (pre @ [[''unlock'', ''--remove-all''], backup_args spec host])"
  | (backed_up) pre where "repo_setup pre"
      "calls io' = calls io @ map ((@) g) (pre @ [[''unlock'', ''--remove-all''], backup_args spec host]
         @ (if ForgetArgs (ms_Retention spec) = [] then [] else [forget_args spec host]))"
      "ForgetArgs (ms_Retention spec) = [] \<longrightarrow> err = None"
proof -
  obtain s io1 where s: "ensure_repo (traced_env e) g io = (s, io1)" by (meson surj_pair)
  note es = ensure_repo_calls[OF s]
  show thesis
  proof (cases s)
    case (Some x)
    with r s src have "err \<noteq> None" "io' = io1" by (auto simp: runBackup_def)
    with es Some setup_failed show thesis by auto
  next
    case None
    with es obtain pre where st: "repo_setup pre" and c1: "calls io1 = calls io @ map ((@) g) pre"
      by (auto simp: repo_setup_def)
    from r s src None obtain res be io2 where
      b: "backup (traced_env e) g spec host (unlockStale (traced_env e) g Stderr io1) = Some ((res, be), io2)"
      by (auto simp: runBackup_def split: option.splits prod.splits)
    note c2 = backup_calls[OF b]
    show thesis
    proof (cases be)
      case (Some x)
      with r s src None b have "err \<noteq> None" "io' = io2" by (auto simp: runBackup_def)
      with st c1 c2 backup_failed show thesis by (simp add: unlock_calls)
    next
      case be: None
      define io3 where "io3 = (case me_encode_result (traced_env e) res of
          Inr out \<Rightarrow> println Stdout (resultMarker @ out) io2 | Inl _ \<Rightarrow> io2)"
      have c3: "calls io3 = calls io2" by (simp add: io3_def split: sum.splits)
      from r s src None b be have a: "apply_retention (traced_env e) g spec host io3 = (err, io')"
        by (simp add: runBackup_def io3_def)
      have "ForgetArgs (ms_Retention spec) = [] \<longrightarrow> err = None" using a by (auto simp: apply_retention_def)
      with st c1 c2 c3 apply_retention_calls[OF a] backed_up show thesis by (simp add: unlock_calls)
    qed
  qed
qed

section \<open>The result line\<close>

lemma parse_lines_skip:
  "(\<And>l. l \<in> set ls \<Longrightarrow> \<not> Contains l resultMarker) \<Longrightarrow> parse_lines dec (ls @ ms) = parse_lines dec ms"
  by (induction ls) (auto simp: Contains_def split: option.splits)

lemma parse_lines_marker:
  "dec out = Inr r \<Longrightarrow> parse_lines dec ((resultMarker @ out) # ms) = Some r"
  by (simp add: resultMarker_def)

lemma Split_concat_lines:
  "(\<And>l. l \<in> set ls \<Longrightarrow> CHR 0x0A \<notin> set l) \<Longrightarrow>
   Split (concat (map (\<lambda>l. l @ [CHR 0x0A]) ls) @ s) (CHR 0x0A) = ls @ Split s (CHR 0x0A)"
  by (induction ls) (simp_all add: Split_append_sep)

lemma scan_lines_set:
  "scan_lines n ls = (ts, stuck) \<Longrightarrow> t \<in> set ts \<Longrightarrow> \<exists>l\<in>set ls. t = drop_CR l"
  by (induction n ls arbitrary: ts stuck rule: scan_lines.induct) (auto split: if_splits prod.splits)

lemma drop_CR_sublist: "sublist (drop_CR l) l"
  by (simp add: drop_CR_def sublist_butlast)

lemma Join_sublist: "p \<in> set ps \<Longrightarrow> sublist p (Join ps sep)"
proof (induction ps)
  case (Cons a ps)
  show ?case
  proof (cases ps)
    case (Cons b qs)
    then have j: "Join (a # ps) sep = a @ sep @ Join ps sep" by simp
    show ?thesis
    proof (cases "p = a")
      case False
      with Cons.IH Cons.prems have "sublist p (Join ps sep)" by simp
      then show ?thesis unfolding j by (metis append_assoc sublist_append_rightI sublist_order.order_trans sublist_append_leftI)
    qed (simp add: j)
  qed (use Cons.prems in simp)
qed simp

lemma Split_sublist: "l \<in> set (Split s x) \<Longrightarrow> sublist l s"
  using Join_sublist[of l "Split s x" "[x]"] by (simp add: Join_Split)

lemma scanned_no_marker:
  assumes "scan_lines n (Split out x) = (ts, stuck)" "\<not> Contains out resultMarker" "t \<in> set ts"
  shows "\<not> Contains t resultMarker"
proof -
  from scan_lines_set[OF assms(1,3)] obtain l where "l \<in> set (Split out x)" "t = drop_CR l" by blast
  then have "sublist t out" using drop_CR_sublist Split_sublist by (metis sublist_order.order_trans)
  with assms(2) show ?thesis unfolding Contains_iff_sublist by (metis sublist_order.order_trans)
qed

lemma scanned_no_newline:
  assumes "scan_lines n (Split out x) = (ts, stuck)" "t \<in> set ts"
  shows "x \<notin> set t"
proof -
  from scan_lines_set[OF assms] obtain l where l: "l \<in> set (Split out x)" "t = drop_CR l" by blast
  then have "set t \<subseteq> set l" using drop_CR_sublist set_mono_sublist by metis
  with Split_no_sep[OF l(1)] show ?thesis by blast
qed

lemma forward_lines_plain:
  "(\<And>l. l \<in> set ls \<Longrightarrow> CHR 0x0A \<notin> set l) \<Longrightarrow> forward_lines ls = concat (map (\<lambda>l. l @ [CHR 0x0A]) ls)"
proof -
  assume a: "\<And>l. l \<in> set ls \<Longrightarrow> CHR 0x0A \<notin> set l"
  have "TrimRight l [CHR 0x0A] = l" if "l \<in> set ls" for l
    using a[OF that] by (cases l rule: rev_cases) (auto simp: TrimRight_def)
  then show ?thesis by (simp add: forward_lines_def cong: map_cong)
qed

text \<open>The log of a mover that printed its result line, followed by anything.\<close>

lemma ParseResult_log:
  assumes sc: "scan_lines n (Split out (CHR 0x0A)) = (ls, stuck)" and nm: "\<not> Contains out resultMarker"
    and dec: "dec js = Inr r" "CHR 0x0A \<notin> set js"
  shows "ParseResult dec (forward_lines ls @ resultMarker @ js @ [CHR 0x0A] @ rest) = (r, True)"
proof -
  have nl: "\<And>l. l \<in> set ls \<Longrightarrow> CHR 0x0A \<notin> set l" using scanned_no_newline[OF sc] by blast
  have m: "CHR 0x0A \<notin> set (resultMarker @ js)" using dec(2) by (simp add: resultMarker_def)
  have "Split (forward_lines ls @ resultMarker @ js @ [CHR 0x0A] @ rest) (CHR 0x0A)
      = ls @ Split ((resultMarker @ js) @ CHR 0x0A # rest) (CHR 0x0A)"
    using Split_concat_lines[OF nl, where s = "resultMarker @ js @ [CHR 0x0A] @ rest"] by (simp add: forward_lines_plain[OF nl])
  also have "\<dots> = ls @ (resultMarker @ js) # Split rest (CHR 0x0A)"
    by (simp only: Split_append_sep[OF m])
  finally show ?thesis
    using parse_lines_skip[of ls dec] scanned_no_marker[OF sc nm] parse_lines_marker[of dec js r] dec(1)
    by (simp add: ParseResult_def)
qed

lemma apply_retention_stdout: "apply_retention e g spec host io = (r, io') \<Longrightarrow> \<exists>more. mio_stdout io' = mio_stdout io @ more"
  by (auto simp: apply_retention_def runCmd_def execRestic_def emit_def split: if_splits option.splits prod.splits)

lemma ensure_repo_stdout: "mio_stdout (snd (ensure_repo e g io)) = mio_stdout io"
  by (auto simp: ensure_repo_def runCmd_def execRestic_def emit_def println_def split: option.splits prod.splits)

lemma unlock_stdout: "mio_stdout (unlockStale e g Stderr io) = mio_stdout io"
  by (auto simp: unlockStale_def runCmd_def execRestic_def emit_def println_def split: option.splits prod.splits)

lemma runBackup_successE:
  assumes "runBackup e g spec host io = Some (None, io')"
  obtains w1 out w2 ls more where "me_restic e (g @ backup_args spec host) w1 = ((out, None), w2)"
    "scan_lines scan_limit (Split out (CHR 0x0A)) = (ls, False)"
    "mio_stdout io' = mio_stdout io @ forward_lines ls @
      (case me_encode_result e (result_of (last_summary (me_decode_summary e) ls no_summary)) of
         Inr js \<Rightarrow> resultMarker @ js @ [CHR 0x0A] | Inl _ \<Rightarrow> []) @ more"
proof -
  obtain s io1 where s: "ensure_repo e g io = (s, io1)" by (meson surj_pair)
  let ?io = "unlockStale e g Stderr io1"
  obtain out err w2 where o: "me_restic e (g @ backup_args spec host) (mio_world ?io) = ((out, err), w2)"
    by (metis surj_pair)
  obtain ls stuck where l: "scan_lines scan_limit (Split out (CHR 0x0A)) = (ls, stuck)" by (meson surj_pair)
  have out1: "mio_stdout ?io = mio_stdout io" using ensure_repo_stdout[of e g io] s by (simp add: unlock_stdout)
  have h: "s = None" "\<not> stuck" "err = None"
    using assms s o l by (auto simp: runBackup_def backup_def split: option.splits prod.splits if_splits)
  define io2 where "io2 = emit Stdout (forward_lines ls) (?io\<lparr>mio_world := w2\<rparr>)"
  define res where "res = result_of (last_summary (me_decode_summary e) ls no_summary)"
  have b: "backup e g spec host ?io = Some ((res, None), io2)"
    using o l h by (simp add: backup_def io2_def res_def)
  have src: "ms_Sources spec \<noteq> []" using assms by (auto simp: runBackup_def)
  have "apply_retention e g spec host
      (case me_encode_result e res of Inr js \<Rightarrow> println Stdout (resultMarker @ js) io2 | Inl _ \<Rightarrow> io2) = (None, io')"
    using assms s h b src by (simp add: runBackup_def)
  from apply_retention_stdout[OF this] obtain more where
    "mio_stdout io' = mio_stdout (case me_encode_result e res of Inr js \<Rightarrow> println Stdout (resultMarker @ js) io2 | Inl _ \<Rightarrow> io2) @ more"
    by blast
  then have "mio_stdout io' = mio_stdout io @ forward_lines ls @
      (case me_encode_result e res of Inr js \<Rightarrow> resultMarker @ js @ [CHR 0x0A] | Inl _ \<Rightarrow> []) @ more"
    by (auto simp: io2_def emit_def println_def out1 split: sum.splits)
  with o l h that show thesis by (simp add: res_def)
qed

section \<open>A mover that never returns\<close>

lemma scan_lines_stuck:
  "snd (scan_lines n ls) \<longleftrightarrow>
    (\<exists>l\<in>set (butlast ls). n \<le> length l) \<or> (ls \<noteq> [] \<and> last ls \<noteq> [] \<and> n < length (last ls))"
  by (induction n ls rule: scan_lines.induct) (auto split: prod.splits)

lemma runBackup_None_iff:
  "runBackup e g spec host io = None \<longleftrightarrow>
     ms_Sources spec \<noteq> [] \<and> fst (ensure_repo e g io) = None \<and>
     backup e g spec host (unlockStale e g Stderr (snd (ensure_repo e g io))) = None"
  by (auto simp: runBackup_def split: option.splits prod.splits)

lemma backup_None_iff:
  "backup e g spec host io = None \<longleftrightarrow>
     snd (scan_lines scan_limit (Split (fst (fst (me_restic e (g @ backup_args spec host) (mio_world io)))) (CHR 0x0A)))"
  by (auto simp: backup_def split: prod.splits)

section \<open>A restic in memory\<close>

text \<open>
  For the witnesses: a restic whose repository does not exist until it is initialised, and whose
  backup prints a summary line. The codec reads the numbers of new files off the lines.
\<close>

definition demo_summary :: restic_summary where
  "demo_summary = no_summary\<lparr>rsum_MessageType := ''summary'', rsum_FilesNew := 3, rsum_SnapshotID := ''abc''\<rparr>"

definition demo_env :: "bool mover_env" where
  "demo_env = \<lparr>
     me_restic = (\<lambda>args w.
       if args = [''cat'', ''config''] then (([], if w then None else Some (External ''exit 10'')), w)
       else if args = [''init''] then ((''created'', None), True)
       else if hd args = ''backup'' then ((''{..}'' @ [CHR 0x0A] @ ''SUM'' @ [CHR 0x0A], None), w)
       else ((''ok'' @ [CHR 0x0A], None), w)),
     me_decode_spec = (\<lambda>s. Inr (empty_mover_spec\<lparr>ms_App := s, ms_Sources := [''/data/x''],
       ms_Retention := no_retention\<lparr>ret_Daily := 7\<rparr>\<rparr>)),
     me_decode_summary = (\<lambda>l. if l = ''SUM'' then Inr demo_summary else Inl (External ''json'')),
     me_encode_result = (\<lambda>r. if r = result_of demo_summary then Inr ''abc'' else Inl (External ''json'')),
     me_error_text = (\<lambda>e. ''error'')\<rparr>"

definition demo_spec :: mover_spec where
  "demo_spec = empty_mover_spec\<lparr>ms_App := ''db'', ms_Sources := [''/data/x''], ms_Retention := no_retention\<lparr>ret_Daily := 7\<rparr>\<rparr>"

definition demo_io :: "bool \<Rightarrow> bool mover_io" where
  "demo_io w = \<lparr>mio_world = w, mio_stdout = [], mio_stderr = []\<rparr>"

lemma digits_7: "digits 7 = ''7''"
  by code_simp

lemmas demo_eval = execute_spec_def runBackup_def ensure_repo_def runCmd_def execRestic_def traced_env_def demo_env_def
  demo_spec_def demo_io_def empty_mover_spec_def no_retention_def emit_def println_def unlockStale_def backup_def
  backup_args_def scan_limit_def drop_CR_def forward_lines_def TrimRight_def demo_summary_def no_summary_def
  result_of_def apply_retention_def ForgetArgs_def add_flag_def forget_args_def Itoa_def digits_7 calls_def Let_def

section \<open>Claims\<close>



text \<open>
  C28. The orchestrator reads back exactly what restic reported. When a backup run succeeds, the result
  that \<open>ParseResult\<close> extracts from the mover's output is the last summary that restic printed, for
  every codec that decodes what it encodes, as long as restic's own output does not contain the
  marker.
\<close>

theorem mover_result_roundtrip:
  assumes "ms_Action spec = [] \<or> ms_Action spec = ActionBackup"
    and "execute_spec e spec \<lparr>mio_world = w, mio_stdout = [], mio_stderr = []\<rparr> = Some (None, io')"
    and "\<forall>r js. me_encode_result e r = Inr js \<longrightarrow> dec js = Inr r \<and> CHR 0x0A \<notin> set js"
    and "\<forall>args w out err w'. me_restic e args w = ((out, err), w') \<longrightarrow> \<not> Contains out resultMarker"
  shows "\<exists>w1 out w2 r. me_restic e (ms_ExtraArgs spec @ backup_args spec (if ms_Host spec = [] then ms_App spec else ms_Host spec)) w1 = ((out, None), w2) \<and>
    r = result_of (last_summary (me_decode_summary e) (fst (scan_lines scan_limit (Split out (CHR 0x0A)))) no_summary) \<and>
    (isl (me_encode_result e r) \<or> ParseResult dec (mio_stdout io') = (r, True))"
proof -
  let ?host = "if ms_Host spec = [] then ms_App spec else ms_Host spec"
  have "runBackup e (ms_ExtraArgs spec) spec ?host \<lparr>mio_world = w, mio_stdout = [], mio_stderr = []\<rparr> = Some (None, io')"
    using assms(1,2) by (simp add: execute_spec_def Let_def)
  then obtain w1 out w2 ls more where o: "me_restic e (ms_ExtraArgs spec @ backup_args spec ?host) w1 = ((out, None), w2)"
    and l: "scan_lines scan_limit (Split out (CHR 0x0A)) = (ls, False)"
    and s: "mio_stdout io' = forward_lines ls @
      (case me_encode_result e (result_of (last_summary (me_decode_summary e) ls no_summary)) of
         Inr js \<Rightarrow> resultMarker @ js @ [CHR 0x0A] | Inl _ \<Rightarrow> []) @ more"
    by (rule runBackup_successE) simp
  define r where "r = result_of (last_summary (me_decode_summary e) ls no_summary)"
  have nm: "\<not> Contains out resultMarker" using assms(4) o by blast
  have "isl (me_encode_result e r) \<or> ParseResult dec (mio_stdout io') = (r, True)"
  proof (cases "me_encode_result e r")
    case (Inr js)
    then have js: "dec js = Inr r" "CHR 0x0A \<notin> set js" using assms(3) by blast+
    from ParseResult_log[OF l nm, where dec = dec and js = js, OF js, where rest = more] s Inr
    show ?thesis by (simp add: r_def)
  qed simp
  with o l show ?thesis by (intro exI[of _ w1] exI[of _ out] exI[of _ w2] exI[of _ r]) (simp add: r_def)
qed

theorem mover_result_roundtrip_witness:
  "\<exists>io'. execute_spec demo_env demo_spec (demo_io True) = Some (None, io') \<and>
     ParseResult (\<lambda>s. Inr (result_of demo_summary)) (mio_stdout io') = (result_of demo_summary, True)"
proof -
  have "map_option fst (execute_spec demo_env demo_spec (demo_io True)) = Some None"
    by (simp add: demo_eval)
  then obtain io' where r: "execute_spec demo_env demo_spec \<lparr>mio_world = True, mio_stdout = [], mio_stderr = []\<rparr> = Some (None, io')"
    by (auto simp: demo_io_def)
  have a: "ms_Action demo_spec = [] \<or> ms_Action demo_spec = ActionBackup"
    by (simp add: demo_spec_def empty_mover_spec_def)
  let ?dec = "\<lambda>s. Inr (result_of demo_summary) :: mover_result res"
  have c: "\<forall>r js. me_encode_result demo_env r = Inr js \<longrightarrow> ?dec js = Inr r \<and> CHR 0x0A \<notin> set js"
    by (simp add: demo_env_def)
  have "\<not> Contains s resultMarker" if "s \<in> {[], ''created'', ''{..}'' @ [CHR 0x0A] @ ''SUM'' @ [CHR 0x0A], ''ok'' @ [CHR 0x0A]}" for s
    using that by (auto simp: Contains_def resultMarker_def)
  then have m: "\<forall>args w out err w'. me_restic demo_env args w = ((out, err), w') \<longrightarrow> \<not> Contains out resultMarker"
    by (auto simp: demo_env_def split: if_splits)
  from mover_result_roundtrip[OF a r c m] obtain w1 out w2 where
    o: "me_restic demo_env (ms_ExtraArgs demo_spec @ backup_args demo_spec ''db'') w1 = ((out, None), w2)"
    and p: "let q = result_of (last_summary (me_decode_summary demo_env) (fst (scan_lines scan_limit (Split out (CHR 0x0A)))) no_summary)
      in isl (me_encode_result demo_env q) \<or> ParseResult ?dec (mio_stdout io') = (q, True)"
    by (auto simp: Let_def demo_spec_def empty_mover_spec_def)
  from o have "out = ''{..}'' @ [CHR 0x0A] @ ''SUM'' @ [CHR 0x0A]"
    by (auto simp: demo_env_def backup_args_def demo_spec_def empty_mover_spec_def)
  then have "result_of (last_summary (me_decode_summary demo_env) (fst (scan_lines scan_limit (Split out (CHR 0x0A)))) no_summary) = result_of demo_summary"
    by (simp add: demo_env_def scan_limit_def drop_CR_def demo_summary_def)
  with p have "ParseResult ?dec (mio_stdout io') = (result_of demo_summary, True)"
    by (simp add: demo_env_def Let_def)
  with r show ?thesis by (auto simp: demo_io_def)
qed

text \<open>
  A mover returns. Every action ends with a result, unless restic's backup prints a line of four
  mebibytes or more.
\<close>

theorem mover_returns:
  assumes "\<forall>args w. list_all (\<lambda>l. length l < scan_limit) (Split (fst (fst (me_restic e args w))) (CHR 0x0A))"
  shows "\<exists>err io'. Execute e getenv io = Some (err, io')"
proof -
  have "backup e g spec host io \<noteq> None" for g spec host io
    using assms unfolding backup_None_iff scan_lines_stuck list_all_iff
    by (metis in_set_butlastD last_in_set leD order_less_asym)
  then have "runBackup e g spec host io \<noteq> None" for g spec host io by (simp add: runBackup_None_iff)
  then have "execute_spec e spec io \<noteq> None" for spec by (simp add: execute_spec_def Let_def)
  then have "Execute e getenv io \<noteq> None" by (simp add: Execute_def Let_def split: sum.splits)
  then show ?thesis by auto
qed

theorem mover_returns_witness: "\<exists>err io'. Execute demo_env (\<lambda>v. ''db'') (demo_io False) = Some (err, io')"
proof (rule mover_returns)
  have "list_all (\<lambda>l. length l < scan_limit) (Split s (CHR 0x0A))"
    if "s \<in> {[], ''created'', ''{..}'' @ [CHR 0x0A] @ ''SUM'' @ [CHR 0x0A], ''ok'' @ [CHR 0x0A]}" for s
    using that by (auto simp: scan_limit_def)
  then show "\<forall>args w. list_all (\<lambda>l. length l < scan_limit) (Split (fst (fst (me_restic demo_env args w))) (CHR 0x0A))"
    by (simp add: demo_env_def)
qed



end
