(* ===== verification/Runner.thy ===== *)
theory Runner
  imports Docker_Client Mover
begin

text \<open>
  The orchestrator's half of a mover run on the local daemon (\<^verbatim>\<open>internal/mover/runner.go\<close>):
  creating, starting, waiting for and removing one mover container, and trimming the history of
  exited ones. The result of \<open>Run\<close> carries a fourth component, what was written to
  \<^verbatim>\<open>req.Stdout\<close>. The live-log goroutine is run to its end before the wait. The locale
  \<open>mover_engine\<close> is the contract the orchestrator relies on.
\<close>

section \<open>Requests\<close>

record request =
  req_Name :: string
  req_Image :: string
  req_User :: string
  req_Groups :: "string list"
  req_Network :: string
  req_Spec :: mover_spec
  req_Env :: "string list"
  req_Mounts :: "mount list"
  req_Binds :: "string list"
  req_Stdout :: bool
  req_Labels :: "(string, string) gomap"
  req_KeepOnShutdown :: bool
  req_Retain :: bool
  req_Node :: string

text \<open>The JSON codec of specs and results.\<close>

record codec =
  cd_encode_spec :: "mover_spec \<Rightarrow> string res"
  cd_decode_result :: "string \<Rightarrow> mover_result res"

definition Entrypoint :: string where "Entrypoint = ''/usr/local/bin/sabon-mover''"
definition LabelKey :: string where "LabelKey = ''sabon.mover''"
definition LabelApp :: string where "LabelApp = ''sabon.app''"
definition LabelTarget :: string where "LabelTarget = ''sabon.target''"
definition LabelAction :: string where "LabelAction = ''sabon.action''"

lemmas label_defs = LabelKey_def LabelApp_def LabelTarget_def LabelAction_def

definition MarshalSpec :: "codec \<Rightarrow> mover_spec \<Rightarrow> string res" where
  "MarshalSpec cd s =
     (case cd_encode_spec cd s of
        Inl e \<Rightarrow> Inl (Wrapf ''marshal mover spec: %w'' [] e)
      | Inr b \<Rightarrow> Inr b)"

definition tail :: "string \<Rightarrow> nat \<Rightarrow> string" where
  "tail s n =
     (let s = TrimRight s [CHR 0x0A]
      in if length s \<le> n then s else [CHR 0xE2, CHR 0x80, CHR 0xA6] @ drop (length s - n) s)"

definition containerConfig :: "request \<Rightarrow> string \<Rightarrow> (string, string) gomap \<Rightarrow> container_config" where
  "containerConfig req specJSON labels = \<lparr>
     cfg_Image = req_Image req, cfg_User = req_User req, cfg_Entrypoint = [Entrypoint], cfg_Cmd = [],
     cfg_Env = [SpecEnv @ ''='' @ specJSON] @ req_Env req, cfg_Labels = labels, cfg_Healthcheck = [''NONE'']\<rparr>"

definition run_labels :: "request \<Rightarrow> (string, string) gomap" where
  "run_labels req = fold (\<lambda>(k, v) l. AList.update k v l) (req_Labels req) [(LabelKey, ms_App (req_Spec req))]"

definition run_host :: "request \<Rightarrow> host_config" where
  "run_host req =
     (let h = empty_host\<lparr>host_Mounts := req_Mounts req, host_Binds := req_Binds req, host_GroupAdd := req_Groups req\<rparr>
      in if req_Network req \<noteq> [] then h\<lparr>host_NetworkMode := req_Network req\<rparr> else h)"

section \<open>Running a mover\<close>

type_synonym run_outcome = "mover_result \<times> bool \<times> error option \<times> string"

definition logs :: "'w docker_client \<Rightarrow> ctx \<Rightarrow> string \<Rightarrow> 'w \<Rightarrow> string \<times> 'w" where
  "logs cli x i w =
     (case ContainerLogs cli x i w of
        (Inl _, w) \<Rightarrow> ([], w)
      | (Inr s, w) \<Rightarrow> (all_frames s, w))"

text \<open>What happens between the creation and the deferred removal; the last component is \<open>keep\<close>.\<close>

definition run_created ::
  "codec \<Rightarrow> 'w docker_client \<Rightarrow> ctx \<Rightarrow> request \<Rightarrow> string \<Rightarrow> 'w \<Rightarrow> (run_outcome \<times> bool) \<times> 'w" where
  "run_created cd cli x req i w =
     (case ContainerStart cli x i w of
        (Some e, w) \<Rightarrow> (((no_result, False, Some (Wrapf ''start mover: %w'' [] e), []), False), w)
      | (None, w) \<Rightarrow>
          (case (if req_Stdout req then logs cli x i w else ([], w)) of
             (streamed, w) \<Rightarrow>
               (case ContainerWait cli x i w of
                  (CtxDone cause, w) \<Rightarrow>
                    (let keep = (cause \<noteq> DeadlineExceeded \<and> req_KeepOnShutdown req)
                     in (((no_result, keep, Some cause, streamed), keep), w))
                | (WaitErr e, w) \<Rightarrow> (((no_result, False, Some (Wrapf ''wait mover: %w'' [] e), streamed), False), w)
                | (WaitStatus code (Some msg), w) \<Rightarrow>
                    (((no_result, False, Some (Errorf ''mover wait error: %s'' [msg]), streamed), False), w)
                | (WaitStatus code None, w) \<Rightarrow>
                    (if req_Stdout req then
                       (((no_result, False,
                          if code \<noteq> 0 then Some (Errorf ''mover exited with code %d'' [Itoa code]) else None, streamed),
                         req_Retain req), w)
                     else
                       (case logs cli x i w of
                          (lg, w) \<Rightarrow>
                            (((fst (ParseResult (cd_decode_result cd) lg), False,
                               if code \<noteq> 0 then Some (Errorf (''mover exited with code %d:'' @ [CHR 0x0A] @ ''%s'') [Itoa code, tail lg 2000]) else None, []),
                              req_Retain req), w))))))"

definition Run :: "codec \<Rightarrow> 'w docker_client \<Rightarrow> ctx \<Rightarrow> request \<Rightarrow> 'w \<Rightarrow> run_outcome \<times> 'w" where
  "Run cd cli x req w =
     (case MarshalSpec cd (req_Spec req) of
        Inl e \<Rightarrow> ((no_result, False, Some e, []), w)
      | Inr specJSON \<Rightarrow>
          (case ensureImage ''pull mover image %s: %w'' cli x (req_Image req) w of
             (Some e, w) \<Rightarrow> ((no_result, False, Some e, []), w)
           | (None, w) \<Rightarrow>
               (case ContainerCreate cli x (containerConfig req specJSON (run_labels req)) (run_host req) (req_Name req) w of
                  (Inl e, w) \<Rightarrow> ((no_result, False, Some (Wrapf ''create mover: %w'' [] e), []), w)
                | (Inr i, w) \<Rightarrow>
                    (case run_created cd cli x req i w of
                       ((r, keep), w) \<Rightarrow>
                         (r, if keep then w else snd (ContainerRemove cli (WithoutCancel x) i w))))))"

section \<open>Trimming the history\<close>

definition history_key :: "(string, string) gomap \<Rightarrow> string" where
  "history_key l = lookup_str l LabelApp @ ''|'' @ lookup_str l LabelTarget @ ''|'' @ lookup_str l LabelAction"

definition entries_of :: "('k, 'a list) gomap \<Rightarrow> 'k \<Rightarrow> 'a list" where
  "entries_of m k = (case map_of m k of Some xs \<Rightarrow> xs | None \<Rightarrow> [])"

fun sort_out ::
  "container_summary list \<Rightarrow> (string, container_summary list) gomap \<Rightarrow> container_summary list
   \<Rightarrow> (string, container_summary list) gomap \<times> container_summary list" where
  "sort_out [] groups stray = (groups, stray)"
| "sort_out (c # cs) groups stray =
     (if cs_State c = ''running'' \<or> cs_State c = ''restarting'' then sort_out cs groups stray
      else if lookup_str (cs_Labels c) LabelAction = [] then sort_out cs groups (stray @ [c])
      else (let key = history_key (cs_Labels c)
            in sort_out cs (AList.update key (entries_of groups key @ [c]) groups) stray))"

fun remove_ids :: "'w docker_client \<Rightarrow> ctx \<Rightarrow> string list \<Rightarrow> nat \<Rightarrow> 'w \<Rightarrow> nat \<times> 'w" where
  "remove_ids cli x [] n w = (n, w)"
| "remove_ids cli x (i # is) n w =
     (case ContainerRemove cli x i w of
        (None, w) \<Rightarrow> remove_ids cli x is (Suc n) w
      | (Some _, w) \<Rightarrow> remove_ids cli x is n w)"

text \<open>The ids removed, in order: the strays, then what exceeds \<open>keep\<close> in each sorted group.\<close>

definition reap_ids :: "(container_summary list \<Rightarrow> container_summary list) \<Rightarrow> int \<Rightarrow> container_summary list \<Rightarrow> string list" where
  "reap_ids srt keep list =
     (case sort_out list [] [] of
        (groups, stray) \<Rightarrow>
          map cs_ID stray @ concat (map (\<lambda>(k, cs). map cs_ID (drop (nat keep) (srt cs))) groups))"

definition Reap ::
  "(container_summary list \<Rightarrow> container_summary list) \<Rightarrow> 'w docker_client \<Rightarrow> ctx \<Rightarrow> int \<Rightarrow> 'w
   \<Rightarrow> (nat \<times> error option) \<times> 'w" where
  "Reap srt cli x keep w =
     (case ContainerList cli x True [(''label'', LabelKey)] w of
        (Inl e, w) \<Rightarrow> ((0, Some e), w)
      | (Inr list, w) \<Rightarrow> (case remove_ids cli x (reap_ids srt keep list) 0 w of (n, w) \<Rightarrow> ((n, None), w)))"

definition DetectSelfImage :: "'w docker_client \<Rightarrow> ctx \<Rightarrow> string res \<Rightarrow> 'w \<Rightarrow> string res \<times> 'w" where
  "DetectSelfImage cli x hostname w =
     (case hostname of
        Inl e \<Rightarrow> (Inl e, w)
      | Inr host \<Rightarrow>
          (case ContainerInspect cli x host w of
             (Inl e, w) \<Rightarrow> (Inl (Wrapf ''inspect self (%s): %w'' [host] e), w)
           | (Inr insp, w) \<Rightarrow>
               (case cj_Config insp of
                  Some c \<Rightarrow> (Inr (if cfg_Image c \<noteq> [] then cfg_Image c else cj_Image insp), w)
                | None \<Rightarrow> (Inr (cj_Image insp), w))))"

section \<open>Removal of a mover\<close>

definition is_remove :: "call \<Rightarrow> bool" where
  "is_remove k \<longleftrightarrow> (\<exists>x i. k = CRemove x i)"

definition is_start :: "call \<Rightarrow> bool" where
  "is_start k \<longleftrightarrow> (\<exists>x i. k = CStart x i)"

lemma call_kinds [simp]:
  "is_remove (CRemove x i)" "\<not> is_remove (CStart x i)" "\<not> is_remove (CWait x i)" "\<not> is_remove (CLogs x i)"
  "\<not> is_remove (CCreate x g h n)" "\<not> is_remove (CImage x i)" "\<not> is_remove (CPull x i)" "\<not> is_remove (CList x)"
  "is_start (CStart x i)" "\<not> is_start (CRemove x i)" "\<not> is_start (CWait x i)" "\<not> is_start (CLogs x i)"
  "\<not> is_start (CCreate x g h n)" "\<not> is_start (CImage x i)" "\<not> is_start (CPull x i)"
  by (simp_all add: is_remove_def is_start_def)

lemma logs_traced: "logs (traced cli) x i (w, t) = (fst (logs cli x i w), (snd (logs cli x i w), t @ [CLogs x i]))"
  by (simp add: logs_def split: prod.splits sum.splits)

text \<open>The calls between creation and removal, and when the container is kept.\<close>

lemma run_created_calls:
  assumes "run_created cd (traced cli) x req i (w, t) = (((res, kept, err, out), keep), (w', t'))"
  shows "\<exists>ks. t' = t @ CStart x i # ks \<and> list_all (\<lambda>k. \<not> is_remove k \<and> \<not> is_start k) ks"
    and "kept \<longrightarrow> keep \<and> req_KeepOnShutdown req \<and> err \<noteq> None \<and> err \<noteq> Some DeadlineExceeded"
    and "keep \<and> \<not> kept \<longrightarrow> req_Retain req \<and> (\<exists>w1 code. fst (ContainerWait cli x i w1) = WaitStatus code None)"
proof -
  note d = assms[unfolded run_created_def]
  show "\<exists>ks. t' = t @ CStart x i # ks \<and> list_all (\<lambda>k. \<not> is_remove k \<and> \<not> is_start k) ks"
    and "kept \<longrightarrow> keep \<and> req_KeepOnShutdown req \<and> err \<noteq> None \<and> err \<noteq> Some DeadlineExceeded"
    using d by (auto simp: logs_traced Let_def split: option.splits prod.splits wait_event.splits if_splits)
  show "keep \<and> \<not> kept \<longrightarrow> req_Retain req \<and> (\<exists>w1 code. fst (ContainerWait cli x i w1) = WaitStatus code None)"
    using d by (auto simp: logs_traced Let_def split: option.splits prod.splits wait_event.splits if_splits)
qed

lemma Run_cases:
  assumes "Run cd (traced cli) x req (w, []) = ((res, kept, err, out), (w', t))"
  obtains (no_container) "\<not> kept" "err \<noteq> None" "list_all (\<lambda>k. \<not> is_remove k \<and> \<not> is_start k) t"
  | (created) i pre w1 w2 keep mid where
      "run_created cd (traced cli) x req i (w1, pre) = (((res, kept, err, out), keep), (w2, pre @ CStart x i # mid))"
      "list_all (\<lambda>k. \<not> is_remove k \<and> \<not> is_start k) pre"
      "t = pre @ CStart x i # mid @ (if keep then [] else [CRemove (WithoutCancel x) i])"
proof (cases "MarshalSpec cd (req_Spec req)")
  case (Inl e)
  with assms no_container show thesis by (auto simp: Run_def)
next
  case (Inr js)
  obtain im w1 ks where im: "ensureImage ''pull mover image %s: %w'' (traced cli) x (req_Image req) (w, []) = (im, (w1, [] @ ks))"
    and ks: "list_all is_image_call ks"
    by (rule only_callsE[OF ensureImage_calls])
  have ks': "list_all (\<lambda>k. \<not> is_remove k \<and> \<not> is_start k) ks"
    using ks by (auto simp: list_all_iff is_image_call_def)
  show thesis
  proof (cases im)
    case (Some e)
    with assms Inr im ks' no_container show thesis by (auto simp: Run_def)
  next
    case None
    let ?cfg = "containerConfig req js (run_labels req)"
    let ?c = "ContainerCreate cli x ?cfg (run_host req) (req_Name req) w1"
    let ?pre = "ks @ [CCreate x ?cfg (run_host req) (req_Name req)]"
    have pre: "list_all (\<lambda>k. \<not> is_remove k \<and> \<not> is_start k) ?pre" using ks' by simp
    show thesis
    proof (cases "fst ?c")
      case (Inl e)
      with assms Inr im None pre no_container show thesis by (auto simp: Run_def)
    next
      case i: (Inr i)
      obtain r keep w2 t2 where rc: "run_created cd (traced cli) x req i (snd ?c, ?pre) = ((r, keep), (w2, t2))"
        by (metis surj_pair)
      obtain a b c d where r: "r = (a, b, c, d)" by (metis surj_pair)
      obtain mid where mid: "t2 = ?pre @ CStart x i # mid" "list_all (\<lambda>k. \<not> is_remove k \<and> \<not> is_start k) mid"
        using run_created_calls(1)[OF rc[unfolded r]] by blast
      have eq: "(a, b, c, d) = (res, kept, err, out)" "t = t2 @ (if keep then [] else [CRemove (WithoutCancel x) i])"
        using assms Inr im None i rc r by (auto simp: Run_def split: if_splits)
      show thesis
        by (rule created[OF _ pre, of i "snd ?c" keep w2 mid]) (use rc r mid eq in auto)
    qed
  qed
qed

locale mover_engine =
  fixes RunMover :: "ctx \<Rightarrow> request \<Rightarrow> 'w \<Rightarrow> run_outcome \<times> 'w"
  assumes kept_allowed: "RunMover x req w = ((res, True, err, out), w') \<Longrightarrow>
    req_KeepOnShutdown req \<and> err \<noteq> None \<and> err \<noteq> Some DeadlineExceeded"
begin

lemma cold_never_kept: "\<not> req_KeepOnShutdown req \<Longrightarrow> \<not> fst (snd (fst (RunMover x req w)))"
  using kept_allowed[of x req w] by (cases "RunMover x req w") auto

lemma success_not_kept: "RunMover x req w = ((res, kept, None, out), w') \<Longrightarrow> \<not> kept"
  using kept_allowed[of x req w] by auto

end

lemma run_created_kept:
  "run_created cd cli x req i w = (((res, True, err, out), keep), w') \<Longrightarrow>
   req_KeepOnShutdown req \<and> err \<noteq> None \<and> err \<noteq> Some DeadlineExceeded"
  by (auto simp: run_created_def Let_def split: option.splits prod.splits wait_event.splits if_splits)

lemma Run_kept:
  "Run cd cli x req w = ((res, True, err, out), w') \<Longrightarrow>
   req_KeepOnShutdown req \<and> err \<noteq> None \<and> err \<noteq> Some DeadlineExceeded"
  by (auto simp: Run_def dest: run_created_kept split: option.splits prod.splits sum.splits)

interpretation local_engine: mover_engine "Run cd cli" for cd cli
  by unfold_locales (rule Run_kept)

section \<open>What a reap removes\<close>

text \<open>
  Both engines trim their run history the same way: the ended runs without an action label are strays, the others are grouped
  by app, target and action, and of each group the newest are kept. The interface is the sorting of a listing into groups and
  strays, and the ids that are then removed.
\<close>

definition stray_run :: "('e \<Rightarrow> bool) \<Rightarrow> ('e \<Rightarrow> (string, string) gomap) \<Rightarrow> 'e \<Rightarrow> bool" where
  "stray_run ended lbl c \<longleftrightarrow> ended c \<and> lookup_str (lbl c) LabelAction = []"

definition run_of :: "('e \<Rightarrow> bool) \<Rightarrow> ('e \<Rightarrow> (string, string) gomap) \<Rightarrow> string \<Rightarrow> 'e \<Rightarrow> bool" where
  "run_of ended lbl k c \<longleftrightarrow> ended c \<and> lookup_str (lbl c) LabelAction \<noteq> [] \<and> history_key (lbl c) = k"

lemma entries_of_update: "entries_of (AList.update k v m) k' = (if k = k' then v else entries_of m k')"
  by (simp add: entries_of_def update_conv)

lemma filter_not_drop: "distinct xs \<Longrightarrow> filter (\<lambda>x. x \<notin> set (drop n xs)) xs = take n xs"
proof -
  assume d: "distinct xs"
  then have "set (take n xs) \<inter> set (drop n xs) = {}" by (rule set_take_disj_set_drop_if_distinct) simp
  then have "filter (\<lambda>x. x \<notin> set (drop n xs)) (take n xs) = take n xs" by (intro filter_True) blast
  moreover have "filter (\<lambda>x. x \<notin> set (drop n xs)) (drop n xs) = []" by (auto simp: filter_empty_conv)
  ultimately show ?thesis by (metis append_Nil2 append_take_drop_id filter_append)
qed

locale run_history =
  fixes ident :: "'e \<Rightarrow> string" and lbl :: "'e \<Rightarrow> (string, string) gomap" and created :: "'e \<Rightarrow> int" and ended :: "'e \<Rightarrow> bool"
    and sorted_out :: "'e list \<Rightarrow> (string, 'e list) gomap \<Rightarrow> 'e list \<Rightarrow> (string, 'e list) gomap \<times> 'e list"
    and reaped :: "('e list \<Rightarrow> 'e list) \<Rightarrow> int \<Rightarrow> 'e list \<Rightarrow> string list"
  assumes sorted_out_Nil: "sorted_out [] g s = (g, s)"
    and sorted_out_live: "\<not> ended c \<Longrightarrow> sorted_out (c # cs) g s = sorted_out cs g s"
    and sorted_out_stray: "stray_run ended lbl c \<Longrightarrow> sorted_out (c # cs) g s = sorted_out cs g (s @ [c])"
    and sorted_out_run: "run_of ended lbl k c \<Longrightarrow> sorted_out (c # cs) g s = sorted_out cs (AList.update k (entries_of g k @ [c]) g) s"
    and reaped_ids: "sorted_out cs [] [] = (groups, stray) \<Longrightarrow>
      reaped srt keep cs = map ident stray @ concat (map (\<lambda>(k, g). map ident (drop (nat keep) (srt g))) groups)"
begin

lemma sorted_out_inv:
  "sorted_out cs groups stray = (groups', stray') \<Longrightarrow> wf_map groups \<Longrightarrow>
   wf_map groups' \<and> stray' = stray @ filter (stray_run ended lbl) cs \<and>
   (\<forall>k. entries_of groups' k = entries_of groups k @ filter (run_of ended lbl k) cs) \<and>
   fst ` set groups' = fst ` set groups \<union> {k. \<exists>c\<in>set cs. run_of ended lbl k c}"
proof (induction cs arbitrary: groups stray)
  case Nil then show ?case by (simp add: sorted_out_Nil)
next
  case (Cons c cs)
  consider (live) "\<not> ended c" | (str) "stray_run ended lbl c" | (run) "run_of ended lbl (history_key (lbl c)) c"
    by (auto simp: stray_run_def run_of_def)
  then show ?case
  proof cases
    case live
    then have "\<not> stray_run ended lbl c" "\<And>k. \<not> run_of ended lbl k c" by (simp_all add: stray_run_def run_of_def)
    with Cons live show ?thesis by (simp add: sorted_out_live)
  next
    case str
    then have "\<And>k. \<not> run_of ended lbl k c" by (simp add: stray_run_def run_of_def)
    with Cons.IH[of groups "stray @ [c]"] Cons.prems str show ?thesis by (simp add: sorted_out_stray)
  next
    case run
    let ?k = "history_key (lbl c)"
    let ?g = "AList.update ?k (entries_of groups ?k @ [c]) groups"
    have only: "\<not> stray_run ended lbl c" "run_of ended lbl k c \<longleftrightarrow> k = ?k" for k
      using run by (auto simp: stray_run_def run_of_def)
    have "fst ` set ?g = insert ?k (fst ` set groups)" by (simp add: dom_update)
    with Cons.IH[of ?g stray] Cons.prems only show ?thesis by (auto simp: sorted_out_run[OF run] entries_of_update)
  qed
qed

lemma reaped_set:
  "set (reaped srt keep cs) = ident ` {c\<in>set cs. stray_run ended lbl c} \<union>
     (\<Union>k\<in>{k. \<exists>c\<in>set cs. run_of ended lbl k c}. ident ` set (drop (nat keep) (srt (filter (run_of ended lbl k) cs))))"
proof -
  obtain groups stray where s: "sorted_out cs [] [] = (groups, stray)" by (meson surj_pair)
  from sorted_out_inv[OF s] have i: "wf_map groups" "stray = filter (stray_run ended lbl) cs"
    "\<And>k. entries_of groups k = filter (run_of ended lbl k) cs" "fst ` set groups = {k. \<exists>c\<in>set cs. run_of ended lbl k c}"
    by (auto simp: entries_of_def)
  have e: "g = filter (run_of ended lbl k) cs" if "(k, g) \<in> set groups" for k g
    using that i(1,3) wf_map_map_of_iff[OF i(1), of k g] by (simp add: entries_of_def) (metis option.simps(5))
  have "set (concat (map (\<lambda>(k, g). map ident (drop (nat keep) (srt g))) groups)) =
      (\<Union>(k, g)\<in>set groups. ident ` set (drop (nat keep) (srt (filter (run_of ended lbl k) cs))))"
    using e by fastforce
  also have "\<dots> = (\<Union>k\<in>fst ` set groups. ident ` set (drop (nat keep) (srt (filter (run_of ended lbl k) cs))))"
    by (force simp: image_iff)
  finally show ?thesis by (simp add: reaped_ids[OF s] i(2,4))
qed

lemma reaped_group:
  assumes srt: "slice_sorter srt key" and d: "distinct (map ident cs)" and c: "c \<in> set cs" "run_of ended lbl k c"
  shows "ident c \<in> set (reaped srt keep cs) \<longleftrightarrow> c \<in> set (drop (nat keep) (srt (filter (run_of ended lbl k) cs)))"
proof
  assume "c \<in> set (drop (nat keep) (srt (filter (run_of ended lbl k) cs)))"
  with c show "ident c \<in> set (reaped srt keep cs)" unfolding reaped_set by blast
next
  assume "ident c \<in> set (reaped srt keep cs)"
  then consider e where "e \<in> set cs" "stray_run ended lbl e" "ident c = ident e"
    | e k' where "e \<in> set (drop (nat keep) (srt (filter (run_of ended lbl k') cs)))" "ident c = ident e"
    unfolding reaped_set by blast
  then show "c \<in> set (drop (nat keep) (srt (filter (run_of ended lbl k) cs)))"
  proof cases
    case 1
    then have "c = e" using d c(1) by (metis distinct_map inj_onD)
    with 1 c(2) show ?thesis by (simp add: stray_run_def run_of_def)
  next
    case 2
    then have "e \<in> set (filter (run_of ended lbl k') cs)"
      by (metis slice_sorter.srt_set[OF srt] in_set_dropD)
    then have e: "e \<in> set cs" "run_of ended lbl k' e" by auto
    then have "c = e" using d c(1) 2(2) by (metis distinct_map inj_onD)
    with e c(2) have "k' = k" by (simp add: run_of_def)
    with 2 \<open>c = e\<close> show ?thesis by simp
  qed
qed

lemma reaped_live:
  assumes "slice_sorter srt key" "distinct (map ident cs)" "c \<in> set cs" "\<not> ended c"
  shows "ident c \<notin> set (reaped srt keep cs)"
proof
  assume "ident c \<in> set (reaped srt keep cs)"
  then obtain e where e: "e \<in> set cs" "ended e" "ident c = ident e"
    unfolding reaped_set using slice_sorter.srt_set[OF assms(1)]
    by (auto simp: stray_run_def run_of_def dest!: in_set_dropD)
  then have "c = e" using assms(2,3) by (metis distinct_map inj_onD)
  with assms(4) e show False by simp
qed

lemma reaped_keeps_newest:
  fixes keep :: int
  assumes srt: "slice_sorter srt (\<lambda>c. - created c)" and d: "distinct (map ident cs)"
  defines "kept \<equiv> \<lambda>k. filter (\<lambda>c. ident c \<notin> set (reaped srt keep cs)) (filter (run_of ended lbl k) cs)"
  shows "length (kept k) = min (nat keep) (length (filter (run_of ended lbl k) cs))"
    and "c \<in> set (kept k) \<Longrightarrow> e \<in> set cs \<Longrightarrow> run_of ended lbl k e \<Longrightarrow> ident e \<in> set (reaped srt keep cs) \<Longrightarrow> created e \<le> created c"
proof -
  let ?ms = "filter (run_of ended lbl k) cs" and ?n = "nat keep"
  let ?s = "srt ?ms"
  have g: "ident c \<in> set (reaped srt keep cs) \<longleftrightarrow> c \<in> set (drop ?n ?s)" if "c \<in> set ?ms" for c
    using reaped_group[OF srt d] that by simp
  have k: "kept k = filter (\<lambda>c. c \<notin> set (drop ?n ?s)) ?ms"
    unfolding kept_def using g by (intro filter_cong) auto
  have "distinct ?ms" using d by (metis distinct_filter distinct_map)
  then have ds: "distinct ?s" by (metis slice_sorter.srt_mset[OF srt] mset_eq_imp_distinct_iff)
  have m: "mset (kept k) = mset (take ?n ?s)"
    using filter_not_drop[OF ds, of ?n] slice_sorter.srt_mset[OF srt, of ?ms]
    unfolding k by (metis mset_filter)
  then show "length (kept k) = min ?n (length ?ms)"
    using slice_sorter.srt_length[OF srt, of ?ms] by (metis length_take min.commute size_mset)
  assume c: "c \<in> set (kept k)" and e: "e \<in> set cs" "run_of ended lbl k e" "ident e \<in> set (reaped srt keep cs)"
  have "c \<in> set (take ?n ?s)" using c m by (metis set_mset_mset)
  moreover have "e \<in> set (drop ?n ?s)" using g e by simp
  ultimately show "created e \<le> created c" using slice_sorter.srt_take_le[OF srt] by fastforce
qed

text \<open>All a reap of either engine promises.\<close>

lemma reap_contract:
  assumes "slice_sorter srt (\<lambda>c. - created c)" "distinct (map ident cs)"
  shows "let ids = reaped srt keep cs; kept = (\<lambda>k. filter (\<lambda>c. ident c \<notin> set ids) (filter (run_of ended lbl k) cs))
    in (\<forall>c\<in>set cs. \<not> ended c \<longrightarrow> ident c \<notin> set ids) \<and>
       (\<forall>c\<in>set cs. stray_run ended lbl c \<longrightarrow> ident c \<in> set ids) \<and>
       (\<forall>k. length (kept k) = min (nat keep) (length (filter (run_of ended lbl k) cs))) \<and>
       (\<forall>k. \<forall>c\<in>set (kept k). \<forall>e\<in>set cs. run_of ended lbl k e \<longrightarrow> ident e \<in> set ids \<longrightarrow> created e \<le> created c)"
proof -
  have "ident c \<in> set (reaped srt keep cs)" if "c \<in> set cs" "stray_run ended lbl c" for c
    using that unfolding reaped_set by blast
  with reaped_live[OF assms] reaped_keeps_newest[OF assms, where keep = keep] show ?thesis unfolding Let_def by blast
qed

end

text \<open>The movers of the standalone engine are containers.\<close>

definition exited :: "container_summary \<Rightarrow> bool" where
  "exited c \<longleftrightarrow> cs_State c \<noteq> ''running'' \<and> cs_State c \<noteq> ''restarting''"

abbreviation is_stray :: "container_summary \<Rightarrow> bool" where
  "is_stray \<equiv> stray_run exited cs_Labels"

abbreviation in_group :: "string \<Rightarrow> container_summary \<Rightarrow> bool" where
  "in_group \<equiv> run_of exited cs_Labels"

interpretation container_history: run_history cs_ID cs_Labels cs_Created exited sort_out reap_ids
  by unfold_locales (auto simp: exited_def stray_run_def run_of_def reap_ids_def)

lemma remove_ids_calls:
  "\<exists>n' w'. remove_ids (traced cli) x is n (w, t) = (n', (w', t @ map (CRemove x) is)) \<and> n' \<le> n + length is"
proof (induction "is" arbitrary: n w t)
  case (Cons i "is")
  let ?r = "ContainerRemove cli x i w"
  show ?case
    using Cons[of "case fst ?r of None \<Rightarrow> Suc n | Some _ \<Rightarrow> n" "snd ?r" "t @ [CRemove x i]"]
    by (auto split: option.splits)
qed simp

section \<open>Claims\<close>

text \<open>
  C20. A mover container is removed unless it has to stay. Whatever the daemon answers, a started
  container is removed, once, as the last call and on a context that no cancel reaches, except in two
  cases: it is left running because the run was cancelled, was no deadline and the request allows it
  (and then the caller is told so with an error), or it has exited and the request retains it as
  history. Nothing is removed when no container was started.
\<close>

theorem mover_container_removed:
  assumes "Run cd (traced cli) x req (w, []) = ((res, kept, err, out), (w', t))"
  shows "(kept \<longrightarrow> req_KeepOnShutdown req \<and> err \<noteq> None \<and> err \<noteq> Some DeadlineExceeded \<and> list_all (\<lambda>k. \<not> is_remove k) t) \<and>
    list_all (\<lambda>k. \<not> is_remove k) (butlast t) \<and>
    (list_all (\<lambda>k. \<not> is_start k) t \<longrightarrow> list_all (\<lambda>k. \<not> is_remove k) t) \<and>
    (\<forall>i. CStart x i \<in> set t \<longrightarrow>
       last t = CRemove (WithoutCancel x) i \<or> kept \<or>
       (req_Retain req \<and> (\<exists>u code. fst (ContainerWait cli x i u) = WaitStatus code None)))"
  using assms
proof (cases rule: Run_cases)
  case no_container
  then show ?thesis by (auto simp: list_all_iff in_set_butlastD)
next
  case (created i pre w1 w2 keep mid)
  note rc = run_created_calls[OF created(1)]
  have mid: "list_all (\<lambda>k. \<not> is_remove k \<and> \<not> is_start k) mid" using rc(1) by auto
  have only: "j = i" if "CStart x j \<in> set t" for j
    using that created(2) mid unfolding created(3) by (auto simp: list_all_iff split: if_splits)
  show ?thesis
  proof (cases keep)
    case True
    then have t: "t = pre @ CStart x i # mid" using created(3) by simp
    have nr: "list_all (\<lambda>k. \<not> is_remove k) t" using created(2) mid unfolding t by (auto simp: list_all_iff)
    then have "list_all (\<lambda>k. \<not> is_remove k) (butlast t)" by (metis list_all_iff in_set_butlastD)
    then show ?thesis using nr rc(2,3) True only by blast
  next
    case False
    then have t: "t = (pre @ CStart x i # mid) @ [CRemove (WithoutCancel x) i]" using created(3) by simp
    show ?thesis using rc(2) False created(2) mid only unfolding t butlast_snoc last_snoc
      by (auto simp: list_all_iff)
  qed
qed

text \<open>The calls of a reap: the listing, and one removal per chosen container.\<close>

lemma reap_calls:
  assumes "fst (ContainerList cli x True [(''label'', LabelKey)] w) = Inr cs"
  shows "snd (snd (Reap srt (traced cli) x keep (w, []))) = CList x # map (CRemove x) (reap_ids srt keep cs)"
proof -
  let ?ids = "reap_ids srt keep cs"
  obtain n w' where "remove_ids (traced cli) x ?ids 0 (snd (ContainerList cli x True [(''label'', LabelKey)] w), [CList x])
      = (n, (w', [CList x] @ map (CRemove x) ?ids))"
    using remove_ids_calls by metis
  then show ?thesis using assms by (simp add: Reap_def)
qed


text \<open>
  A mover between its creation and its start is neither running nor restarting, so the reap takes it for an exited one: a reap at that moment
  removes the mover of a snapshot listing, which has no action label, and with a history of zero that of every run, and the start then fails.
\<close>

theorem reap_removes_created_mover:
  assumes "slice_sorter srt (\<lambda>c. - cs_Created c)" and "distinct (map cs_ID cs)"
    and "fst (ContainerList cli x True [(''label'', LabelKey)] w) = Inr cs"
    and "c \<in> set cs" "cs_State c = ''created''" "lookup_str (cs_Labels c) LabelAction = [] \<or> keep \<le> 0"
  shows "CRemove x (cs_ID c) \<in> set (snd (snd (Reap srt (traced cli) x keep (w, []))))"
proof -
  have e: "exited c" using assms(5) by (simp add: exited_def)
  note h = container_history.reap_contract[OF assms(1,2), of keep]
  have "cs_ID c \<in> set (reap_ids srt keep cs)"
  proof (cases "lookup_str (cs_Labels c) LabelAction = []")
    case True
    with e have "is_stray c" by (simp add: stray_run_def)
    with h assms(4) show ?thesis unfolding Let_def by blast
  next
    case False
    let ?k = "history_key (cs_Labels c)"
    from False e have g: "in_group ?k c" by (simp add: run_of_def)
    from False assms(6) have "nat keep = 0" by simp
    with h have "filter (\<lambda>c. cs_ID c \<notin> set (reap_ids srt keep cs)) (filter (in_group ?k) cs) = []" unfolding Let_def by simp
    with g assms(4) show ?thesis by (auto simp: filter_empty_conv)
  qed
  then show ?thesis using reap_calls[OF assms(3)] by simp
qed

text \<open>A daemon for the witnesses: every call succeeds, the wait ends as told, the listing is given.\<close>

definition demo_docker :: "wait_event \<Rightarrow> container_summary list \<Rightarrow> unit docker_client" where
  "demo_docker ev cs = \<lparr>
     ContainerCreate = (\<lambda>x g h n w. (Inr ''c1'', w)), ContainerStart = (\<lambda>x i w. (None, w)),
     ContainerStop = (\<lambda>x i w. (None, w)), ContainerWait = (\<lambda>x i w. (ev, w)),
     ContainerLogs = (\<lambda>x i w. (Inr \<lparr>log_frames = [(True, ''done'')], log_err = None\<rparr>, w)),
     ContainerRemove = (\<lambda>x i w. (None, w)), ContainerList = (\<lambda>x a f w. (Inr cs, w)),
     ContainerInspect = (\<lambda>x i w. (Inl (External ''none''), w)),
     ContainerExecCreate = (\<lambda>x i c e u w. (Inr ''e1'', w)),
     ContainerExecAttach = (\<lambda>x i w. (Inr \<lparr>log_frames = [], log_err = None\<rparr>, w)),
     ContainerExecInspect = (\<lambda>x i w. (Inr 0, w)), ImageInspect = (\<lambda>x i w. (None, w)), ImagePull = (\<lambda>x i w. (None, w)),
     VolumeCreate = (\<lambda>x i w. (None, w)), VolumeInspect = (\<lambda>x i w. (Inl (External ''none''), w)),
     ContextErr = (\<lambda>x w. (None, w))\<rparr>"

definition demo_codec :: codec where
  "demo_codec = \<lparr>cd_encode_spec = (\<lambda>s. Inr ''{}''), cd_decode_result = (\<lambda>s. Inl (External ''json''))\<rparr>"

definition demo_request :: request where
  "demo_request = \<lparr>req_Name = ''m'', req_Image = ''img'', req_User = [], req_Groups = [], req_Network = [],
     req_Spec = empty_mover_spec\<lparr>ms_App := ''db''\<rparr>, req_Env = [], req_Mounts = [], req_Binds = [], req_Stdout = False,
     req_Labels = [], req_KeepOnShutdown = True, req_Retain = True, req_Node = []\<rparr>"

theorem mover_container_removed_witness:
  "\<exists>res err out w' t. Run demo_codec (traced (demo_docker (CtxDone DeadlineExceeded) [])) Caller demo_request ((), [])
      = ((res, False, err, out), (w', t)) \<and> CStart Caller ''c1'' \<in> set t \<and> last t = CRemove (WithoutCancel Caller) ''c1''"
proof -
  let ?r = "Run demo_codec (traced (demo_docker (CtxDone DeadlineExceeded) [])) Caller demo_request ((), [])"
  obtain res kept err out w' t where r: "?r = ((res, kept, err, out), (w', t))" by (metis surj_pair)
  have "fst (snd (fst ?r)) = False \<and> CStart Caller ''c1'' \<in> set (snd (snd ?r))" by code_simp
  then have k: "\<not> kept" and s: "CStart Caller ''c1'' \<in> set t" by (simp_all add: r)
  have "fst (ContainerWait (demo_docker (CtxDone DeadlineExceeded) []) Caller ''c1'' u) \<noteq> WaitStatus code None" for u code
    by (simp add: demo_docker_def)
  with mover_container_removed[OF r] k s have "last t = CRemove (WithoutCancel Caller) ''c1''" by blast
  with r k s show ?thesis by auto
qed

definition demo_run :: "string \<Rightarrow> string \<Rightarrow> int \<Rightarrow> container_summary" where
  "demo_run i st created = \<lparr>cs_ID = i, cs_Names = [],
     cs_Labels = [(LabelApp, ''db''), (LabelTarget, ''nas''), (LabelAction, ''backup'')], cs_State = st, cs_Created = created\<rparr>"


end
