(* ===== verification/Zfs.thy ===== *)
theory Zfs
  imports Docker_Client
begin

text \<open>
  Source snapshots (\<^verbatim>\<open>internal/snapshot/snapshot.go\<close> and the zfs provider,
  \<^verbatim>\<open>internal/snapshot/providers/zfs/zfs.go\<close> and \<^verbatim>\<open>runner.go\<close>): the record of a
  snapshotter, the mapping of host paths to datasets, taking, reading and destroying snapshots,
  the reap of orphans and the privileged container that runs one \<^verbatim>\<open>zfs\<close> command. The
  \<^verbatim>\<open>zfs\<close> binary is the function \<open>z_run\<close>; \<open>zfs_host\<close> states its documented behaviour.
\<close>

section \<open>The snapshotter interface\<close>

record snap_source =
  ss_Name :: string
  ss_HostPath :: string

record snap_mount =
  sm_Name :: string
  sm_HostPath :: string

record resolution =
  rs_Name :: string
  rs_HostPath :: string
  rs_Snapshottable :: bool
  rs_Detail :: string

record 'w snapshotter =
  sn_Snapshot :: "ctx \<Rightarrow> string \<Rightarrow> snap_source list \<Rightarrow> 'w \<Rightarrow> (snap_mount list \<times> (ctx \<Rightarrow> 'w \<Rightarrow> 'w)) res \<times> 'w"
  sn_Mode :: string
  sn_Resolve :: "ctx \<Rightarrow> snap_source list \<Rightarrow> 'w \<Rightarrow> resolution list res \<times> 'w"
  sn_Reap :: "ctx \<Rightarrow> string list \<Rightarrow> 'w \<Rightarrow> (nat \<times> error option) \<times> 'w"

section \<open>Names\<close>

definition zfs_char :: "char \<Rightarrow> bool" where
  "zfs_char c \<longleftrightarrow> is_alnum c \<or> c \<in> set ''-_.:''"

definition zfs_sanitize :: "string \<Rightarrow> string" where
  "zfs_sanitize s = (let b = dash_runes zfs_char s in if b = [] then ''app'' else b)"

record 'w zfs =
  z_run :: "ctx \<Rightarrow> string list \<Rightarrow> 'w \<Rightarrow> string res \<times> 'w"
  z_reap :: "ctx \<Rightarrow> 'w \<Rightarrow> (nat \<times> error option) \<times> 'w"
  z_now :: "'w \<Rightarrow> int"
  z_instance :: string

definition snapPrefix :: "string \<Rightarrow> string" where
  "snapPrefix inst = ''sabon-'' @ zfs_sanitize (if inst = [] then ''default'' else inst) @ ''-''"

definition ownsSnapshot :: "string \<Rightarrow> string \<Rightarrow> bool" where
  "ownsSnapshot inst name =
     (case Cut name ''@'' of (_, snap, ok) \<Rightarrow> ok \<and> HasPrefix snap (snapPrefix inst))"

definition snapSuffix :: "string \<Rightarrow> string \<Rightarrow> int \<Rightarrow> string" where
  "snapSuffix inst app now = snapPrefix inst @ zfs_sanitize app @ ''-'' @ Itoa now"

definition zfs_marker :: string where
  "zfs_marker = ''/.zfs/snapshot/''"

definition snapshotNameFromPath :: "string \<Rightarrow> string" where
  "snapshotNameFromPath p =
     (case Index p zfs_marker of
        None \<Rightarrow> []
      | Some i \<Rightarrow> fst (Cut (drop (i + length zfs_marker) p) ''/''))"

section \<open>Datasets\<close>

record dataset =
  ds_name :: string
  ds_mountpoint :: string

definition parse_line :: "string \<Rightarrow> dataset option" where
  "parse_line line =
     (if line = [] then None
      else case Cut line [CHR 0x09] of
             (_, _, False) \<Rightarrow> None
           | (a, b, True) \<Rightarrow>
               (let mp = TrimSpace b
                in if mp \<in> {'''', ''-'', ''none'', ''legacy''} then None
                   else Some \<lparr>ds_name = TrimSpace a, ds_mountpoint = mp\<rparr>))"

definition parseDatasets :: "string \<Rightarrow> dataset list" where
  "parseDatasets out = List.map_filter parse_line (Split (TrimSpace out) (CHR 0x0A))"

text \<open>The sub-path of a cleaned path in a cleaned mountpoint, when the mountpoint contains it.\<close>

definition sub_path :: "string \<Rightarrow> string \<Rightarrow> string option" where
  "sub_path mp path =
     (if mp = path then Some []
      else if mp = ''/'' then Some (TrimPrefix path ''/'')
      else if HasPrefix path (mp @ ''/'') then Some (TrimPrefix path (mp @ ''/''))
      else None)"

text \<open>The loop's \<open>best\<close>, \<open>bestSub\<close> and \<open>bestLen\<close>; no dataset yet is \<open>None\<close> (\<open>bestLen = -1\<close>).\<close>

fun dataset_loop :: "string \<Rightarrow> dataset list \<Rightarrow> (dataset \<times> string \<times> nat) option \<Rightarrow> (dataset \<times> string \<times> nat) option" where
  "dataset_loop path [] best = best"
| "dataset_loop path (d # ds) best =
     (let mp = Clean (ds_mountpoint d)
      in case sub_path mp path of
           None \<Rightarrow> dataset_loop path ds best
         | Some sub \<Rightarrow>
             (case best of
                None \<Rightarrow> dataset_loop path ds (Some (d, sub, length mp))
              | Some (_, _, n) \<Rightarrow>
                  if length mp > n then dataset_loop path ds (Some (d, sub, length mp))
                  else dataset_loop path ds best))"

definition datasetFor :: "string \<Rightarrow> dataset list \<Rightarrow> (dataset \<times> string) option" where
  "datasetFor path ds = map_option (\<lambda>(d, sub, _). (d, sub)) (dataset_loop (Clean path) ds None)"

definition readPath :: "string \<Rightarrow> string \<Rightarrow> string \<Rightarrow> string" where
  "readPath mountpoint snap sub =
     (let base = Path_Join [mountpoint, ''.zfs'', ''snapshot'', snap]
      in if sub = [] then base else Path_Join [base, sub])"

section \<open>Pools\<close>

definition pool_of :: "string \<Rightarrow> string" where
  "pool_of s = fst (Cut (fst (Cut s ''@'')) ''/'')"

fun pool_loop :: "string list \<Rightarrow> string list \<Rightarrow> (string, string list) gomap \<Rightarrow> string list \<times> (string, string list) gomap" where
  "pool_loop [] order groups = (order, groups)"
| "pool_loop (s # ss) order groups =
     (let pool = pool_of s;
          order' = (if map_of groups pool = None then order @ [pool] else order)
      in pool_loop ss order' (AList.update pool (list_of groups pool @ [s]) groups))"

definition groupByPool :: "string list \<Rightarrow> string list list" where
  "groupByPool snaps = (case pool_loop snaps [] [] of (order, groups) \<Rightarrow> map (list_of groups) order)"

section \<open>Taking snapshots\<close>

text \<open>
  The loop that resolves every source. \<open>snapByDS\<close> maps a dataset to its snapshot name and
  \<open>snapNames\<close> lists them; \<open>mounts\<close> is where each source is read.
\<close>

fun plan_snaps ::
  "dataset list \<Rightarrow> string \<Rightarrow> snap_source list \<Rightarrow> (string, string) gomap \<Rightarrow> string list \<Rightarrow> snap_mount list
   \<Rightarrow> (string list \<times> snap_mount list) res" where
  "plan_snaps datasets sfx [] snapByDS snapNames mounts = Inr (snapNames, mounts)"
| "plan_snaps datasets sfx (s # ss) snapByDS snapNames mounts =
     (case datasetFor (ss_HostPath s) datasets of
        None \<Rightarrow> Inl (Errorf ''snapshot=zfs: source %q (%s) is not on a ZFS dataset'' [ss_Name s, ss_HostPath s])
      | Some (d, sub) \<Rightarrow>
          (let full = ds_name d @ ''@'' @ sfx;
               mounts' = mounts @ [\<lparr>sm_Name = ss_Name s, sm_HostPath = readPath (ds_mountpoint d) sfx sub\<rparr>]
           in if map_of snapByDS (ds_name d) = None
              then plan_snaps datasets sfx ss (AList.update (ds_name d) full snapByDS) (snapNames @ [full]) mounts'
              else plan_snaps datasets sfx ss snapByDS snapNames mounts'))"

fun destroy_all :: "'w zfs \<Rightarrow> ctx \<Rightarrow> string list \<Rightarrow> 'w \<Rightarrow> 'w" where
  "destroy_all z x [] w = w"
| "destroy_all z x (s # ss) w = destroy_all z x ss (snd (z_run z x [''destroy'', s] w))"

fun take_groups :: "'w zfs \<Rightarrow> ctx \<Rightarrow> string list list \<Rightarrow> string list \<Rightarrow> 'w \<Rightarrow> error option \<times> 'w" where
  "take_groups z x [] taken w = (None, w)"
| "take_groups z x (g # gs) taken w =
     (case z_run z x (''snapshot'' # g) w of
        (Inl e, w) \<Rightarrow> (Some (Wrapf ''zfs snapshot: %w'' [] e), destroy_all z (WithoutCancel x) taken w)
      | (Inr _, w) \<Rightarrow> take_groups z x gs (taken @ g) w)"

definition list_filesystems :: "string list" where
  "list_filesystems = [''list'', ''-H'', ''-o'', ''name,mountpoint'', ''-t'', ''filesystem'']"

definition zfs_Snapshot ::
  "'w zfs \<Rightarrow> ctx \<Rightarrow> string \<Rightarrow> snap_source list \<Rightarrow> 'w \<Rightarrow> (snap_mount list \<times> (ctx \<Rightarrow> 'w \<Rightarrow> 'w)) res \<times> 'w" where
  "zfs_Snapshot z x app sources w =
     (case z_run z x list_filesystems w of
        (Inl e, w) \<Rightarrow> (Inl (Wrapf ''zfs list: %w'' [] e), w)
      | (Inr out, w) \<Rightarrow>
          (let datasets = parseDatasets out;
               sfx = snapSuffix (z_instance z) app (z_now z w)
           in case plan_snaps datasets sfx sources [] [] [] of
                Inl e \<Rightarrow> (Inl e, w)
              | Inr (snapNames, mounts) \<Rightarrow>
                  (case take_groups z x (groupByPool snapNames) [] w of
                     (Some e, w) \<Rightarrow> (Inl e, w)
                   | (None, w) \<Rightarrow> (Inr (mounts, \<lambda>c. destroy_all z c snapNames), w))))"

definition resolve_source :: "dataset list \<Rightarrow> snap_source \<Rightarrow> resolution" where
  "resolve_source datasets s =
     (case datasetFor (ss_HostPath s) datasets of
        None \<Rightarrow> \<lparr>rs_Name = ss_Name s, rs_HostPath = ss_HostPath s, rs_Snapshottable = False,
                 rs_Detail = ''not on a ZFS dataset''\<rparr>
      | Some (d, _) \<Rightarrow> \<lparr>rs_Name = ss_Name s, rs_HostPath = ss_HostPath s, rs_Snapshottable = True,
                 rs_Detail = ''dataset '' @ ds_name d\<rparr>)"

definition zfs_Resolve :: "'w zfs \<Rightarrow> ctx \<Rightarrow> snap_source list \<Rightarrow> 'w \<Rightarrow> resolution list res \<times> 'w" where
  "zfs_Resolve z x sources w =
     (case z_run z x list_filesystems w of
        (Inl e, w) \<Rightarrow> (Inl (Wrapf ''zfs unavailable on host: %w'' [] e), w)
      | (Inr out, w) \<Rightarrow> (Inr (map (resolve_source (parseDatasets out)) sources), w))"

section \<open>Reaping orphans\<close>

text \<open>The set of names a running mover reads; paths that are no snapshot path add nothing.\<close>

definition in_use :: "string list \<Rightarrow> string list" where
  "in_use paths = filter (\<lambda>n. n \<noteq> []) (map snapshotNameFromPath paths)"

definition snap_of :: "string \<Rightarrow> string" where
  "snap_of full = fst (snd (Cut full ''@''))"

fun reap_loop :: "'w zfs \<Rightarrow> ctx \<Rightarrow> string list \<Rightarrow> string list \<Rightarrow> nat \<Rightarrow> 'w \<Rightarrow> nat \<times> 'w" where
  "reap_loop z x inUse [] n w = (n, w)"
| "reap_loop z x inUse (full # rest) n w =
     (if \<not> ownsSnapshot (z_instance z) full then reap_loop z x inUse rest n w
      else if snap_of full \<in> set inUse then reap_loop z x inUse rest n w
      else (case z_run z x [''destroy'', full] w of
              (Inl _, w) \<Rightarrow> reap_loop z x inUse rest n w
            | (Inr _, w) \<Rightarrow> reap_loop z x inUse rest (Suc n) w))"

definition list_snapshots :: "string list" where
  "list_snapshots = [''list'', ''-t'', ''snapshot'', ''-H'', ''-o'', ''name'']"

definition zfs_Reap :: "'w zfs \<Rightarrow> ctx \<Rightarrow> string list \<Rightarrow> 'w \<Rightarrow> (nat \<times> error option) \<times> 'w" where
  "zfs_Reap z x inUsePaths w =
     (case z_reap z x w of
        ((n, Some e), w) \<Rightarrow> ((n, Some e), w)
      | ((n, None), w) \<Rightarrow>
          (case z_run z x list_snapshots w of
             (Inl e, w) \<Rightarrow> ((n, Some (Wrapf ''zfs list snapshots: %w'' [] e)), w)
           | (Inr out, w) \<Rightarrow>
               (case reap_loop z x (in_use inUsePaths) (Split (TrimSpace out) (CHR 0x0A)) n w of
                  (n, w) \<Rightarrow> ((n, None), w))))"

definition zfs_snapshotter :: "'w zfs \<Rightarrow> 'w snapshotter" where
  "zfs_snapshotter z =
     \<lparr>sn_Snapshot = zfs_Snapshot z, sn_Mode = ''zfs'', sn_Resolve = zfs_Resolve z, sn_Reap = zfs_Reap z\<rparr>"

section \<open>The privileged runner\<close>

definition snapshotterLabel :: string where
  "snapshotterLabel = ''sabon.zfs-snapshotter''"

definition zfs_logs :: "'w docker_client \<Rightarrow> ctx \<Rightarrow> string \<Rightarrow> 'w \<Rightarrow> (string \<times> string) \<times> 'w" where
  "zfs_logs cli x i w =
     (case ContainerLogs cli x i w of
        (Inl _, w) \<Rightarrow> (([], []), w)
      | (Inr s, w) \<Rightarrow> ((frames_of True s, frames_of False s), w))"

definition waitAndCollect ::
  "'w docker_client \<Rightarrow> ctx \<Rightarrow> string \<Rightarrow> 'w \<Rightarrow> (string \<times> string \<times> error option) \<times> 'w" where
  "waitAndCollect cli x i w =
     (case ContainerWait cli x i w of
        (WaitErr e, w) \<Rightarrow> (([], [], Some e), w)
      | (CtxDone e, w) \<Rightarrow> (([], [], Some e), w)
      | (WaitStatus code _, w) \<Rightarrow>
          (case zfs_logs cli x i w of
             ((out, err), w) \<Rightarrow>
               ((out, err, if code \<noteq> 0 then Some (Errorf ''exit %d'' [Itoa code]) else None), w)))"

definition runner_run :: "'w docker_client \<Rightarrow> string \<Rightarrow> ctx \<Rightarrow> string list \<Rightarrow> 'w \<Rightarrow> string res \<times> 'w" where
  "runner_run cli img x args w =
     (if img = [] then
        (Inl (Errorf ''no zfs snapshotter image configured; set SABON_SNAPSHOT_ZFS_IMAGE'' []), w)
      else case ensureImage ''pull %s: %w'' cli x img w of
        (Some e, w) \<Rightarrow> (Inl e, w)
      | (None, w) \<Rightarrow>
          (case ContainerCreate cli x
                  (empty_config\<lparr>cfg_Image := img, cfg_Cmd := args, cfg_Labels := [(snapshotterLabel, ''true'')]\<rparr>)
                  (empty_host\<lparr>host_Privileged := True, host_PidMode := ''host''\<rparr>) [] w of
             (Inl e, w) \<Rightarrow> (Inl (Wrapf ''create zfs snapshotter: %w'' [] e), w)
           | (Inr i, w) \<Rightarrow>
               (case (case ContainerStart cli x i w of
                        (Some e, w) \<Rightarrow> (Inl (Wrapf ''start zfs snapshotter: %w'' [] e), w)
                      | (None, w) \<Rightarrow>
                          (case waitAndCollect cli x i w of
                             ((_, err, Some e), w) \<Rightarrow>
                               (Inl (Wrapf ''zfs %s: %w: %s'' [Join args '' '', TrimSpace err] e), w)
                           | ((out, _, None), w) \<Rightarrow> (Inr out, w))) of
                  (r, w) \<Rightarrow> (r, snd (ContainerRemove cli (WithoutCancel x) i w)))))"

definition live_state :: "string \<Rightarrow> bool" where
  "live_state s \<longleftrightarrow> s = ''running'' \<or> s = ''restarting''"

fun remove_exited :: "'w docker_client \<Rightarrow> ctx \<Rightarrow> container_summary list \<Rightarrow> nat \<Rightarrow> 'w \<Rightarrow> nat \<times> 'w" where
  "remove_exited cli x [] n w = (n, w)"
| "remove_exited cli x (c # cs) n w =
     (if live_state (cs_State c) then remove_exited cli x cs n w
      else (case ContainerRemove cli x (cs_ID c) w of
              (None, w) \<Rightarrow> remove_exited cli x cs (Suc n) w
            | (Some _, w) \<Rightarrow> remove_exited cli x cs n w))"

definition runner_reap :: "'w docker_client \<Rightarrow> ctx \<Rightarrow> 'w \<Rightarrow> (nat \<times> error option) \<times> 'w" where
  "runner_reap cli x w =
     (case ContainerList cli x True [(''label'', snapshotterLabel)] w of
        (Inl e, w) \<Rightarrow> ((0, Some e), w)
      | (Inr cs, w) \<Rightarrow> (case remove_exited cli x cs 0 w of (n, w) \<Rightarrow> ((n, None), w)))"

definition zfs_New :: "'w docker_client \<Rightarrow> string \<Rightarrow> string \<Rightarrow> ('w \<Rightarrow> int) \<Rightarrow> 'w zfs" where
  "zfs_New cli img inst now =
     \<lparr>z_run = runner_run cli img, z_reap = runner_reap cli, z_now = now, z_instance = inst\<rparr>"

section \<open>Paths of snapshots\<close>

text \<open>A rooted path as its components, each behind a separator.\<close>

definition rooted :: "string list \<Rightarrow> string" where
  "rooted cs = concat (map (\<lambda>c. CHR ''/'' # c) cs)"

lemma rooted_simps [simp]: "rooted [] = []" "rooted (c # cs) = CHR ''/'' # c @ rooted cs"
  "rooted (cs @ ds) = rooted cs @ rooted ds"
  by (simp_all add: rooted_def)

lemma abs_path_rooted: "cs \<noteq> [] \<Longrightarrow> abs_path cs = rooted cs"
proof (induction cs)
  case (Cons c cs)
  then show ?case by (cases cs) (auto simp: abs_path_def)
qed simp

lemma Index_skip:
  assumes "\<forall>c\<in>set u. c \<noteq> m"
  shows "Index (u @ s) (m # ms) = map_option (\<lambda>i. length u + i) (Index s (m # ms))"
  using assms by (induction u) (cases "Index s (m # ms)"; auto)+

lemma rooted_hd: "rooted cs = [] \<or> hd (rooted cs) = CHR ''/''"
  by (cases cs) auto

text \<open>A component followed by the rest of a path is read off up to the separator.\<close>

lemma comp_append_eq:
  assumes "CHR ''/'' \<notin> set a" "CHR ''/'' \<notin> set b" "a @ rooted xs = b @ CHR ''/'' # ys"
  shows "a = b \<and> rooted xs = CHR ''/'' # ys"
  using assms
proof (induction a arbitrary: b)
  case Nil
  then show ?case
  proof (cases b)
    case (Cons c b')
    then show ?thesis using Nil rooted_hd[of xs] by auto
  qed simp
next
  case (Cons x a)
  then show ?case by (cases b) auto
qed

lemma zfs_marker_rooted: "zfs_marker = rooted [''.zfs'', ''snapshot''] @ ''/''"
  by (simp add: zfs_marker_def)

definition no_slash :: "string list \<Rightarrow> bool" where
  "no_slash cs \<longleftrightarrow> list_all (\<lambda>c. CHR ''/'' \<notin> set c) cs"

lemma no_slash_simps [simp]:
  "no_slash []" "no_slash (c # cs) \<longleftrightarrow> CHR ''/'' \<notin> set c \<and> no_slash cs"
  "no_slash (cs @ ds) \<longleftrightarrow> no_slash cs \<and> no_slash ds"
  by (simp_all add: no_slash_def)

lemma normal_no_slash: "list_all normal_comp cs \<Longrightarrow> no_slash cs"
  by (simp add: no_slash_def normal_comp_def list_all_iff)

lemma marker_prefix:
  assumes ns: "no_slash (c # cs)" and p: "prefix zfs_marker (rooted (c # cs))"
  shows "c = ''.zfs'' \<and> (\<exists>n ds. cs = ''snapshot'' # n # ds)"
proof -
  from p obtain r where r: "rooted (c # cs) = zfs_marker @ r" by (auto simp: prefix_def)
  then have e: "c @ rooted cs = ''.zfs'' @ CHR ''/'' # (''snapshot'' @ ''/'' @ r)"
    by (simp add: zfs_marker_def)
  have c: "c = ''.zfs'' \<and> rooted cs = CHR ''/'' # (''snapshot'' @ ''/'' @ r)"
    by (rule comp_append_eq[OF _ _ e]) (use ns in simp_all)
  then obtain d ds where cs: "cs = d # ds" by (cases cs) auto
  with c have e2: "d @ rooted ds = ''snapshot'' @ CHR ''/'' # r" by simp
  have d: "d = ''snapshot'' \<and> rooted ds = CHR ''/'' # r"
    by (rule comp_append_eq[OF _ _ e2]) (use ns cs in simp_all)
  then obtain n es where "ds = n # es" by (cases ds) auto
  with c d cs show ?thesis by simp
qed

lemma Index_marker:
  assumes "no_slash (cs @ n # ds)" "\<not> sublist [''.zfs'', ''snapshot''] cs"
  shows "Index (rooted (cs @ ''.zfs'' # ''snapshot'' # n # ds)) zfs_marker = Some (length (rooted cs))"
  using assms
proof (induction cs)
  case Nil
  then show ?case by (simp add: zfs_marker_def)
next
  case (Cons c cs)
  let ?rest = "cs @ ''.zfs'' # ''snapshot'' # n # ds"
  have "\<not> prefix zfs_marker (rooted (c # ?rest))"
  proof
    assume "prefix zfs_marker (rooted (c # ?rest))"
    with marker_prefix[of c ?rest] Cons.prems(1)
    obtain m es where m: "c = ''.zfs''" "?rest = ''snapshot'' # m # es" by auto
    then obtain cs' where "cs = ''snapshot'' # cs'" by (cases cs) auto
    with m have "c # cs = [] @ [''.zfs'', ''snapshot''] @ cs'" by simp
    with Cons.prems(2) show False unfolding sublist_def by blast
  qed
  moreover have "\<not> sublist [''.zfs'', ''snapshot''] cs"
    using Cons.prems(2) by (metis sublist_Cons_right)
  with Cons have "Index (rooted ?rest) zfs_marker = Some (length (rooted cs))" by simp
  moreover have "\<forall>x\<in>set c. x \<noteq> CHR ''/''" using Cons.prems(1) by auto
  then have "Index (c @ rooted ?rest) zfs_marker = map_option (\<lambda>i. length c + i) (Index (rooted ?rest) zfs_marker)"
    unfolding zfs_marker_def by (rule Index_skip)
  ultimately show ?case by simp
qed

lemma Cut_component:
  "CHR ''/'' \<notin> set n \<Longrightarrow> fst (Cut (n @ rooted ds) ''/'') = n"
  by (cases ds) auto

lemma snapshotNameFromPath_rooted:
  assumes "no_slash (cs @ n # ds)" "\<not> sublist [''.zfs'', ''snapshot''] cs"
  shows "snapshotNameFromPath (rooted (cs @ ''.zfs'' # ''snapshot'' # n # ds)) = n"
proof -
  let ?p = "rooted (cs @ ''.zfs'' # ''snapshot'' # n # ds)"
  have "?p = (rooted cs @ zfs_marker) @ n @ rooted ds"
    by (simp add: zfs_marker_def)
  then have d: "drop (length (rooted cs) + length zfs_marker) ?p = n @ rooted ds"
    by (simp only: length_append[symmetric] append_eq_conv_conj[symmetric]) simp
  show ?thesis
    unfolding snapshotNameFromPath_def Index_marker[OF assms] option.case d
    by (rule Cut_component) (use assms(1) in simp)
qed

lemma abs_comps_Join:
  assumes "IsAbs p" "list_all normal_comp es" "es \<noteq> []"
  shows "Path_Join (p # es) = abs_path (abs_comps p @ es)"
proof -
  have p: "p \<noteq> []" using assms(1) by auto
  have "\<forall>e\<in>set es. e \<noteq> []" using assms(2) unfolding list_all_iff normal_comp_def by blast
  with p have f: "filter (\<lambda>e. e \<noteq> []) (p # es) = p # es" by (auto intro: filter_True)
  have "Split (Join es ''/'') (CHR ''/'') = es"
    using assms(2,3) by (intro Split_Join) (auto simp: list_all_iff normal_comp_def)
  then have "abs_comps (Join (p # es) ''/'') = abs_comps p @ es"
    using assms by (simp add: Join_Cons abs_comps_def Split_append_Split clean_comps_append)
  moreover have "IsAbs (Join (p # es) ''/'')"
    using assms by (auto simp: IsAbs_def Join_Cons prefix_def)
  ultimately show ?thesis unfolding Path_Join_def f by (simp add: Clean_abs)
qed

text \<open>
  The components of a path below a mountpoint. A path in a dataset is the mountpoint's components
  followed by the sub-path's.
\<close>

definition zfs_dir :: "string list" where
  "zfs_dir = [''.zfs'', ''snapshot'']"

lemma zfs_dir_normal: "list_all normal_comp zfs_dir"
  by (simp add: zfs_dir_def normal_comp_def)

lemma readPath_comps:
  assumes "IsAbs mp" "normal_comp snap" "list_all normal_comp rest" "sub = Join rest ''/''"
  shows "readPath mp snap sub = abs_path (abs_comps mp @ zfs_dir @ snap # rest)"
proof -
  have b: "Path_Join [mp, ''.zfs'', ''snapshot'', snap] = abs_path (abs_comps mp @ zfs_dir @ [snap])"
    using abs_comps_Join[of mp "[''.zfs'', ''snapshot'', snap]"] assms(1,2)
    by (simp add: zfs_dir_def normal_comp_def)
  show ?thesis
  proof (cases "rest = []")
    case True
    then show ?thesis using assms(4) b by (simp add: readPath_def)
  next
    case False
    then obtain r rs where r: "rest = r # rs" by (cases rest) auto
    have ne: "sub \<noteq> []" using assms(3,4) r by (cases rs) (auto simp: normal_comp_def)
    have bn: "list_all normal_comp (abs_comps mp @ zfs_dir @ [snap])"
      using assms(2) zfs_dir_normal by (simp add: abs_comps_normal)
    let ?base = "abs_path (abs_comps mp @ zfs_dir @ [snap])"
    have "Path_Join [?base, sub] = Path_Join (?base # rest)"
    proof -
      have "filter (\<lambda>e. e \<noteq> []) (?base # rest) = ?base # rest"
        using assms(3) by (auto simp: abs_path_def list_all_iff normal_comp_def intro: filter_True)
      then show ?thesis using ne assms(4) False by (simp add: Path_Join_def abs_path_def Join_Cons)
    qed
    also have "\<dots> = abs_path (abs_comps ?base @ rest)"
      using assms(3) False by (intro abs_comps_Join) simp_all
    also have "\<dots> = abs_path (abs_comps mp @ zfs_dir @ snap # rest)"
      using abs_comps_abs_path[OF bn] by simp
    finally show ?thesis using b ne by (simp add: readPath_def)
  qed
qed

lemma readPath_name:
  assumes "IsAbs mp" "normal_comp snap" "list_all normal_comp rest" "sub = Join rest ''/''"
    and "\<not> sublist zfs_dir (abs_comps mp)"
  shows "snapshotNameFromPath (readPath mp snap sub) = snap"
proof -
  have "no_slash (abs_comps mp @ snap # rest)"
    using assms(2,3) abs_comps_normal[of mp] by (intro normal_no_slash) simp
  then show ?thesis
    using snapshotNameFromPath_rooted[of "abs_comps mp" snap rest] assms
    by (simp add: readPath_comps abs_path_rooted zfs_dir_def)
qed

section \<open>The dataset of a path\<close>

text \<open>A mountpoint contains a path when its components are a prefix of the path's.\<close>

lemma sub_path_abs:
  assumes "list_all normal_comp ms" "list_all normal_comp ps"
  shows "sub_path (abs_path ms) (abs_path ps) =
    (if prefix ms ps then Some (Join (drop (length ms) ps) ''/'') else None)"
proof -
  consider (eq) "ms = ps" | (root) "ms = []" "ps \<noteq> []" | (under) "ms \<noteq> []" "strict_prefix ms ps"
    | (out) "ms \<noteq> []" "\<not> prefix ms ps"
    by (metis strict_prefix_def)
  then show ?thesis
  proof cases
    case eq
    then show ?thesis by (simp add: sub_path_def)
  next
    case root
    then have "abs_path ms \<noteq> abs_path ps" using assms abs_path_inject by blast
    then show ?thesis using root by (simp add: sub_path_def abs_path_def TrimPrefix_def)
  next
    case under
    then obtain es where es: "ps = ms @ es" "es \<noteq> []" by (auto simp: strict_prefix_def prefix_def)
    have "abs_path ms \<noteq> abs_path ps" using assms under abs_path_inject by (metis strict_prefix_def)
    moreover have "abs_path ms \<noteq> ''/''" using under abs_path_inject[of ms "[]"] assms by (auto simp: abs_path_def)
    moreover have "abs_path ps = (abs_path ms @ ''/'') @ Join es ''/''"
      using es under by (simp add: abs_path_def Join_append)
    ultimately show ?thesis using es by (simp only: sub_path_def TrimPrefix_append) simp
  next
    case out
    then have "abs_path ms \<noteq> abs_path ps" using assms abs_path_inject by auto
    moreover have "abs_path ms \<noteq> ''/''" using out abs_path_inject[of ms "[]"] assms by (auto simp: abs_path_def)
    moreover have "\<not> prefix (abs_path ms @ ''/'') (abs_path ps)"
      using out under_iff[OF assms(1) out(1) assms(2)] by (simp add: strict_prefix_def)
    ultimately show ?thesis using out by (simp add: sub_path_def)
  qed
qed

lemma dataset_loop_None:
  "dataset_loop p ds best = None \<longleftrightarrow> best = None \<and> (\<forall>d\<in>set ds. sub_path (Clean (ds_mountpoint d)) p = None)"
  by (induction p ds best rule: dataset_loop.induct) (auto simp: Let_def split: option.splits)

lemma dataset_loop_Some:
  assumes "dataset_loop p ds best = Some (d, sub, n)"
  shows "best = Some (d, sub, n) \<or>
      d \<in> set ds \<and> sub_path (Clean (ds_mountpoint d)) p = Some sub \<and> n = length (Clean (ds_mountpoint d))"
    and "\<forall>e\<in>set ds. sub_path (Clean (ds_mountpoint e)) p \<noteq> None \<longrightarrow> length (Clean (ds_mountpoint e)) \<le> n"
    and "\<forall>b c m. best = Some (b, c, m) \<longrightarrow> m \<le> n"
  using assms
proof (induction p ds best rule: dataset_loop.induct)
  case (2 p e ds best)
  let ?mp = "Clean (ds_mountpoint e)"
  case 1
  with 2 show ?case by (fastforce simp: Let_def split: option.splits if_splits prod.splits)
  case 2
  with "2.IH" show ?case by (fastforce simp: Let_def split: option.splits if_splits prod.splits)
  case 3
  with "2.IH" show ?case by (fastforce simp: Let_def split: option.splits if_splits prod.splits)
qed auto

definition contains_path :: "dataset \<Rightarrow> string \<Rightarrow> bool" where
  "contains_path d p \<longleftrightarrow> prefix (abs_comps (ds_mountpoint d)) (abs_comps p)"

definition abs_datasets :: "dataset list \<Rightarrow> bool" where
  "abs_datasets ds \<longleftrightarrow> list_all (\<lambda>d. IsAbs (ds_mountpoint d)) ds"

lemma sub_path_Clean:
  "IsAbs mp \<Longrightarrow> IsAbs p \<Longrightarrow> sub_path (Clean mp) (Clean p) =
    (if prefix (abs_comps mp) (abs_comps p) then Some (Join (drop (length (abs_comps mp)) (abs_comps p)) ''/'') else None)"
  by (simp add: Clean_abs sub_path_abs abs_comps_normal)

lemma abs_path_length_mono:
  assumes "strict_prefix cs ds" "list_all normal_comp ds"
  shows "length (abs_path cs) < length (abs_path ds)"
proof -
  from assms(1) obtain zs where "ds = cs @ zs" "zs \<noteq> []" by (auto simp: strict_prefix_def prefix_def)
  then obtain e es where ds: "ds = cs @ e # es" by (cases zs) auto
  with assms have "e \<noteq> []" by (simp add: normal_comp_def)
  with ds show ?thesis by (cases "cs = []") (auto simp: abs_path_rooted, simp add: abs_path_def)
qed

lemma datasetFor_None_aux:
  assumes "abs_datasets ds" "IsAbs p"
  shows "datasetFor p ds = None \<longleftrightarrow> (\<forall>d\<in>set ds. \<not> contains_path d p)"
  using assms
  by (auto simp: datasetFor_def dataset_loop_None abs_datasets_def list_all_iff sub_path_Clean contains_path_def)

lemma datasetFor_Some_aux:
  assumes abs: "abs_datasets ds" "IsAbs p" and r: "datasetFor p ds = Some (d, sub)"
  shows "d \<in> set ds" "contains_path d p"
    "sub = Join (drop (length (abs_comps (ds_mountpoint d))) (abs_comps p)) ''/''"
    "\<forall>e\<in>set ds. contains_path e p \<longrightarrow> prefix (abs_comps (ds_mountpoint e)) (abs_comps (ds_mountpoint d))"
proof -
  from r obtain n where l: "dataset_loop (Clean p) ds None = Some (d, sub, n)"
    by (auto simp: datasetFor_def)
  note s = dataset_loop_Some[OF l]
  from s(1) have d: "d \<in> set ds" and sp: "sub_path (Clean (ds_mountpoint d)) (Clean p) = Some sub"
    and n: "n = length (Clean (ds_mountpoint d))" by auto
  show "d \<in> set ds" by (rule d)
  have da: "IsAbs (ds_mountpoint d)" using abs(1) d by (simp add: abs_datasets_def list_all_iff)
  with sp abs(2) show c: "contains_path d p"
    and "sub = Join (drop (length (abs_comps (ds_mountpoint d))) (abs_comps p)) ''/''"
    by (auto simp: sub_path_Clean contains_path_def split: if_splits)
  show "\<forall>e\<in>set ds. contains_path e p \<longrightarrow> prefix (abs_comps (ds_mountpoint e)) (abs_comps (ds_mountpoint d))"
  proof (intro ballI impI)
    fix e assume e: "e \<in> set ds" "contains_path e p"
    have ea: "IsAbs (ds_mountpoint e)" using abs(1) e by (simp add: abs_datasets_def list_all_iff)
    with e abs(2) have "sub_path (Clean (ds_mountpoint e)) (Clean p) \<noteq> None"
      by (simp add: sub_path_Clean contains_path_def)
    with s(2) e have "length (Clean (ds_mountpoint e)) \<le> length (Clean (ds_mountpoint d))"
      by (simp add: n)
    with abs_path_length_mono[OF _ abs_comps_normal, of "abs_comps (ds_mountpoint d)" "ds_mountpoint e"]
    have "\<not> strict_prefix (abs_comps (ds_mountpoint d)) (abs_comps (ds_mountpoint e))"
      using da ea by (auto simp: Clean_abs)
    moreover have "prefix (abs_comps (ds_mountpoint e)) (abs_comps (ds_mountpoint d)) \<or>
        prefix (abs_comps (ds_mountpoint d)) (abs_comps (ds_mountpoint e))"
      using c e(2) prefix_same_cases unfolding contains_path_def by blast
    ultimately show "prefix (abs_comps (ds_mountpoint e)) (abs_comps (ds_mountpoint d))"
      by (auto simp: strict_prefix_def)
  qed
qed

section \<open>Pools: properties\<close>

lemma map_of_list_of: "map_of m k = None \<Longrightarrow> list_of m k = []"
  by (simp add: list_of_def)

lemma list_of_update: "list_of (AList.update k v m) k' = (if k = k' then v else list_of m k')"
  by (simp add: list_of_def update_conv)

lemma pool_loop_inv:
  assumes "pool_loop ss order groups = (order', groups')" "set order = dom (map_of groups)" "distinct order"
  shows "distinct order' \<and> set order' = set order \<union> pool_of ` set ss \<and>
    (\<forall>p. list_of groups' p = list_of groups p @ filter (\<lambda>s. pool_of s = p) ss)"
  using assms
proof (induction ss order groups rule: pool_loop.induct)
  case (2 s ss order groups)
  let ?o = "if map_of groups (pool_of s) = None then order @ [pool_of s] else order"
  let ?g = "AList.update (pool_of s) (list_of groups (pool_of s) @ [s]) groups"
  have l: "pool_loop ss ?o ?g = (order', groups')" using 2(2) by (simp add: Let_def)
  have so: "set ?o = insert (pool_of s) (set order)" using 2(3) by (auto simp: dom_def)
  then have "set ?o = dom (map_of ?g)" using 2(3) by (auto simp: update_conv dom_def)
  moreover have "distinct ?o" using 2(3,4) by (auto simp: dom_def)
  ultimately show ?case
    using 2(1)[OF refl refl l] so by (auto simp: list_of_update)
qed auto

lemma groupByPool_eq:
  obtains order where "distinct order" "set order = pool_of ` set ss"
    "groupByPool ss = map (\<lambda>p. filter (\<lambda>s. pool_of s = p) ss) order"
proof -
  obtain order groups where p: "pool_loop ss [] [] = (order, groups)" by (meson surj_pair)
  have l: "list_of groups q = filter (\<lambda>s. pool_of s = q) ss" for q
    using pool_loop_inv[OF p] by (simp add: list_of_def)
  show thesis
    by (rule that[of order]) (use pool_loop_inv[OF p] l in \<open>simp_all add: groupByPool_def p cong: map_cong\<close>)
qed

lemma groupByPool_set: "set (concat (groupByPool ss)) = set ss"
proof -
  obtain order where "set order = pool_of ` set ss"
    "groupByPool ss = map (\<lambda>p. filter (\<lambda>s. pool_of s = p) ss) order" by (rule groupByPool_eq)
  then show ?thesis by auto
qed

section \<open>Taking snapshots: properties\<close>

text \<open>
  The documented behaviour of the host's \<^verbatim>\<open>zfs\<close>, over the set of its snapshots: one
  \<^verbatim>\<open>snapshot\<close> call is all or nothing and refuses an existing name, \<^verbatim>\<open>destroy\<close>
  removes its argument or fails, \<^verbatim>\<open>list\<close> changes nothing.
\<close>

definition zfs_host :: "'w zfs \<Rightarrow> ('w \<Rightarrow> string set) \<Rightarrow> bool" where
  "zfs_host z snaps \<longleftrightarrow>
     (\<forall>x g w. case z_run z x (''snapshot'' # g) w of
        (Inl _, w') \<Rightarrow> snaps w' = snaps w
      | (Inr _, w') \<Rightarrow> snaps w \<inter> set g = {} \<and> snaps w' = snaps w \<union> set g) \<and>
     (\<forall>x s w. case z_run z x [''destroy'', s] w of
        (Inl _, w') \<Rightarrow> snaps w' = snaps w
      | (Inr _, w') \<Rightarrow> snaps w' = snaps w - {s}) \<and>
     (\<forall>x args w. snaps (snd (z_run z x (''list'' # args) w)) = snaps w) \<and>
     (\<forall>x w. snaps (snd (z_reap z x w)) = snaps w)"

text \<open>A destroy that no cancel can reach succeeds.\<close>

definition destroys_ok :: "'w zfs \<Rightarrow> ctx \<Rightarrow> bool" where
  "destroys_ok z x \<longleftrightarrow> (\<forall>s w. \<exists>out w'. z_run z x [''destroy'', s] w = (Inr out, w'))"

definition destroys_work :: "'w zfs \<Rightarrow> bool" where
  "destroys_work z \<longleftrightarrow> (\<forall>x. \<not> follows_caller x \<longrightarrow> destroys_ok z x)"

lemma zfs_hostD:
  assumes "zfs_host z snaps"
  shows "z_run z x (''snapshot'' # g) w = (Inl e, w') \<Longrightarrow> snaps w' = snaps w"
    "z_run z x (''snapshot'' # g) w = (Inr out, w') \<Longrightarrow> snaps w \<inter> set g = {} \<and> snaps w' = snaps w \<union> set g"
    "z_run z x [''destroy'', s] w = (Inl e, w') \<Longrightarrow> snaps w' = snaps w"
    "z_run z x [''destroy'', s] w = (Inr out, w') \<Longrightarrow> snaps w' = snaps w - {s}"
    "z_run z x (''list'' # args) w = (r, w') \<Longrightarrow> snaps w' = snaps w"
    "z_reap z x w = (nr, w') \<Longrightarrow> snaps w' = snaps w"
proof -
  note d = assms[unfolded zfs_host_def]
  note h1 = d[THEN conjunct1] and h2 = d[THEN conjunct2, THEN conjunct1]
    and h3 = d[THEN conjunct2, THEN conjunct2, THEN conjunct1]
    and h4 = d[THEN conjunct2, THEN conjunct2, THEN conjunct2]
  show "z_run z x (''snapshot'' # g) w = (Inl e, w') \<Longrightarrow> snaps w' = snaps w"
    "z_run z x (''snapshot'' # g) w = (Inr out, w') \<Longrightarrow> snaps w \<inter> set g = {} \<and> snaps w' = snaps w \<union> set g"
    using h1[THEN spec, of x, THEN spec, of g, THEN spec, of w] by simp_all
  show "z_run z x [''destroy'', s] w = (Inl e, w') \<Longrightarrow> snaps w' = snaps w"
    "z_run z x [''destroy'', s] w = (Inr out, w') \<Longrightarrow> snaps w' = snaps w - {s}"
    using h2[THEN spec, of x, THEN spec, of s, THEN spec, of w] by simp_all
  show "z_run z x (''list'' # args) w = (r, w') \<Longrightarrow> snaps w' = snaps w"
    "z_reap z x w = (nr, w') \<Longrightarrow> snaps w' = snaps w"
    using h3[THEN spec, of x, THEN spec, of args, THEN spec, of w] h4[THEN spec, of x, THEN spec, of w] by simp_all
qed

lemma destroy_all_snaps:
  assumes "zfs_host z snaps" "destroys_work z" "\<not> follows_caller x"
  shows "snaps (destroy_all z x ss w) = snaps w - set ss"
proof (induction ss arbitrary: w)
  case (Cons s ss)
  from assms(2,3) obtain out w' where "z_run z x [''destroy'', s] w = (Inr out, w')"
    unfolding destroys_work_def destroys_ok_def by blast
  with Cons zfs_hostD(4)[OF assms(1)] show ?case by auto
qed simp

lemma take_groups_snaps:
  assumes "zfs_host z snaps" "destroys_work z" "snaps w = S \<union> set taken" "S \<inter> set taken = {}"
  shows "case take_groups z x gs taken w of
      (Some e, w') \<Rightarrow> snaps w' = S
    | (None, w') \<Rightarrow> snaps w' = S \<union> set taken \<union> set (concat gs) \<and> S \<inter> (set taken \<union> set (concat gs)) = {}"
  using assms(3,4)
proof (induction gs arbitrary: taken w)
  case (Cons g gs)
  obtain r w1 where r: "z_run z x (''snapshot'' # g) w = (r, w1)" by (meson surj_pair)
  show ?case
  proof (cases r)
    case (Inl e)
    then have "snaps w1 = snaps w" using r zfs_hostD(1)[OF assms(1)] by blast
    with Cons.prems show ?thesis
      by (auto simp: r Inl destroy_all_snaps[OF assms(1,2)])
  next
    case (Inr out)
    then have "snaps w \<inter> set g = {}" "snaps w1 = snaps w \<union> set g"
      using r zfs_hostD(2)[OF assms(1)] by blast+
    with Cons.prems Cons.IH[of w1 "taken @ g"] show ?thesis
      by (simp add: r Inr Int_Un_distrib Un_assoc Int_commute Int_Un_distrib2 split: prod.splits option.splits)
  qed
qed simp

text \<open>Where a planned source is read, and which snapshot it is read from.\<close>

definition planned :: "dataset list \<Rightarrow> string \<Rightarrow> snap_source \<Rightarrow> snap_mount \<Rightarrow> bool" where
  "planned ds sfx s m \<longleftrightarrow> (\<exists>d sub. datasetFor (ss_HostPath s) ds = Some (d, sub) \<and>
     m = \<lparr>sm_Name = ss_Name s, sm_HostPath = readPath (ds_mountpoint d) sfx sub\<rparr>)"

lemma plan_snaps_Inr:
  assumes "plan_snaps ds sfx ss bys names ms = Inr (names', ms')"
    and "set names = (\<lambda>n. n @ ''@'' @ sfx) ` dom (map_of bys)"
  shows "\<exists>new. ms' = ms @ new \<and> list_all2 (planned ds sfx) ss new \<and>
    set names' = set names \<union> {ds_name d @ ''@'' @ sfx | d sub s. s \<in> set ss \<and> datasetFor (ss_HostPath s) ds = Some (d, sub)}"
  using assms
proof (induction ds sfx ss bys names ms rule: plan_snaps.induct)
  case (2 ds sfx s ss bys names ms)
  from 2(3) obtain d sub where d: "datasetFor (ss_HostPath s) ds = Some (d, sub)"
    by (auto split: option.splits)
  let ?m = "\<lparr>sm_Name = ss_Name s, sm_HostPath = readPath (ds_mountpoint d) sfx sub\<rparr>"
  let ?full = "ds_name d @ ''@'' @ sfx"
  let ?bys = "if map_of bys (ds_name d) = None then AList.update (ds_name d) ?full bys else bys"
  let ?names = "if map_of bys (ds_name d) = None then names @ [?full] else names"
  have n: "set ?names = insert ?full (set names)" using 2(4) by auto
  have inv: "set ?names = (\<lambda>n. n @ ''@'' @ sfx) ` dom (map_of ?bys)"
    using 2(4) by (auto simp: update_conv dom_def)
  have "plan_snaps ds sfx ss ?bys ?names (ms @ [?m]) = Inr (names', ms')"
    using 2(3) d by (auto simp: Let_def split: if_splits)
  then have "\<exists>new. ms' = (ms @ [?m]) @ new \<and> list_all2 (planned ds sfx) ss new \<and>
      set names' = set ?names \<union> {ds_name d @ ''@'' @ sfx | d sub s. s \<in> set ss \<and> datasetFor (ss_HostPath s) ds = Some (d, sub)}"
    using 2(1,2)[OF d refl refl refl] inv by (cases "map_of bys (ds_name d) = None") auto
  then obtain new where new: "ms' = ms @ ?m # new" "list_all2 (planned ds sfx) ss new"
    "set names' = set ?names \<union> {ds_name d @ ''@'' @ sfx | d sub s. s \<in> set ss \<and> datasetFor (ss_HostPath s) ds = Some (d, sub)}"
    by auto
  show ?case
  proof (intro exI conjI)
    show "list_all2 (planned ds sfx) (s # ss) (?m # new)" using new(2) d by (simp add: planned_def)
    show "set names' = set names \<union> {ds_name d @ ''@'' @ sfx | d sub s'. s' \<in> set (s # ss) \<and> datasetFor (ss_HostPath s') ds = Some (d, sub)}"
      unfolding new(3) n using d by auto
  qed (rule new(1))
qed auto

text \<open>What a call of \<open>Snapshot\<close> goes through when it succeeds.\<close>

lemma zfs_Snapshot_InrE:
  assumes "zfs_Snapshot z x app srcs w = (Inr (ms, cl), w')"
  obtains out w1 names where "z_run z x list_filesystems w = (Inr out, w1)"
    "plan_snaps (parseDatasets out) (snapSuffix (z_instance z) app (z_now z w1)) srcs [] [] [] = Inr (names, ms)"
    "take_groups z x (groupByPool names) [] w1 = (None, w')" "cl = (\<lambda>c. destroy_all z c names)"
proof -
  from assms obtain out w1 where o: "z_run z x list_filesystems w = (Inr out, w1)"
    by (auto simp: zfs_Snapshot_def split: prod.splits sum.splits)
  let ?sfx = "snapSuffix (z_instance z) app (z_now z w1)"
  from assms o obtain names where p: "plan_snaps (parseDatasets out) ?sfx srcs [] [] [] = Inr (names, ms)"
    by (auto simp: zfs_Snapshot_def Let_def split: prod.splits sum.splits option.splits)
  have "take_groups z x (groupByPool names) [] w1 = (None, w')" "cl = (\<lambda>c. destroy_all z c names)"
    using assms o p by (auto simp: zfs_Snapshot_def Let_def split: prod.splits option.splits)
  with o p show thesis by (rule that)
qed

lemma zfs_Snapshot_snaps:
  assumes host: "zfs_host z snaps" "destroys_work z"
  shows "zfs_Snapshot z x app srcs w = (Inl e, w') \<Longrightarrow> snaps w' = snaps w"
    and "zfs_Snapshot z x app srcs w = (Inr (ms, cl), w') \<Longrightarrow>
      snaps w \<subseteq> snaps w' \<and> (\<forall>y u. \<not> follows_caller y \<longrightarrow> snaps (cl y u) = snaps u - (snaps w' - snaps w))"
proof -
  have list: "z_run z x list_filesystems w = (r, w1) \<Longrightarrow> snaps w1 = snaps w" for r w1
    using zfs_hostD(5)[OF host(1)] unfolding list_filesystems_def by blast
  note tg = take_groups_snaps[OF host, where taken = "[]", simplified]
  show "zfs_Snapshot z x app srcs w = (Inl e, w') \<Longrightarrow> snaps w' = snaps w"
    using tg list by (fastforce simp: zfs_Snapshot_def Let_def split: prod.splits sum.splits option.splits)
  assume "zfs_Snapshot z x app srcs w = (Inr (ms, cl), w')"
  then obtain out w1 names where o: "z_run z x list_filesystems w = (Inr out, w1)"
    and t: "take_groups z x (groupByPool names) [] w1 = (None, w')" and cl: "cl = (\<lambda>c. destroy_all z c names)"
    by (rule zfs_Snapshot_InrE)
  have "snaps w' = snaps w \<union> set names \<and> snaps w \<inter> set names = {}"
    using tg[where w = w1 and S = "snaps w" and x = x and gs = "groupByPool names"] list[OF o] t groupByPool_set[of names] by simp
  then show "snaps w \<subseteq> snaps w' \<and> (\<forall>y u. \<not> follows_caller y \<longrightarrow> snaps (cl y u) = snaps u - (snaps w' - snaps w))"
    using destroy_all_snaps[OF host] by (auto simp: cl)
qed

lemma zfs_Snapshot_planned:
  assumes "zfs_Snapshot z x app srcs w = (Inr (ms, cl), w')"
  obtains out w1 where "z_run z x list_filesystems w = (Inr out, w1)"
    "list_all2 (planned (parseDatasets out) (snapSuffix (z_instance z) app (z_now z w1))) srcs ms"
proof -
  from assms obtain out w1 names where o: "z_run z x list_filesystems w = (Inr out, w1)"
    and p: "plan_snaps (parseDatasets out) (snapSuffix (z_instance z) app (z_now z w1)) srcs [] [] [] = Inr (names, ms)"
    by (rule zfs_Snapshot_InrE)
  from plan_snaps_Inr[OF p] have "list_all2 (planned (parseDatasets out) (snapSuffix (z_instance z) app (z_now z w1))) srcs ms"
    by auto
  with o show thesis by (rule that)
qed

text \<open>The contract every provider gives the orchestrator, provided by the zfs snapshotter.\<close>

locale snapshot_provider =
  fixes sn :: "'w snapshotter"
  assumes Snapshot_names: "sn_Snapshot sn x app srcs w = (Inr (ms, cl), w') \<Longrightarrow> map sm_Name ms = map ss_Name srcs"
    and Resolve_names: "sn_Resolve sn x srcs w = (Inr rs, w') \<Longrightarrow>
      map rs_Name rs = map ss_Name srcs \<and> map rs_HostPath rs = map ss_HostPath srcs"
begin

lemma Snapshot_length: "sn_Snapshot sn x app srcs w = (Inr (ms, cl), w') \<Longrightarrow> length ms = length srcs"
  by (metis Snapshot_names length_map)

lemma Snapshot_distinct:
  "sn_Snapshot sn x app srcs w = (Inr (ms, cl), w') \<Longrightarrow> distinct (map ss_Name srcs) \<Longrightarrow> distinct (map sm_Name ms)"
  by (simp add: Snapshot_names)

end

lemma planned_names: "list_all2 (planned ds sfx) srcs ms \<Longrightarrow> map sm_Name ms = map ss_Name srcs"
  by (induction rule: list_all2_induct) (auto simp: planned_def)

interpretation zfs: snapshot_provider "zfs_snapshotter z" for z
proof
  fix x app srcs w ms cl w'
  assume "sn_Snapshot (zfs_snapshotter z) x app srcs w = (Inr (ms, cl), w')"
  then have "zfs_Snapshot z x app srcs w = (Inr (ms, cl), w')" by (simp add: zfs_snapshotter_def)
  then show "map sm_Name ms = map ss_Name srcs" by (rule zfs_Snapshot_planned) (rule planned_names)
next
  fix x srcs w rs w'
  assume "sn_Resolve (zfs_snapshotter z) x srcs w = (Inr rs, w')"
  then obtain out where "rs = map (resolve_source (parseDatasets out)) srcs"
    by (auto simp: zfs_snapshotter_def zfs_Resolve_def split: prod.splits sum.splits)
  then show "map rs_Name rs = map ss_Name srcs \<and> map rs_HostPath rs = map ss_HostPath srcs"
    by (auto simp: resolve_source_def split: option.splits prod.splits)
qed

section \<open>Names and reaping: properties\<close>

lemma zfs_sanitize_chars: "c \<in> set (zfs_sanitize s) \<Longrightarrow> zfs_char c"
proof -
  have app: "list_all zfs_char ''app''" by code_simp
  have "c \<in> set (dash_runes zfs_char s) \<Longrightarrow> zfs_char c"
    by (auto dest: dash_runes_chars simp: zfs_char_def)
  with app show "c \<in> set (zfs_sanitize s) \<Longrightarrow> zfs_char c"
    unfolding zfs_sanitize_def Let_def list_all_iff by (metis (full_types))
qed

lemma zfs_char_ascii: "zfs_char c \<Longrightarrow> c \<noteq> CHR ''/'' \<and> c \<noteq> CHR ''@''"
  by (auto simp: zfs_char_def is_alnum_def is_digit_def char_le_iff)

lemma zfs_sanitize_not_Nil [simp]: "zfs_sanitize s \<noteq> []"
  by (simp add: zfs_sanitize_def Let_def)

lemma Itoa_chars: "c \<in> set (Itoa i) \<Longrightarrow> zfs_char c"
  by (auto simp: Itoa_def zfs_char_def is_alnum_def dest: digits_are_digits split: if_splits)

lemma snapSuffix_chars: "c \<in> set (snapSuffix inst app now) \<Longrightarrow> zfs_char c"
proof -
  have "list_all zfs_char ''sabon-''" by code_simp
  then have p: "c \<in> set ''sabon-'' \<Longrightarrow> zfs_char c" unfolding list_all_iff by blast
  have d: "c \<in> set ''-'' \<Longrightarrow> zfs_char c" by (simp add: zfs_char_def)
  show "c \<in> set (snapSuffix inst app now) \<Longrightarrow> zfs_char c"
    unfolding snapSuffix_def snapPrefix_def set_append
    using p d zfs_sanitize_chars Itoa_chars by blast
qed

lemma snapSuffix_normal: "normal_comp (snapSuffix inst app now)"
proof -
  have "hd (snapSuffix inst app now) = CHR ''s''" "snapSuffix inst app now \<noteq> []"
    by (simp_all add: snapSuffix_def snapPrefix_def)
  moreover have "CHR ''/'' \<notin> set (snapSuffix inst app now)"
    using snapSuffix_chars zfs_char_ascii by blast
  ultimately show ?thesis by (auto simp: normal_comp_def)
qed

lemma snap_of_full: "CHR ''@'' \<notin> set n \<Longrightarrow> snap_of (n @ ''@'' @ s) = s"
  by (simp add: snap_of_def)

lemma ownsSnapshot_own:
  "CHR ''@'' \<notin> set n \<Longrightarrow> ownsSnapshot inst (n @ ''@'' @ snapSuffix inst app now)"
  by (simp add: ownsSnapshot_def snapSuffix_def)

lemma reap_loop_spares:
  assumes "zfs_host z snaps" "\<not> ownsSnapshot (z_instance z) s \<or> snap_of s \<in> set used" "s \<in> snaps w"
  shows "s \<in> snaps (snd (reap_loop z x used fulls n w))"
  using assms(3)
proof (induction fulls arbitrary: n w)
  case (Cons full rest)
  obtain r w1 where r: "z_run z x [''destroy'', full] w = (r, w1)" by (meson surj_pair)
  show ?case
  proof (cases "ownsSnapshot (z_instance z) full \<and> snap_of full \<notin> set used")
    case True
    with assms(2) have "full \<noteq> s" by auto
    then have "s \<in> snaps w1"
      using Cons.prems r zfs_hostD(3,4)[OF assms(1)] by (cases r) auto
    with Cons.IH True show ?thesis by (simp add: r split: sum.splits)
  next
    case False
    with Cons show ?thesis by auto
  qed
qed simp

lemma zfs_Reap_spares:
  assumes "zfs_host z snaps" "\<not> ownsSnapshot (z_instance z) s \<or> snap_of s \<in> set (in_use paths)" "s \<in> snaps w"
  shows "s \<in> snaps (snd (zfs_Reap z x paths w))"
proof -
  obtain n e w1 where r: "z_reap z x w = ((n, e), w1)" by (metis surj_pair)
  obtain l w2 where l: "z_run z x list_snapshots w1 = (l, w2)" by (meson surj_pair)
  have "s \<in> snaps w1" using zfs_hostD(6)[OF assms(1) r] assms(3) by simp
  moreover from this have "s \<in> snaps w2"
    using zfs_hostD(5)[OF assms(1)] l unfolding list_snapshots_def by metis
  ultimately show ?thesis
    using reap_loop_spares[OF assms(1,2)]
    by (auto simp: zfs_Reap_def r l split: option.splits sum.splits prod.splits) (metis snd_conv)
qed

lemma reap_loop_no_new:
  assumes "zfs_host z snaps" "full \<notin> snaps w"
  shows "full \<notin> snaps (snd (reap_loop z x used fs n w))"
  using assms(2)
proof (induction fs arbitrary: n w)
  case (Cons f fs)
  obtain r w1 where r: "z_run z x [''destroy'', f] w = (r, w1)" by (meson surj_pair)
  then have "full \<notin> snaps w1" using Cons.prems zfs_hostD(3,4)[OF assms(1)] by (cases r) auto
  with Cons r show ?case by (auto split: sum.splits)
qed simp

lemma reap_loop_destroys:
  assumes "zfs_host z snaps" "destroys_ok z x"
    and "full \<in> set fulls" "ownsSnapshot (z_instance z) full" "snap_of full \<notin> set used"
  shows "full \<notin> snaps (snd (reap_loop z x used fulls n w))"
  using assms(3)
proof (induction fulls arbitrary: n w)
  case (Cons f fs)
  obtain out w1 where r: "z_run z x [''destroy'', f] w = (Inr out, w1)"
    using assms(2) unfolding destroys_ok_def by blast
  show ?case
  proof (cases "f = full")
    case True
    then have "full \<notin> snaps w1" using zfs_hostD(4)[OF assms(1) r] by simp
    with True assms(4,5) reap_loop_no_new[OF assms(1)] show ?thesis by (simp add: r[unfolded True])
  next
    case False
    with Cons r show ?thesis by auto
  qed
qed simp

text \<open>
  The listing of a host: absolute mountpoints, none of them inside a snapshot directory, and dataset
  names without the snapshot separator.
\<close>

definition listing_ok :: "dataset list \<Rightarrow> bool" where
  "listing_ok ds \<longleftrightarrow> abs_datasets ds \<and>
     list_all (\<lambda>d. \<not> sublist zfs_dir (abs_comps (ds_mountpoint d)) \<and> CHR ''@'' \<notin> set (ds_name d)) ds"

lemma planned_reads:
  assumes ok: "listing_ok ds" and s: "IsAbs (ss_HostPath s)" and p: "planned ds (snapSuffix inst app now) s m"
  obtains d rest where "d \<in> set ds" "abs_comps (ss_HostPath s) = abs_comps (ds_mountpoint d) @ rest"
    "sm_HostPath m = abs_path (abs_comps (ds_mountpoint d) @ zfs_dir @ snapSuffix inst app now # rest)"
    "snapshotNameFromPath (sm_HostPath m) = snapSuffix inst app now"
proof -
  let ?sfx = "snapSuffix inst app now"
  from p obtain d sub where d: "datasetFor (ss_HostPath s) ds = Some (d, sub)"
    and m: "sm_HostPath m = readPath (ds_mountpoint d) ?sfx sub"
    unfolding planned_def by (metis snap_mount.select_convs(2))
  have a: "abs_datasets ds" using ok by (simp add: listing_ok_def)
  note ds = datasetFor_Some_aux[OF a s d]
  let ?rest = "drop (length (abs_comps (ds_mountpoint d))) (abs_comps (ss_HostPath s))"
  have da: "IsAbs (ds_mountpoint d)" using a ds(1) by (simp add: abs_datasets_def list_all_iff)
  have rn: "list_all normal_comp ?rest"
    using abs_comps_normal[of "ss_HostPath s"] by (metis append_take_drop_id list_all_append)
  have eq: "abs_comps (ss_HostPath s) = abs_comps (ds_mountpoint d) @ ?rest"
    using ds(2) by (auto simp: contains_path_def prefix_def)
  show thesis
  proof (rule that[OF ds(1) eq])
    show "sm_HostPath m = abs_path (abs_comps (ds_mountpoint d) @ zfs_dir @ ?sfx # ?rest)"
      unfolding m by (rule readPath_comps[OF da snapSuffix_normal rn ds(3)])
    show "snapshotNameFromPath (sm_HostPath m) = ?sfx"
      unfolding m using ok ds(1)
      by (intro readPath_name[OF da snapSuffix_normal rn ds(3)]) (simp add: listing_ok_def list_all_iff)
  qed
qed

lemma zfs_Reap_no_new:
  assumes "zfs_host z snaps" "s \<in> snaps (snd (zfs_Reap z x paths w))"
  shows "s \<in> snaps w"
proof (rule ccontr)
  assume False: "s \<notin> snaps w"
  obtain n e w1 where r: "z_reap z x w = ((n, e), w1)" by (metis surj_pair)
  obtain l w2 where l: "z_run z x list_snapshots w1 = (l, w2)" by (meson surj_pair)
  have "s \<notin> snaps w1" using zfs_hostD(6)[OF assms(1) r] False by simp
  moreover from this have "s \<notin> snaps w2"
    using zfs_hostD(5)[OF assms(1)] l unfolding list_snapshots_def by metis
  ultimately show False
    using reap_loop_no_new[OF assms(1)] assms(2)
    by (auto simp: zfs_Reap_def r l split: option.splits sum.splits prod.splits) (metis snd_conv)
qed

lemma zfs_Reap_destroys:
  assumes "zfs_host z snaps" "destroys_ok z x" "zfs_Reap z x paths w = ((n, None), w')"
    and list: "\<And>out u'. z_run z x list_snapshots (snd (z_reap z x w)) = (Inr out, u') \<Longrightarrow>
      snaps w \<subseteq> set (Split (TrimSpace out) (CHR 0x0A))"
    and "ownsSnapshot (z_instance z) full" "snap_of full \<notin> set (in_use paths)"
  shows "full \<notin> snaps w'"
proof (cases "full \<in> snaps w")
  case True
  from assms(3) obtain k w1 out w2 where r: "z_reap z x w = ((k, None), w1)"
    and l: "z_run z x list_snapshots w1 = (Inr out, w2)"
    by (auto simp: zfs_Reap_def split: prod.splits option.splits sum.splits)
  have "full \<in> set (Split (TrimSpace out) (CHR 0x0A))" using list[of out w2] True by (auto simp: r l)
  moreover have "w' = snd (reap_loop z x (in_use paths) (Split (TrimSpace out) (CHR 0x0A)) k w2)"
    using assms(3) by (auto simp: zfs_Reap_def r l split: prod.splits)
  ultimately show ?thesis using reap_loop_destroys[OF assms(1,2) _ assms(5,6)] by simp
next
  case False
  then show ?thesis using zfs_Reap_no_new[OF assms(1)] assms(3) by (metis snd_conv)
qed

lemma listed_snapshot_planned:
  assumes host: "zfs_host z snaps" "destroys_work z"
    and r: "zfs_Snapshot z x app srcs w = (Inr (ms, cl), w')" and m: "m \<in> set ms"
    and ok: "\<And>out u. z_run z x list_filesystems w = (Inr out, u) \<Longrightarrow> listing_ok (parseDatasets out)"
    and abs: "\<And>s. s \<in> set srcs \<Longrightarrow> IsAbs (ss_HostPath s)"
  shows "\<exists>full \<in> snaps w' - snaps w. snap_of full = snapshotNameFromPath (sm_HostPath m) \<and>
    snap_of full \<noteq> [] \<and> ownsSnapshot (z_instance z) full"
proof -
  from r obtain out w1 names where o: "z_run z x list_filesystems w = (Inr out, w1)"
    and p: "plan_snaps (parseDatasets out) (snapSuffix (z_instance z) app (z_now z w1)) srcs [] [] [] = Inr (names, ms)"
    and t: "take_groups z x (groupByPool names) [] w1 = (None, w')" by (rule zfs_Snapshot_InrE)
  let ?sfx = "snapSuffix (z_instance z) app (z_now z w1)"
  have w1: "snaps w1 = snaps w" using zfs_hostD(5)[OF host(1)] o unfolding list_filesystems_def by metis
  have new: "snaps w' = snaps w \<union> set names \<and> snaps w \<inter> set names = {}"
    using take_groups_snaps[OF host, where taken = "[]" and w = w1 and S = "snaps w" and x = x and gs = "groupByPool names"]
      t w1 groupByPool_set[of names] by simp
  from plan_snaps_Inr[OF p] have l: "list_all2 (planned (parseDatasets out) ?sfx) srcs ms"
    and nm: "set names = {ds_name d @ ''@'' @ ?sfx | d sub s. s \<in> set srcs \<and> datasetFor (ss_HostPath s) (parseDatasets out) = Some (d, sub)}"
    by auto
  from m obtain i where "i < length ms" "m = ms ! i" by (auto simp: in_set_conv_nth)
  with l have "i < length srcs" "planned (parseDatasets out) ?sfx (srcs ! i) m"
    by (simp_all add: list_all2_conv_all_nth)
  then obtain s where s: "s \<in> set srcs" "planned (parseDatasets out) ?sfx s m" using nth_mem by blast
  then obtain d sub where d: "datasetFor (ss_HostPath s) (parseDatasets out) = Some (d, sub)"
    by (auto simp: planned_def)
  have lok: "listing_ok (parseDatasets out)" using ok o by blast
  have name: "snapshotNameFromPath (sm_HostPath m) = ?sfx"
    by (rule planned_reads[OF lok abs[OF s(1)] s(2)])
  have "d \<in> set (parseDatasets out)"
    using lok d abs[OF s(1)] datasetFor_Some_aux(1) unfolding listing_ok_def by blast
  then have at: "CHR ''@'' \<notin> set (ds_name d)" using lok by (simp add: listing_ok_def list_all_iff)
  have "ds_name d @ ''@'' @ ?sfx \<in> snaps w' - snaps w" using new nm s(1) d by blast
  with at name snap_of_full[OF at, of ?sfx] ownsSnapshot_own[OF at, of "z_instance z" app]
    snapSuffix_normal[of "z_instance z" app "z_now z w1"] show ?thesis
    by (intro bexI[of _ "ds_name d @ ''@'' @ ?sfx"]) (simp_all add: normal_comp_def)
qed

section \<open>A host in memory\<close>

text \<open>
  A concrete host for the witnesses: two pools, \<^verbatim>\<open>tank\<close> and \<^verbatim>\<open>cold\<close>, the world the list
  of its snapshots. Snapshots on \<^verbatim>\<open>cold\<close> are refused, as on a read-only pool.
\<close>

definition mem_listing :: string where
  "mem_listing = ''tank'' @ [CHR 0x09] @ ''/tank'' @ [CHR 0x0A] @ ''tank/db'' @ [CHR 0x09] @ ''/tank/db'' @ [CHR 0x0A]
     @ ''cold'' @ [CHR 0x09] @ ''/cold'' @ [CHR 0x0A]"

fun mem_run :: "ctx \<Rightarrow> string list \<Rightarrow> string list \<Rightarrow> string res \<times> string list" where
  "mem_run x [] w = (Inl (External ''usage''), w)"
| "mem_run x (cmd # args) w =
     (if cmd = ''snapshot'' then
        (if set w \<inter> set args = {} \<and> list_all (\<lambda>s. pool_of s \<noteq> ''cold'') args then (Inr [], w @ args)
         else (Inl (External ''cannot create snapshots''), w))
      else if cmd = ''destroy'' then (Inr [], filter (\<lambda>s. s \<noteq> hd args) w)
      else if cmd = ''list'' \<and> args = tl list_snapshots then (Inr (Join w [CHR 0x0A]), w)
      else if cmd = ''list'' then (Inr mem_listing, w)
      else (Inl (External ''usage''), w))"

definition mem_zfs :: "string list zfs" where
  "mem_zfs = \<lparr>z_run = mem_run, z_reap = (\<lambda>x w. ((0, None), w)), z_now = (\<lambda>w. 7), z_instance = []\<rparr>"

lemma mem_zfs_host: "zfs_host mem_zfs set"
  by (auto simp: zfs_host_def mem_zfs_def)

lemma mem_zfs_destroys: "destroys_ok mem_zfs x" "destroys_work mem_zfs"
  by (simp_all add: destroys_ok_def destroys_work_def mem_zfs_def)

lemma mem_parse: "parseDatasets mem_listing =
  [\<lparr>ds_name = ''tank'', ds_mountpoint = ''/tank''\<rparr>, \<lparr>ds_name = ''tank/db'', ds_mountpoint = ''/tank/db''\<rparr>,
   \<lparr>ds_name = ''cold'', ds_mountpoint = ''/cold''\<rparr>]"
  by code_simp

definition mem_sources :: "snap_source list" where
  "mem_sources = [\<lparr>ss_Name = ''db'', ss_HostPath = ''/tank/db/data''\<rparr>, \<lparr>ss_Name = ''web'', ss_HostPath = ''/tank/web''\<rparr>]"

lemma mem_snapshot:
  "map_sum id fst (fst (zfs_Snapshot mem_zfs Caller ''app'' mem_sources [])) =
    Inr [\<lparr>sm_Name = ''db'', sm_HostPath = ''/tank/db/.zfs/snapshot/sabon-default-app-7/data''\<rparr>,
         \<lparr>sm_Name = ''web'', sm_HostPath = ''/tank/.zfs/snapshot/sabon-default-app-7/web''\<rparr>]"
  "snd (zfs_Snapshot mem_zfs Caller ''app'' mem_sources []) =
    [''tank/db@sabon-default-app-7'', ''tank@sabon-default-app-7'']"
  by code_simp+

section \<open>Claims\<close>





text \<open>
  \<open>Reap\<close> removes exactly the orphans. When the reap of the containers and the listing succeed and
  destroys work, the snapshots left are those that carry no name of this instance and those whose
  name is read from a path in use.
\<close>

theorem zfs_reap_exact:
  assumes "zfs_host z snaps" and "destroys_ok z x" and "zfs_Reap z x paths w = ((n, None), w')"
    and "\<forall>out u. z_run z x list_snapshots (snd (z_reap z x w)) = (Inr out, u) \<longrightarrow>
      snaps w \<subseteq> set (Split (TrimSpace out) (CHR 0x0A))"
  shows "snaps w' = {s \<in> snaps w. \<not> ownsSnapshot (z_instance z) s \<or> snap_of s \<in> set (in_use paths)}"
proof (intro equalityI subsetI)
  fix s assume "s \<in> {s \<in> snaps w. \<not> ownsSnapshot (z_instance z) s \<or> snap_of s \<in> set (in_use paths)}"
  then show "s \<in> snaps w'" using zfs_Reap_spares[OF assms(1), of s paths w x] assms(3) by auto
next
  fix s assume s: "s \<in> snaps w'"
  have "\<not> ownsSnapshot (z_instance z) s \<or> snap_of s \<in> set (in_use paths)"
    using zfs_Reap_destroys[OF assms(1-3)] assms(4) s by blast
  moreover have "s \<in> snaps w" using zfs_Reap_no_new[OF assms(1)] assms(3) s by (metis snd_conv)
  ultimately show "s \<in> {s \<in> snaps w. \<not> ownsSnapshot (z_instance z) s \<or> snap_of s \<in> set (in_use paths)}"
    by simp
qed

theorem zfs_reap_exact_witness:
  "set (snd (zfs_Reap mem_zfs Caller [''/tank/.zfs/snapshot/sabon-default-app-7/web'']
      [''tank@sabon-default-app-7'', ''tank@sabon-default-app-6'', ''tank@daily'']))
    = {''tank@sabon-default-app-7'', ''tank@daily''}"
proof -
  let ?w = "[''tank@sabon-default-app-7'', ''tank@sabon-default-app-6'', ''tank@daily'']"
  let ?ps = "[''/tank/.zfs/snapshot/sabon-default-app-7/web'']"
  have "snd (fst (zfs_Reap mem_zfs Caller ?ps ?w)) = None" by code_simp
  then obtain n w' where r: "zfs_Reap mem_zfs Caller ?ps ?w = ((n, None), w')" by (metis prod.collapse)
  have out: "z_run mem_zfs Caller list_snapshots (snd (z_reap mem_zfs Caller ?w)) = (Inr out, u) \<Longrightarrow> out = Join ?w [CHR 0x0A]" for out u
    by (auto simp: mem_zfs_def list_snapshots_def)
  have "set ?w \<subseteq> set (Split (TrimSpace (Join ?w [CHR 0x0A])) (CHR 0x0A))" by code_simp
  with out have l: "\<forall>out u. z_run mem_zfs Caller list_snapshots (snd (z_reap mem_zfs Caller ?w)) = (Inr out, u) \<longrightarrow>
      set ?w \<subseteq> set (Split (TrimSpace out) (CHR 0x0A))" by blast
  have "{s \<in> set ?w. \<not> ownsSnapshot (z_instance mem_zfs) s \<or> snap_of s \<in> set (in_use ?ps)} =
      {''tank@sabon-default-app-7'', ''tank@daily''}" by code_simp
  with zfs_reap_exact[OF mem_zfs_host mem_zfs_destroys(1) r l] show ?thesis by (simp add: r)
qed

text \<open>
  A path is snapshotted on the dataset that really holds it: \<open>datasetFor\<close> finds a dataset exactly
  when some mountpoint contains the path, the one it returns contains the path and is nested at least
  as deep as every other that does, and the sub-path it returns is the rest of the path.
\<close>

theorem zfs_dataset_innermost:
  assumes "abs_datasets ds" and "IsAbs p"
  shows "case datasetFor p ds of
      None \<Rightarrow> \<forall>d\<in>set ds. \<not> contains_path d p
    | Some (d, sub) \<Rightarrow>
        d \<in> set ds \<and>
        abs_comps p = abs_comps (ds_mountpoint d) @ drop (length (abs_comps (ds_mountpoint d))) (abs_comps p) \<and>
        sub = Join (drop (length (abs_comps (ds_mountpoint d))) (abs_comps p)) ''/'' \<and>
        (\<forall>e\<in>set ds. contains_path e p \<longrightarrow> prefix (abs_comps (ds_mountpoint e)) (abs_comps (ds_mountpoint d)))"
proof (cases "datasetFor p ds")
  case None
  then show ?thesis using datasetFor_None_aux[OF assms] by simp
next
  case (Some r)
  obtain d sub where r: "r = (d, sub)" by (cases r)
  note f = datasetFor_Some_aux[OF assms, of d sub]
  show ?thesis using f Some r by (auto simp: contains_path_def prefix_def)
qed

theorem zfs_dataset_innermost_witness:
  "case datasetFor ''/tank/db/data'' (parseDatasets mem_listing) of
      None \<Rightarrow> False
    | Some (d, sub) \<Rightarrow> ds_name d = ''tank/db'' \<and> sub = ''data'' \<and> prefix [''tank''] (abs_comps (ds_mountpoint d))"
proof -
  have a: "abs_datasets (parseDatasets mem_listing)" unfolding mem_parse by code_simp
  have e: "datasetFor ''/tank/db/data'' (parseDatasets mem_listing) =
      Some (\<lparr>ds_name = ''tank/db'', ds_mountpoint = ''/tank/db''\<rparr>, ''data'')"
    unfolding mem_parse by code_simp
  have i: "IsAbs ''/tank/db/data''" by code_simp
  have t: "\<lparr>ds_name = ''tank'', ds_mountpoint = ''/tank''\<rparr> \<in> set (parseDatasets mem_listing)"
    unfolding mem_parse by simp
  have c: "contains_path \<lparr>ds_name = ''tank'', ds_mountpoint = ''/tank''\<rparr> ''/tank/db/data''"
    "abs_comps ''/tank'' = [''tank'']" by code_simp+
  show ?thesis using zfs_dataset_innermost[OF a i] t c unfolding e by fastforce
qed

text \<open>
  The instance scope of a reap is a string prefix: the snapshots that an instance named \<open>a-b\<close>
  takes carry the prefix of the instance named \<open>a\<close>, so \<open>a\<close>'s reap destroys them when they are not in
  use by a mover of its own host, although the reap is meant to touch its own instance only.
\<close>

theorem zfs_instance_prefix_overlap:
  "ownsSnapshot ''a'' (''tank@'' @ snapSuffix ''a-b'' app now) \<and>
   snapPrefix ''a'' \<noteq> snapPrefix ''a-b''"
proof -
  have "snapPrefix ''a-b'' = snapPrefix ''a'' @ ''b-''" "snapPrefix ''a'' \<noteq> snapPrefix ''a-b''"
    by code_simp+
  moreover have "Cut (''tank@'' @ s) ''@'' = (''tank'', s, True)" for s
    using Cut_char[of "CHR ''@''" "''tank''" s] by simp
  ultimately show ?thesis by (simp add: ownsSnapshot_def snapSuffix_def)
qed

end
