(* ===== verification/Orchestrator.thy ===== *)
theory Orchestrator
  imports Config Runner Zfs
begin

text \<open>
  The backup orchestrator (\<^verbatim>\<open>internal/backup\<close>): one run of a backup, check, prune, snapshot list
  or restore, with its locks, its hooks, the cold stop of the app, the source snapshots and the
  mover. The runtime interfaces of \<^verbatim>\<open>internal/engine/engine.go\<close> (engine, hooks, quiescer, host) and
  the process (clock, environment, files) are the record \<open>runtime\<close> of functions over a world \<open>'w\<close>;
  \<open>Exec\<close> is an option, as the code asks for it by a type assertion. The state \<open>ostate\<close> holds what the
  orchestrator itself keeps: the cache flag, the holders of each cold stop, the repository locks
  held and the taken slots. A run is modelled in isolation here; the interleaving of several runs is
  the subject of \<open>Concurrency\<close>. The wait for a slot ends as \<open>rt_slot\<close> says: with the slot, or with the
  context's error.
\<close>

section \<open>Interfaces and state\<close>

record run_spec =
  run_Name :: string
  run_Image :: string
  run_Command :: "string list"
  run_User :: string
  run_Env :: "string list"
  run_Network :: string
  run_Volumes :: "string list"

record 'w runtime =
  rt_RunMover :: "ctx \<Rightarrow> request \<Rightarrow> 'w \<Rightarrow> run_outcome \<times> 'w"
  rt_ReapMovers :: "ctx \<Rightarrow> int \<Rightarrow> 'w \<Rightarrow> (nat \<times> error option) \<times> 'w"
  rt_RunOneShot :: "ctx \<Rightarrow> run_spec \<Rightarrow> 'w \<Rightarrow> error option \<times> 'w"
  rt_AppEnv :: "ctx \<Rightarrow> string \<Rightarrow> 'w \<Rightarrow> (string, string) gomap res \<times> 'w"
  rt_AppProject :: "ctx \<Rightarrow> string \<Rightarrow> 'w \<Rightarrow> string res \<times> 'w"
  rt_ReapHooks :: "ctx \<Rightarrow> 'w \<Rightarrow> (nat \<times> error option) \<times> 'w"
  rt_Exec :: "(ctx \<Rightarrow> string \<Rightarrow> string list \<Rightarrow> string list \<Rightarrow> string \<Rightarrow> 'w \<Rightarrow> error option \<times> 'w) option"
  rt_Stop :: "ctx \<Rightarrow> string \<Rightarrow> 'w \<Rightarrow> error option \<times> 'w"
  rt_Start :: "ctx \<Rightarrow> string \<Rightarrow> 'w \<Rightarrow> error option \<times> 'w"
  rt_EnsureCache :: "ctx \<Rightarrow> string \<Rightarrow> 'w \<Rightarrow> error option \<times> 'w"
  rt_VolumeHostPath :: "ctx \<Rightarrow> string \<Rightarrow> 'w \<Rightarrow> (string \<times> string) res \<times> 'w"
  rt_RunningMoverBinds :: "ctx \<Rightarrow> 'w \<Rightarrow> string list res \<times> 'w"
  rt_slot :: "ctx \<Rightarrow> 'w \<Rightarrow> error option \<times> 'w"
  rt_snaps :: "'w snapshotter list"
  rt_now :: "'w \<Rightarrow> int"

text \<open>What does not change during the orchestrator's life: configuration, image, environment, files.\<close>

record orch =
  o_cfg :: config
  o_image :: string
  o_getenv :: "string \<Rightarrow> string"
  o_regular :: "string \<Rightarrow> bool"
  o_ParseDuration :: "string \<Rightarrow> duration res"

record 'w ostate =
  os_world :: 'w
  os_cacheOK :: bool
  os_refs :: "string \<Rightarrow> int"
  os_locks :: "string list"
  os_slots :: nat

definition orch_New :: "'w \<Rightarrow> 'w ostate" where
  "orch_New w = \<lparr>os_world = w, os_cacheOK = False, os_refs = (\<lambda>_. 0), os_locks = [], os_slots = 0\<rparr>"

text \<open>A call of the runtime from the orchestrator's state.\<close>

definition ocall :: "('w \<Rightarrow> 'a \<times> 'w) \<Rightarrow> 'w ostate \<Rightarrow> 'a \<times> 'w ostate" where
  "ocall f st = (case f (os_world st) of (r, w') \<Rightarrow> (r, st\<lparr>os_world := w'\<rparr>))"

section \<open>Locks, slots and cold stops\<close>

definition lock :: "string \<Rightarrow> 'w ostate \<Rightarrow> 'w ostate" where
  "lock key st = st\<lparr>os_locks := key # os_locks st\<rparr>"

definition unlock :: "string \<Rightarrow> 'w ostate \<Rightarrow> 'w ostate" where
  "unlock key st = st\<lparr>os_locks := remove1 key (os_locks st)\<rparr>"

definition acquire :: "'w runtime \<Rightarrow> orch \<Rightarrow> ctx \<Rightarrow> 'w ostate \<Rightarrow> error option \<times> 'w ostate" where
  "acquire rt oc x st =
     (if conf_MaxParallel (o_cfg oc) \<le> 0 then (None, st)
      else case ocall (rt_slot rt x) st of
             (Some e, st) \<Rightarrow> (Some e, st)
           | (None, st) \<Rightarrow> (None, st\<lparr>os_slots := os_slots st + 1\<rparr>))"

definition release :: "orch \<Rightarrow> 'w ostate \<Rightarrow> 'w ostate" where
  "release oc st =
     (if conf_MaxParallel (o_cfg oc) \<le> 0 then st else st\<lparr>os_slots := os_slots st - 1\<rparr>)"

definition cold_hold :: "string \<Rightarrow> ('w ostate \<Rightarrow> error option \<times> 'w ostate) \<Rightarrow> 'w ostate \<Rightarrow> error option \<times> 'w ostate" where
  "cold_hold c stop st =
     (case (if os_refs st c = 0 then stop st else (None, st)) of
        (Some e, st) \<Rightarrow> (Some e, st)
      | (None, st) \<Rightarrow> (None, st\<lparr>os_refs := (os_refs st)(c := os_refs st c + 1)\<rparr>))"

definition cold_release :: "string \<Rightarrow> ('w ostate \<Rightarrow> 'w ostate) \<Rightarrow> 'w ostate \<Rightarrow> 'w ostate" where
  "cold_release c start st =
     (let st = st\<lparr>os_refs := (os_refs st)(c := os_refs st c - 1)\<rparr>
      in if os_refs st c = 0 then start st else st)"

section \<open>Names, environment and mounts\<close>

definition name_char :: "char \<Rightarrow> bool" where
  "name_char c \<longleftrightarrow> is_alnum c \<or> c \<in> set ''-_.''"

definition sanitize :: "string \<Rightarrow> string" where
  "sanitize s = dash_runes name_char s"

definition moverName :: "string \<Rightarrow> string \<Rightarrow> int \<Rightarrow> string" where
  "moverName app tgt now = ''sabon-mover-'' @ sanitize app @ ''-'' @ sanitize tgt @ ''-'' @ Itoa now"

definition hookName :: "string \<Rightarrow> string \<Rightarrow> nat \<Rightarrow> int \<Rightarrow> string" where
  "hookName app phase i now =
     ''sabon-hook-'' @ sanitize app @ ''-'' @ phase @ ''-'' @ digits i @ ''-'' @ Itoa now"

definition dataMount :: string where "dataMount = ''/data''"
definition repoMount :: string where "repoMount = ''/repo''"
definition cacheMount :: string where "cacheMount = ''/cache''"
definition restoreMount :: string where "restoreMount = ''/restore''"
definition passwordMount :: string where "passwordMount = ''/run/secrets/sabon-restic-password''"
definition awsCredentialsMount :: string where "awsCredentialsMount = ''/run/secrets/sabon-aws-credentials''"

lemmas mount_defs = dataMount_def repoMount_def cacheMount_def restoreMount_def passwordMount_def awsCredentialsMount_def

definition hookEnvPrefix :: string where "hookEnvPrefix = ''SABON_HOOK_ENV_''"

definition expandEnv :: "(string \<Rightarrow> string) \<Rightarrow> (string, string) gomap \<Rightarrow> (string, string) gomap \<Rightarrow> string list" where
  "expandEnv getenv m containerEnv =
     map (\<lambda>(k, v). k @ ''='' @ Expand v (\<lambda>name.
         case map_of containerEnv name of Some val \<Rightarrow> val | None \<Rightarrow> getenv (hookEnvPrefix @ name))) m"

definition sourcesForTarget :: "job \<Rightarrow> target \<Rightarrow> source list" where
  "sourcesForTarget j t =
     (case TargetOverride (job_Spec j) (tgt_Name t) of
        None \<Rightarrow> job_Sources j
      | Some ts \<Rightarrow>
          if ts_ExcludeVolumes ts = [] \<and> ts_ExcludePaths ts = [] then job_Sources j
          else filter (\<lambda>s. \<not> (src_Type s = TypeVolume \<and> src_Ref s \<in> set (ts_ExcludeVolumes ts)) \<and>
                           \<not> (src_Type s = TypeBind \<and> src_Ref s \<in> set (ts_ExcludePaths ts))) (job_Sources j))"

definition moverSpec :: "job \<Rightarrow> target \<Rightarrow> mover_spec" where
  "moverSpec j t =
     (let sources = map (\<lambda>s. dataMount @ ''/'' @ src_Name s) (job_Sources j);
          (ret, excludes) =
            (case TargetOverride (job_Spec j) (tgt_Name t) of
               None \<Rightarrow> (tgt_Retention t, spec_Exclude (job_Spec j))
             | Some ts \<Rightarrow>
                 (if \<not> Retention_Empty (ts_Retention ts) then ts_Retention ts else tgt_Retention t,
                  if ts_Exclude ts \<noteq> [] then spec_Exclude (job_Spec j) @ ts_Exclude ts else spec_Exclude (job_Spec j)))
      in empty_mover_spec\<lparr>ms_App := job_App j, ms_Host := job_App j, ms_Sources := sources,
           ms_Excludes := excludes, ms_Tags := spec_Tags (job_Spec j), ms_Retention := ret,
           ms_ExtraArgs := tgt_ResticArgs t\<rparr>)"

definition sourceMounts :: "job \<Rightarrow> bool \<Rightarrow> mount list" where
  "sourceMounts j readOnly =
     map (\<lambda>s. \<lparr>mnt_Type = src_Type s, mnt_Source = src_Ref s, mnt_Target = dataMount @ ''/'' @ src_Name s,
               mnt_ReadOnly = readOnly\<rparr>) (job_Sources j)"

definition secretMount :: "string \<Rightarrow> string \<Rightarrow> mount" where
  "secretMount s d = \<lparr>mnt_Type = TypeBind, mnt_Source = s, mnt_Target = d, mnt_ReadOnly = True\<rparr>"

definition cacheAndRepo :: "orch \<Rightarrow> target \<Rightarrow> string \<Rightarrow> mount list \<times> string list" where
  "cacheAndRepo oc t app =
     ([\<lparr>mnt_Type = TypeVolume, mnt_Source = conf_CacheVolume (o_cfg oc), mnt_Target = cacheMount, mnt_ReadOnly = False\<rparr>]
      @ (if tgt_PasswordFile t \<noteq> [] then [secretMount (tgt_PasswordFile t) passwordMount] else [])
      @ (if tgt_CredentialsFile t \<noteq> [] then [secretMount (tgt_CredentialsFile t) awsCredentialsMount] else [])
      @ map (\<lambda>f. secretMount (file_Source f) (file_Target f)) (tgt_Files t),
      if Target_Backend t = BackendLocal then [Path_Join [tgt_Path t, app] @ '':'' @ repoMount] else [])"

definition restic_repo :: "orch \<Rightarrow> target \<Rightarrow> string \<Rightarrow> string" where
  "restic_repo oc t app =
     (case Target_Backend t of
        BackendLocal \<Rightarrow> repoMount
      | BackendRemote \<Rightarrow> ReplaceAll (Expand (tgt_Repo t) (o_getenv oc)) ''{app}'' app)"

definition restic_password :: "orch \<Rightarrow> target \<Rightarrow> string res" where
  "restic_password oc t =
     (if tgt_PasswordFile t \<noteq> [] then
        (if \<not> o_regular oc (tgt_PasswordFile t) then
           Inl (Errorf ''target %q: password file %q does not exist or is not a regular file'' [tgt_Name t, tgt_PasswordFile t])
         else Inr (''RESTIC_PASSWORD_FILE='' @ passwordMount))
      else
        (let pwEnv = (if tgt_PasswordEnv t = [] then ''RESTIC_PASSWORD'' else tgt_PasswordEnv t);
             pw = o_getenv oc pwEnv
         in if pw = [] then Inl (Errorf ''target %q: password env %q is empty'' [tgt_Name t, pwEnv])
            else Inr (''RESTIC_PASSWORD='' @ pw)))"

definition resticEnv :: "orch \<Rightarrow> target \<Rightarrow> string \<Rightarrow> string list res" where
  "resticEnv oc t app =
     (case restic_password oc t of
        Inl e \<Rightarrow> Inl e
      | Inr pw \<Rightarrow>
          if tgt_CredentialsFile t \<noteq> [] \<and> \<not> o_regular oc (tgt_CredentialsFile t) then
            Inl (Errorf ''target %q: credentials file %q does not exist or is not a regular file'' [tgt_Name t, tgt_CredentialsFile t])
          else
            (case first_err (\<lambda>f. if \<not> o_regular oc (file_Source f) then
                     Some (Errorf ''target %q: file %q does not exist or is not a regular file'' [tgt_Name t, file_Source f])
                   else None) (tgt_Files t) of
               Some e \<Rightarrow> Inl e
             | None \<Rightarrow>
                 Inr ([''RESTIC_CACHE_DIR='' @ cacheMount, ''RESTIC_REPOSITORY='' @ restic_repo oc t app, pw]
                   @ (if tgt_CredentialsFile t \<noteq> [] then [''AWS_SHARED_CREDENTIALS_FILE='' @ awsCredentialsMount] else [])
                   @ map (\<lambda>(k, v). k @ ''='' @ Expand v (o_getenv oc)) (tgt_Env t))))"

definition put_all :: "(string, string) gomap \<Rightarrow> (string, string) gomap \<Rightarrow> (string, string) gomap" where
  "put_all m l = fold (\<lambda>(k, v) l. AList.update k v l) m l"

definition customLabels :: "orch \<Rightarrow> target \<Rightarrow> (string, string) gomap" where
  "customLabels oc t = put_all (tgt_MoverLabels t) (put_all (conf_MoverLabels (o_cfg oc)) [])"

definition moverLabels :: "orch \<Rightarrow> target \<Rightarrow> string \<Rightarrow> string \<Rightarrow> (string, string) gomap" where
  "moverLabels oc t app action =
     AList.update LabelAction action (AList.update LabelTarget (tgt_Name t)
       (AList.update LabelApp app (customLabels oc t)))"

definition ensureCache :: "'w runtime \<Rightarrow> orch \<Rightarrow> ctx \<Rightarrow> 'w ostate \<Rightarrow> error option \<times> 'w ostate" where
  "ensureCache rt oc x st =
     (if os_cacheOK st then (None, st)
      else case ocall (rt_EnsureCache rt x (conf_CacheVolume (o_cfg oc))) st of
             (Some e, st) \<Rightarrow> (Some e, st)
           | (None, st) \<Rightarrow> (None, st\<lparr>os_cacheOK := True\<rparr>))"

section \<open>Hooks\<close>

text \<open>The container an exec hook runs in, or the error that forbids it.\<close>

definition exec_target :: "'w runtime \<Rightarrow> ctx \<Rightarrow> job \<Rightarrow> hook \<Rightarrow> string \<Rightarrow> nat \<Rightarrow> 'w \<Rightarrow> string res \<times> 'w" where
  "exec_target rt x j h phase i w =
     (let t = hook_Container h
      in if t = [] \<or> t = job_Container j then (Inr (job_Container j), w)
         else if job_Project j = [] then
           (Inl (Errorf ''%s-hook %d: exec target %q is not the labelled container and there is no compose project to scope to''
              [phase, digits i, t]), w)
         else (case rt_AppProject rt x t w of
             (Inl e, w) \<Rightarrow> (Inl (Wrapf ''%s-hook %d: inspect exec target %q: %w'' [phase, digits i, t] e), w)
           | (Inr proj, w) \<Rightarrow>
               if proj \<noteq> job_Project j then
                 (Inl (Errorf ''%s-hook %d: exec target %q is not in compose project %q'' [phase, digits i, t, job_Project j]), w)
               else (Inr t, w)))"

definition runOneHook :: "'w runtime \<Rightarrow> orch \<Rightarrow> ctx \<Rightarrow> job \<Rightarrow> hook \<Rightarrow> string \<Rightarrow> nat \<Rightarrow> 'w \<Rightarrow> error option \<times> 'w" where
  "runOneHook rt oc x j h phase i w =
     (case TimeoutDuration (o_ParseDuration oc) h of
        Inl e \<Rightarrow> (Some (Wrapf ''%s-hook %d: invalid timeout %q: %w'' [phase, digits i, hook_Timeout h] e), w)
      | Inr d \<Rightarrow>
          (let x = (if d > 0 then WithTimeout x d else x)
           in case (if hook_Env h \<noteq> [] then rt_AppEnv rt x (job_Container j) w else (Inr [], w)) of
             (r, w) \<Rightarrow>
               (let renv = expandEnv (o_getenv oc) (hook_Env h) (case r of Inr m \<Rightarrow> m | Inl _ \<Rightarrow> [])
                in if Hook_Mode h = ''run'' then
                     (case rt_RunOneShot rt x
                            \<lparr>run_Name = hookName (job_App j) phase i (rt_now rt w), run_Image = hook_Image h,
                             run_Command = hook_Command h, run_User = hook_User h, run_Env = renv,
                             run_Network = hook_Network h, run_Volumes = hook_Volumes h\<rparr> w of
                        (None, w) \<Rightarrow> (None, w)
                      | (Some e, w) \<Rightarrow> (Some (Wrapf ''%s-hook %d: %w'' [phase, digits i] e), w))
                   else
                     (case rt_Exec rt of
                        None \<Rightarrow>
                          (Some (Errorf ''%s-hook %d: exec-mode hooks are not supported by this runtime; use a run-mode hook''
                             [phase, digits i]), w)
                      | Some exec \<Rightarrow>
                          (case exec_target rt x j h phase i w of
                             (Inl e, w) \<Rightarrow> (Some e, w)
                           | (Inr t, w) \<Rightarrow>
                               (case exec x t (hook_Command h) renv (hook_User h) w of
                                  (None, w) \<Rightarrow> (None, w)
                                | (Some e, w) \<Rightarrow> (Some (Wrapf ''%s-hook %d: %w'' [phase, digits i] e), w)))))))"

fun hooks_loop :: "'w runtime \<Rightarrow> orch \<Rightarrow> ctx \<Rightarrow> job \<Rightarrow> string \<Rightarrow> nat \<Rightarrow> hook list \<Rightarrow> 'w \<Rightarrow> error option \<times> 'w" where
  "hooks_loop rt oc x j phase i [] w = (None, w)"
| "hooks_loop rt oc x j phase i (h # hs) w =
     (case runOneHook rt oc x j h phase i w of
        (Some e, w) \<Rightarrow> (Some e, w)
      | (None, w) \<Rightarrow> hooks_loop rt oc x j phase (Suc i) hs w)"

definition runHooks :: "'w runtime \<Rightarrow> orch \<Rightarrow> ctx \<Rightarrow> job \<Rightarrow> hook list \<Rightarrow> string \<Rightarrow> 'w \<Rightarrow> error option \<times> 'w" where
  "runHooks rt oc x j hs phase w = hooks_loop rt oc x j phase 0 hs w"

section \<open>Source snapshots\<close>

text \<open>The host path of every source, and the reason of each that is not on the local filesystem.\<close>

fun resolve_loop ::
  "'w runtime \<Rightarrow> ctx \<Rightarrow> source list \<Rightarrow> snap_source list \<Rightarrow> (string, string) gomap \<Rightarrow> 'w
   \<Rightarrow> (snap_source list \<times> (string, string) gomap) res \<times> 'w" where
  "resolve_loop rt x [] srcs foreign w = (Inr (srcs, foreign), w)"
| "resolve_loop rt x (s # ss) srcs foreign w =
     (if src_Type s = TypeVolume then
        (case rt_VolumeHostPath rt x (src_Ref s) w of
           (Inl e, w) \<Rightarrow> (Inl e, w)
         | (Inr (p, reason), w) \<Rightarrow>
             resolve_loop rt x ss (srcs @ [\<lparr>ss_Name = src_Name s, ss_HostPath = p\<rparr>])
               (if reason \<noteq> [] then AList.update (src_Name s) reason foreign else foreign) w)
      else resolve_loop rt x ss (srcs @ [\<lparr>ss_Name = src_Name s, ss_HostPath = src_Ref s\<rparr>]) foreign w)"

definition resolveHostPaths ::
  "'w runtime \<Rightarrow> ctx \<Rightarrow> job \<Rightarrow> 'w \<Rightarrow> (snap_source list \<times> (string, string) gomap) res \<times> 'w" where
  "resolveHostPaths rt x j w = resolve_loop rt x (job_Sources j) [] [] w"

fun find_mode :: "'w snapshotter list \<Rightarrow> string \<Rightarrow> 'w snapshotter option" where
  "find_mode [] mode = None"
| "find_mode (s # ss) mode = (if sn_Mode s = mode then Some s else find_mode ss mode)"

definition snapshotterFor :: "'w runtime \<Rightarrow> string \<Rightarrow> 'w snapshotter option" where
  "snapshotterFor rt mode = find_mode (rt_snaps rt) mode"

definition providerModes :: "'w runtime \<Rightarrow> string" where
  "providerModes rt = Join (map sn_Mode (rt_snaps rt)) '', ''"

type_synonym 'w mounts_cleanup = "mount list \<times> (ctx \<Rightarrow> 'w \<Rightarrow> 'w)"

definition snap_bind :: "snap_mount \<Rightarrow> mount" where
  "snap_bind m = \<lparr>mnt_Type = TypeBind, mnt_Source = sm_HostPath m, mnt_Target = dataMount @ ''/'' @ sm_Name m, mnt_ReadOnly = True\<rparr>"

definition strictMounts :: "'w runtime \<Rightarrow> ctx \<Rightarrow> job \<Rightarrow> 'w snapshotter \<Rightarrow> 'w \<Rightarrow> 'w mounts_cleanup res \<times> 'w" where
  "strictMounts rt x j snap w =
     (case resolveHostPaths rt x j w of
        (Inl e, w) \<Rightarrow> (Inl e, w)
      | (Inr (sources, foreign), w) \<Rightarrow>
          (case first_err (\<lambda>s. case map_of foreign (ss_Name s) of
                   Some reason \<Rightarrow> Some (Errorf (''snapshot=%s: source %q: %s '' @ [CHR 0xE2, CHR 0x80, CHR 0x94] @ '' cannot snapshot; use a preHook dump or stop:true'')
                                       [sn_Mode snap, ss_Name s, reason])
                 | None \<Rightarrow> None) sources of
             Some e \<Rightarrow> (Inl e, w)
           | None \<Rightarrow>
               (case sn_Snapshot snap x (job_App j) sources w of
                  (Inl e, w) \<Rightarrow> (Inl e, w)
                | (Inr (ms, cleanup), w) \<Rightarrow> (Inr (map snap_bind ms, cleanup), w))))"

fun claim_loop ::
  "resolution list \<Rightarrow> string list \<Rightarrow> string list \<Rightarrow> snap_source list \<Rightarrow> snap_source list \<times> string list \<times> string list" where
  "claim_loop [] pending claimed mine = (mine, pending, claimed)"
| "claim_loop (r # rs) pending claimed mine =
     (if rs_Name r \<in> set pending \<and> rs_Snapshottable r
      then claim_loop rs (removeAll (rs_Name r) pending) (rs_Name r # claimed)
             (mine @ [\<lparr>ss_Name = rs_Name r, ss_HostPath = rs_HostPath r\<rparr>])
      else claim_loop rs pending claimed mine)"

text \<open>The loop in which each provider claims the pending sources it can snapshot.\<close>

fun claim_all ::
  "ctx \<Rightarrow> snap_source list \<Rightarrow> 'w snapshotter list \<Rightarrow> string list \<Rightarrow> string list \<Rightarrow> 'w
   \<Rightarrow> (('w snapshotter \<times> snap_source list) list \<times> string list) \<times> 'w" where
  "claim_all x sources [] pending claimed w = (([], claimed), w)"
| "claim_all x sources (snap # snaps) pending claimed w =
     (if pending = [] then (([], claimed), w)
      else case sn_Resolve snap x sources w of
        (Inl e, w) \<Rightarrow> claim_all x sources snaps pending claimed w
      | (Inr res, w) \<Rightarrow>
          (case claim_loop res pending claimed [] of
             (mine, pending, claimed) \<Rightarrow>
               (case claim_all x sources snaps pending claimed w of
                  ((per, claimed), w) \<Rightarrow> (((snap, mine) # per, claimed), w))))"

fun run_cleanups :: "(ctx \<Rightarrow> 'w \<Rightarrow> 'w) list \<Rightarrow> ctx \<Rightarrow> 'w \<Rightarrow> 'w" where
  "run_cleanups [] x w = w"
| "run_cleanups (c # cs) x w = run_cleanups cs x (c x w)"

fun snapshot_all ::
  "ctx \<Rightarrow> string \<Rightarrow> ('w snapshotter \<times> snap_source list) list \<Rightarrow> (ctx \<Rightarrow> 'w \<Rightarrow> 'w) list \<Rightarrow> mount list \<Rightarrow> 'w
   \<Rightarrow> ((ctx \<Rightarrow> 'w \<Rightarrow> 'w) list \<times> mount list) res \<times> 'w" where
  "snapshot_all x app [] cleanups ms w = (Inr (cleanups, ms), w)"
| "snapshot_all x app ((snap, mine) # per) cleanups ms w =
     (if mine = [] then snapshot_all x app per cleanups ms w
      else case sn_Snapshot snap x app mine w of
        (Inl e, w) \<Rightarrow> (Inl e, run_cleanups cleanups (WithoutCancel x) w)
      | (Inr (snaps, cl), w) \<Rightarrow> snapshot_all x app per (cleanups @ [cl]) (ms @ map snap_bind snaps) w)"

definition autoMounts :: "'w runtime \<Rightarrow> ctx \<Rightarrow> job \<Rightarrow> 'w \<Rightarrow> 'w mounts_cleanup res \<times> 'w" where
  "autoMounts rt x j w =
     (case resolveHostPaths rt x j w of
        (Inl e, w) \<Rightarrow> (Inl e, w)
      | (Inr (sources, foreign), w) \<Rightarrow>
          (case claim_all x sources (rt_snaps rt)
                  (filter (\<lambda>n. map_of foreign n = None) (map ss_Name sources)) [] w of
             ((per, claimed), w) \<Rightarrow>
               (case snapshot_all x (job_App j) per [] [] w of
                  (Inl e, w) \<Rightarrow> (Inl e, w)
                | (Inr (cleanups, ms), w) \<Rightarrow>
                    (Inr (ms @ sourceMounts (j\<lparr>job_Sources := filter (\<lambda>s. src_Name s \<notin> set claimed) (job_Sources j)\<rparr>) True,
                          run_cleanups cleanups), w))))"

definition unknown_mode :: "'w runtime \<Rightarrow> string \<Rightarrow> error" where
  "unknown_mode rt mode =
     (if rt_snaps rt = [] then
        Errorf ''snapshot mode %q is unavailable: this runtime registers no snapshot providers (snapshots require the standalone Docker engine)'' [mode]
      else Errorf ''unknown snapshot mode %q (want none, auto, or a provider: %s)'' [mode, providerModes rt])"

definition sourceMountsFor :: "'w runtime \<Rightarrow> orch \<Rightarrow> ctx \<Rightarrow> job \<Rightarrow> 'w \<Rightarrow> 'w mounts_cleanup res \<times> 'w" where
  "sourceMountsFor rt oc x j w =
     (let mode = SnapshotMode (job_Spec j) (conf_Snapshot (o_cfg oc))
      in if mode = [] \<or> mode = ''none'' then (Inr (sourceMounts j True, \<lambda>c w. w), w)
         else if mode = ''auto'' then autoMounts rt x j w
         else (case snapshotterFor rt mode of
                 None \<Rightarrow> (Inl (unknown_mode rt mode), w)
               | Some snap \<Rightarrow> strictMounts rt x j snap w))"

fun reap_snaps :: "ctx \<Rightarrow> string list \<Rightarrow> 'w snapshotter list \<Rightarrow> nat \<Rightarrow> 'w \<Rightarrow> (nat \<times> error option) \<times> 'w" where
  "reap_snaps x inUse [] tot w = ((tot, None), w)"
| "reap_snaps x inUse (snap # snaps) tot w =
     (case sn_Reap snap x inUse w of
        ((n, Some e), w) \<Rightarrow> ((tot, Some e), w)
      | ((n, None), w) \<Rightarrow> reap_snaps x inUse snaps (tot + n) w)"

definition ReapSnapshotter :: "'w runtime \<Rightarrow> orch \<Rightarrow> ctx \<Rightarrow> 'w \<Rightarrow> (nat \<times> error option) \<times> 'w" where
  "ReapSnapshotter rt oc x w =
     (if conf_Snapshot (o_cfg oc) = [] \<or> conf_Snapshot (o_cfg oc) = ''none'' then ((0, None), w)
      else case rt_RunningMoverBinds rt x w of
        (Inl e, w) \<Rightarrow> ((0, Some e), w)
      | (Inr inUse, w) \<Rightarrow> reap_snaps x inUse (rt_snaps rt) 0 w)"

definition orch_Reap :: "'w runtime \<Rightarrow> orch \<Rightarrow> ctx \<Rightarrow> 'w \<Rightarrow> (nat \<times> error option) \<times> 'w" where
  "orch_Reap rt oc x w =
     (case rt_ReapMovers rt x (conf_MoverHistory (o_cfg oc)) w of
        ((n, e), w) \<Rightarrow>
          (case rt_ReapHooks rt x w of
             ((hn, he), w) \<Rightarrow> ((n + hn, if e = None then he else e), w)))"

section \<open>Running a backup\<close>

definition post_timeout :: duration where
  "post_timeout = 5 * minute"

definition backup_request :: "orch \<Rightarrow> job \<Rightarrow> target \<Rightarrow> string list \<Rightarrow> mount list \<Rightarrow> int \<Rightarrow> request" where
  "backup_request oc j t renv srcMounts now =
     (let (cacheMs, binds) = cacheAndRepo oc t (job_App j)
      in \<lparr>req_Name = moverName (job_App j) (tgt_Name t) now, req_Image = o_image oc,
          req_User = Spec_MoverUser (job_Spec j) (conf_MoverUser (o_cfg oc)),
          req_Groups = Spec_MoverGroups (job_Spec j) (conf_MoverGroups (o_cfg oc)),
          req_Network = conf_MoverNetwork (o_cfg oc), req_Spec = moverSpec j t, req_Env = renv,
          req_Mounts = srcMounts @ cacheMs, req_Binds = binds, req_Stdout = False,
          req_Labels = moverLabels oc t (job_App j) ''backup'',
          req_KeepOnShutdown = \<not> spec_Stop (job_Spec j), req_Retain = True, req_Node = job_Node j\<rparr>)"

text \<open>From the snapshot of the sources to the post-hooks; the snapshot is released unless the mover was kept.\<close>

definition run_mover_phase ::
  "'w runtime \<Rightarrow> orch \<Rightarrow> ctx \<Rightarrow> job \<Rightarrow> target \<Rightarrow> string list \<Rightarrow> 'w \<Rightarrow> (mover_result \<times> error option) \<times> 'w" where
  "run_mover_phase rt oc x j t renv w =
     (case sourceMountsFor rt oc x j w of
        (Inl e, w) \<Rightarrow> ((no_result, Some e), w)
      | (Inr (srcMounts, snapCleanup), w) \<Rightarrow>
          (case rt_RunMover rt x (backup_request oc j t renv srcMounts (rt_now rt w)) w of
             ((res, kept, runErr, _), w) \<Rightarrow>
               (case runHooks rt oc (WithTimeout (WithoutCancel x) post_timeout) j (spec_PostHooks (job_Spec j)) ''post'' w of
                  (_, w) \<Rightarrow> ((res, runErr), if kept then w else snapCleanup (WithoutCancel x) w))))"

text \<open>The cold stop around it.\<close>

definition run_quiesced ::
  "'w runtime \<Rightarrow> orch \<Rightarrow> ctx \<Rightarrow> job \<Rightarrow> target \<Rightarrow> string list \<Rightarrow> 'w ostate \<Rightarrow> (mover_result \<times> error option) \<times> 'w ostate" where
  "run_quiesced rt oc x j t renv st =
     (if spec_Stop (job_Spec j) then
        (case cold_hold (job_Container j) (ocall (rt_Stop rt x (job_Container j))) st of
           (Some e, st) \<Rightarrow> ((no_result, Some e), st)
         | (None, st) \<Rightarrow>
             (case ocall (run_mover_phase rt oc x j t renv) st of
                (r, st) \<Rightarrow>
                  (r, cold_release (job_Container j)
                        (\<lambda>st. snd (ocall (rt_Start rt (WithoutCancel x) (job_Container j)) st)) st)))
      else ocall (run_mover_phase rt oc x j t renv) st)"

definition run_prepared ::
  "'w runtime \<Rightarrow> orch \<Rightarrow> ctx \<Rightarrow> job \<Rightarrow> target \<Rightarrow> 'w ostate \<Rightarrow> (mover_result \<times> error option) \<times> 'w ostate" where
  "run_prepared rt oc x j t st =
     (case resticEnv oc t (job_App j) of
        Inl e \<Rightarrow> ((no_result, Some e), st)
      | Inr renv \<Rightarrow>
          (case ensureCache rt oc x st of
             (Some e, st) \<Rightarrow> ((no_result, Some e), st)
           | (None, st) \<Rightarrow>
               (case ocall (runHooks rt oc x j (spec_PreHooks (job_Spec j)) ''pre'') st of
                  (Some e, st) \<Rightarrow> ((no_result, Some e), st)
                | (None, st) \<Rightarrow> run_quiesced rt oc x j t renv st)))"

definition with_deadline :: "ctx \<Rightarrow> duration \<Rightarrow> ctx" where
  "with_deadline x d = (if d > 0 then WithTimeout x d else x)"

definition run_with_slot ::
  "'w runtime \<Rightarrow> orch \<Rightarrow> ctx \<Rightarrow> job \<Rightarrow> target \<Rightarrow> 'w ostate \<Rightarrow> (mover_result \<times> error option) \<times> 'w ostate" where
  "run_with_slot rt oc x j t st =
     (case Spec_BackupTimeout (o_ParseDuration oc) (job_Spec j) of
        Inl e \<Rightarrow> ((no_result, Some (Wrapf ''invalid timeout: %w'' [] e)), st)
      | Inr d \<Rightarrow>
          run_prepared rt oc (with_deadline x (if d > 0 then d else conf_BackupTimeout (o_cfg oc))) j t st)"

definition RunTarget ::
  "'w runtime \<Rightarrow> orch \<Rightarrow> ctx \<Rightarrow> job \<Rightarrow> target \<Rightarrow> 'w ostate \<Rightarrow> (mover_result \<times> error option) \<times> 'w ostate" where
  "RunTarget rt oc x j t st =
     (let j = j\<lparr>job_Sources := sourcesForTarget j t\<rparr>;
          key = tgt_Name t @ ''|'' @ job_App j
      in case acquire rt oc x (lock key st) of
           (Some e, st) \<Rightarrow> ((no_result, Some e), unlock key st)
         | (None, st) \<Rightarrow>
             (case run_with_slot rt oc x j t st of
                (r, st) \<Rightarrow> (r, unlock key (release oc st))))"

section \<open>Checks, prunes, snapshot lists and restores\<close>

definition tool_request ::
  "orch \<Rightarrow> string \<Rightarrow> target \<Rightarrow> mover_spec \<Rightarrow> string list \<Rightarrow> bool \<Rightarrow> (string, string) gomap \<Rightarrow> bool \<Rightarrow> int \<Rightarrow> request" where
  "tool_request oc app t spec renv out labels retain now =
     (let (mounts, binds) = cacheAndRepo oc t app
      in \<lparr>req_Name = moverName app (tgt_Name t) now, req_Image = o_image oc, req_User = conf_MoverUser (o_cfg oc),
          req_Groups = conf_MoverGroups (o_cfg oc), req_Network = conf_MoverNetwork (o_cfg oc), req_Spec = spec,
          req_Env = renv, req_Mounts = mounts, req_Binds = binds, req_Stdout = out, req_Labels = labels,
          req_KeepOnShutdown = False, req_Retain = retain, req_Node = []\<rparr>)"

definition tool_spec :: "string \<Rightarrow> string \<Rightarrow> target \<Rightarrow> mover_spec" where
  "tool_spec app action t = empty_mover_spec\<lparr>ms_App := app, ms_Action := action, ms_ExtraArgs := tgt_ResticArgs t\<rparr>"

text \<open>The part that the tool runs share: environment, cache, one mover.\<close>

definition run_tool ::
  "'w runtime \<Rightarrow> orch \<Rightarrow> ctx \<Rightarrow> string \<Rightarrow> target \<Rightarrow> string \<Rightarrow> bool \<Rightarrow> (string, string) gomap \<Rightarrow> bool \<Rightarrow> 'w ostate
   \<Rightarrow> error option \<times> 'w ostate" where
  "run_tool rt oc x app t action out labels retain st =
     (case resticEnv oc t app of
        Inl e \<Rightarrow> (Some e, st)
      | Inr renv \<Rightarrow>
          (case ensureCache rt oc x st of
             (Some e, st) \<Rightarrow> (Some e, st)
           | (None, st) \<Rightarrow>
               (case ocall (rt_RunMover rt x
                       (tool_request oc app t (tool_spec app action t) renv out labels retain (rt_now rt (os_world st)))) st of
                  ((_, _, e, _), st) \<Rightarrow> (e, st))))"

definition RunSnapshots :: "'w runtime \<Rightarrow> orch \<Rightarrow> ctx \<Rightarrow> string \<Rightarrow> target \<Rightarrow> 'w ostate \<Rightarrow> error option \<times> 'w ostate" where
  "RunSnapshots rt oc x app t st =
     (let key = tgt_Name t @ ''|'' @ app
      in case run_tool rt oc x app t ActionSnapshots True (customLabels oc t) False (lock key st) of
           (e, st) \<Rightarrow> (e, unlock key st))"

definition locked_tool ::
  "'w runtime \<Rightarrow> orch \<Rightarrow> ctx \<Rightarrow> string \<Rightarrow> target \<Rightarrow> string \<Rightarrow> bool \<Rightarrow> 'w ostate \<Rightarrow> error option \<times> 'w ostate" where
  "locked_tool rt oc x app t action out st =
     (let key = tgt_Name t @ ''|'' @ app
      in case acquire rt oc x (lock key st) of
           (Some e, st) \<Rightarrow> (Some e, unlock key st)
         | (None, st) \<Rightarrow>
             (case run_tool rt oc x app t action out (moverLabels oc t app action) True st of
                (e, st) \<Rightarrow> (e, unlock key (release oc st))))"

definition RunCheck :: "'w runtime \<Rightarrow> orch \<Rightarrow> ctx \<Rightarrow> string \<Rightarrow> target \<Rightarrow> bool \<Rightarrow> 'w ostate \<Rightarrow> error option \<times> 'w ostate" where
  "RunCheck rt oc x app t out st = locked_tool rt oc x app t ActionCheck out st"

definition RunPrune :: "'w runtime \<Rightarrow> orch \<Rightarrow> ctx \<Rightarrow> string \<Rightarrow> target \<Rightarrow> bool \<Rightarrow> 'w ostate \<Rightarrow> error option \<times> 'w ostate" where
  "RunPrune rt oc x app t out st = locked_tool rt oc x app t ActionPrune out st"

record restore_options =
  ro_Snapshot :: string
  ro_Into :: string
  ro_Stop :: bool
  ro_Include :: "string list"

definition restore_request ::
  "orch \<Rightarrow> string \<Rightarrow> job option \<Rightarrow> target \<Rightarrow> restore_options \<Rightarrow> string list \<Rightarrow> int \<Rightarrow> request" where
  "restore_request oc app jp t opts renv now =
     (let (mounts, binds) = cacheAndRepo oc t app;
          spec = empty_mover_spec\<lparr>ms_App := app, ms_Action := ActionRestore, ms_SnapshotID := ro_Snapshot opts,
            ms_Include := ro_Include opts, ms_ExtraArgs := tgt_ResticArgs t,
            ms_RestoreTarget := (if ro_Into opts \<noteq> [] then restoreMount else ''/'')\<rparr>
      in \<lparr>req_Name = moverName app (tgt_Name t) now, req_Image = o_image oc,
          req_User = (case jp of Some j \<Rightarrow> Spec_MoverUser (job_Spec j) (conf_MoverUser (o_cfg oc)) | None \<Rightarrow> conf_MoverUser (o_cfg oc)),
          req_Groups = (case jp of Some j \<Rightarrow> Spec_MoverGroups (job_Spec j) (conf_MoverGroups (o_cfg oc)) | None \<Rightarrow> conf_MoverGroups (o_cfg oc)),
          req_Network = conf_MoverNetwork (o_cfg oc), req_Spec = spec, req_Env = renv,
          req_Mounts = mounts @ (if ro_Into opts = [] then (case jp of Some j \<Rightarrow> sourceMounts j False | None \<Rightarrow> []) else []),
          req_Binds = binds @ (if ro_Into opts \<noteq> [] then [ro_Into opts @ '':'' @ restoreMount] else []),
          req_Stdout = True, req_Labels = moverLabels oc t app ''restore'', req_KeepOnShutdown = False, req_Retain = True,
          req_Node = (case jp of Some j \<Rightarrow> job_Node j | None \<Rightarrow> [])\<rparr>)"

definition restore_mover ::
  "'w runtime \<Rightarrow> orch \<Rightarrow> ctx \<Rightarrow> string \<Rightarrow> job option \<Rightarrow> target \<Rightarrow> restore_options \<Rightarrow> string list \<Rightarrow> 'w \<Rightarrow> error option \<times> 'w" where
  "restore_mover rt oc x app jp t opts renv w =
     (case rt_RunMover rt x (restore_request oc app jp t opts renv (rt_now rt w)) w of ((_, _, e, _), w) \<Rightarrow> (e, w))"

definition restore_body ::
  "'w runtime \<Rightarrow> orch \<Rightarrow> ctx \<Rightarrow> string \<Rightarrow> job option \<Rightarrow> target \<Rightarrow> restore_options \<Rightarrow> string list \<Rightarrow> 'w \<Rightarrow> error option \<times> 'w" where
  "restore_body rt oc x app jp t opts renv w =
     (if ro_Into opts \<noteq> [] then restore_mover rt oc x app jp t opts renv w
      else case jp of
        None \<Rightarrow> (Some (Errorf ''in-place restore needs the app's live container; use --into <dir> for staging'' []), w)
      | Some j \<Rightarrow>
          if ro_Stop opts then
            (case rt_Stop rt x (job_Container j) w of
               (Some e, w) \<Rightarrow> (Some e, w)
             | (None, w) \<Rightarrow>
                 (case restore_mover rt oc x app jp t opts renv w of
                    (e, w) \<Rightarrow> (e, snd (rt_Start rt (WithoutCancel x) (job_Container j) w))))
          else restore_mover rt oc x app jp t opts renv w)"

definition RunRestore ::
  "'w runtime \<Rightarrow> orch \<Rightarrow> ctx \<Rightarrow> string \<Rightarrow> job option \<Rightarrow> target \<Rightarrow> restore_options \<Rightarrow> 'w ostate \<Rightarrow> error option \<times> 'w ostate" where
  "RunRestore rt oc x app jp t opts st =
     (let key = tgt_Name t @ ''|'' @ app
      in case (case resticEnv oc t app of
                 Inl e \<Rightarrow> (Some e, lock key st)
               | Inr renv \<Rightarrow>
                   (case ensureCache rt oc x (lock key st) of
                      (Some e, st) \<Rightarrow> (Some e, st)
                    | (None, st) \<Rightarrow> ocall (restore_body rt oc x app jp t opts renv) st)) of
           (e, st) \<Rightarrow> (e, unlock key st))"

section \<open>Previewing snapshots\<close>

text \<open>
  \<^verbatim>\<open>PreviewSnapshots\<close> reports per source whether it would be snapshotted. Its map \<^verbatim>\<open>at\<close> yields index 0
  for a name it does not hold, and an index outside the slice panics: that is \<open>None\<close>.
\<close>

definition preview_start :: "(string, string) gomap \<Rightarrow> snap_source \<Rightarrow> resolution" where
  "preview_start foreign s =
     \<lparr>rs_Name = ss_Name s, rs_HostPath = ss_HostPath s, rs_Snapshottable = False,
      rs_Detail = (case map_of foreign (ss_Name s) of Some reason \<Rightarrow> reason | None \<Rightarrow> [])\<rparr>"

text \<open>The map from a name to the last index that carries it.\<close>

fun index_map :: "nat \<Rightarrow> snap_source list \<Rightarrow> (string, nat) gomap \<Rightarrow> (string, nat) gomap" where
  "index_map i [] at = at"
| "index_map i (s # ss) at = index_map (Suc i) ss (AList.update (ss_Name s) i at)"

definition merge_resolution ::
  "(string, string) gomap \<Rightarrow> (string, nat) gomap \<Rightarrow> resolution \<Rightarrow> resolution list \<Rightarrow> resolution list option" where
  "merge_resolution foreign at r res =
     (let i = (case map_of at (rs_Name r) of Some i \<Rightarrow> i | None \<Rightarrow> 0)
      in if map_of foreign (rs_Name r) \<noteq> None then Some res
         else if length res \<le> i then None
         else if rs_Snapshottable (res ! i) then Some res
         else if rs_Snapshottable r then
           Some (res[i := (res ! i)\<lparr>rs_Snapshottable := True, rs_Detail := rs_Detail r\<rparr>])
         else if rs_Detail (res ! i) = [] then Some (res[i := (res ! i)\<lparr>rs_Detail := rs_Detail r\<rparr>])
         else Some res)"

fun merge_all ::
  "(string, string) gomap \<Rightarrow> (string, nat) gomap \<Rightarrow> resolution list \<Rightarrow> resolution list \<Rightarrow> resolution list option" where
  "merge_all foreign at [] res = Some res"
| "merge_all foreign at (r # rs) res =
     (case merge_resolution foreign at r res of None \<Rightarrow> None | Some res \<Rightarrow> merge_all foreign at rs res)"

fun preview_loop ::
  "ctx \<Rightarrow> bool \<Rightarrow> snap_source list \<Rightarrow> (string, string) gomap \<Rightarrow> (string, nat) gomap \<Rightarrow> 'w snapshotter list \<Rightarrow> resolution list \<Rightarrow> 'w
   \<Rightarrow> (resolution list res \<times> 'w) option" where
  "preview_loop x auto sources foreign at [] res w = Some (Inr res, w)"
| "preview_loop x auto sources foreign at (snap # snaps) res w =
     (case sn_Resolve snap x sources w of
        (Inl e, w) \<Rightarrow> if \<not> auto then Some (Inl e, w) else preview_loop x auto sources foreign at snaps res w
      | (Inr rs, w) \<Rightarrow>
          (case merge_all foreign at rs res of
             None \<Rightarrow> None
           | Some res \<Rightarrow> preview_loop x auto sources foreign at snaps res w))"

definition preview_candidates :: "'w runtime \<Rightarrow> string \<Rightarrow> 'w snapshotter list res" where
  "preview_candidates rt mode =
     (if mode = [] \<or> mode = ''none'' then Inr []
      else if mode = ''auto'' then Inr (rt_snaps rt)
      else case snapshotterFor rt mode of None \<Rightarrow> Inl (unknown_mode rt mode) | Some snap \<Rightarrow> Inr [snap])"

definition PreviewSnapshots :: "'w runtime \<Rightarrow> orch \<Rightarrow> ctx \<Rightarrow> job \<Rightarrow> 'w \<Rightarrow> (resolution list res \<times> 'w) option" where
  "PreviewSnapshots rt oc x j w =
     (case resolveHostPaths rt x j w of
        (Inl e, w) \<Rightarrow> Some (Inl e, w)
      | (Inr (sources, foreign), w) \<Rightarrow>
          (let mode = SnapshotMode (job_Spec j) (conf_Snapshot (o_cfg oc))
           in case preview_candidates rt mode of
                Inl e \<Rightarrow> Some (Inl e, w)
              | Inr candidates \<Rightarrow>
                  preview_loop x (mode = ''auto'') sources foreign (index_map 0 sources []) candidates
                    (map (preview_start foreign) sources) w))"

end
