(* ===== verification/Run_Phases.thy ===== *)
theory Run_Phases
  imports Orchestrator
begin

text \<open>
  Tools for statements about whole runs of the orchestrator. The locale \<open>phased_run\<close> lifts a relation
  between the world before and after each single call of the runtime to a whole \<^verbatim>\<open>RunTarget\<close>, phase by phase.
  The traced runtime \<open>etraced\<close> records the calls of a run as events; its phases are the first
  interpretation of the locale.
\<close>

section \<open>The run as a sequence of phases\<close>

text \<open>
  A hook on a context that follows the caller's belongs to the preparation; post-hooks run on a
  context that no cancel reaches.
\<close>

definition hook_phase :: "ctx \<Rightarrow> nat" where
  "hook_phase x = (if follows_caller x then 2 else 6)"

lemma hook_phase_WithTimeout [simp]: "hook_phase (WithTimeout x d) = hook_phase x"
  by (simp add: hook_phase_def)

text \<open>
  A relation \<open>R a b\<close> between the world before and after some steps of the phases \<open>a\<close> to \<open>b\<close>. What it
  says of the single calls it says of a whole run: 0 slot, 1 cache, 2 pre-hooks, 3 stop, 4 snapshot,
  5 mover, 6 post-hooks, 7 release of the snapshot, 8 start. Hooks and movers run on contexts with the
  property \<open>C\<close>, which every context with a deadline has.
\<close>

locale phased_run =
  fixes rt :: "'w runtime" and oc :: orch and j :: job and t :: target
    and R :: "nat \<Rightarrow> nat \<Rightarrow> 'w \<Rightarrow> 'w \<Rightarrow> bool" and C :: "ctx \<Rightarrow> bool"
  assumes C_timeout: "C (WithTimeout x dur)"
    and R_refl: "R a a w w"
    and R_trans: "R a b u v \<Longrightarrow> R c d v w \<Longrightarrow> a \<le> b \<Longrightarrow> b \<le> c \<Longrightarrow> c \<le> d \<Longrightarrow> R a d u w"
    and R_mono: "R a b u v \<Longrightarrow> c \<le> a \<Longrightarrow> b \<le> d \<Longrightarrow> R c d u v"
    and R_slot: "rt_slot rt x w = (r1, w') \<Longrightarrow> R 0 0 w w'"
    and R_cache: "rt_EnsureCache rt x n w = (r1, w') \<Longrightarrow> R 1 1 w w'"
    and R_hook: "C x \<Longrightarrow> runOneHook rt oc x j h ph i w = (r1, w') \<Longrightarrow> R (hook_phase x) (hook_phase x) w w'"
    and R_stop: "rt_Stop rt x (job_Container j) w = (r1, w') \<Longrightarrow> R 3 3 w w'"
    and R_volume: "rt_VolumeHostPath rt x n w = (r2, w') \<Longrightarrow> R 4 4 w w'"
    and R_resolve: "s \<in> set (rt_snaps rt) \<Longrightarrow> sn_Resolve s x srcs w = (r3, w') \<Longrightarrow> R 4 4 w w'"
    and R_snapshot: "s \<in> set (rt_snaps rt) \<Longrightarrow> sn_Snapshot s x app srcs w = (r4, w') \<Longrightarrow> R 4 4 w w'"
    and R_cleanup: "s \<in> set (rt_snaps rt) \<Longrightarrow> sn_Snapshot s x app srcs w = (Inr (ms, cl), w') \<Longrightarrow> R 7 7 u (cl y u)"
    and R_mover: "C x \<Longrightarrow> rt_RunMover rt x (backup_request oc j t renv mnts now) w = (r5, w') \<Longrightarrow> R 5 5 w w'"
    and R_start: "rt_Start rt x (job_Container j) w = (r1, w') \<Longrightarrow> R 8 8 w w'"
begin

lemma R_le: "a \<le> b \<Longrightarrow> R a b w w"
  using R_mono[OF R_refl[of a w], of a b] by simp

lemma R_same: "R a a u v \<Longrightarrow> R a a v w \<Longrightarrow> R a a u w"
  using R_trans[of a a u v a a w] by simp

lemma R_hooks_loop: "C x \<Longrightarrow> hooks_loop rt oc x j ph i hs w = (r, w') \<Longrightarrow> R (hook_phase x) (hook_phase x) w w'"
proof (induction hs arbitrary: i w)
  case (Cons h hs)
  then show ?case
    by (auto split: prod.splits option.splits dest!: R_hook intro: R_same)
qed (simp add: R_refl)

lemma R_hooks: "C x \<Longrightarrow> runHooks rt oc x j hs ph w = (r, w') \<Longrightarrow> R (hook_phase x) (hook_phase x) w w'"
  by (simp add: runHooks_def R_hooks_loop)

lemma R_resolve_loop: "resolve_loop rt x ss srcs fo w = (r, w') \<Longrightarrow> R 4 4 w w'"
proof (induction ss arbitrary: srcs fo w)
  case (Cons s ss)
  show ?case
  proof (cases "src_Type s = TypeVolume")
    case True
    obtain rv w1 where v: "rt_VolumeHostPath rt x (src_Ref s) w = (rv, w1)" by fastforce
    note R1 = R_volume[OF v]
    from Cons.prems True v Cons.IH[of _ _ w1] R1 show ?thesis
      by (auto split: sum.splits prod.splits intro: R_same)
  qed (use Cons in auto)
qed (simp add: R_refl)

lemma R_resolveHostPaths: "resolveHostPaths rt x j' w = (r, w') \<Longrightarrow> R 4 4 w w'"
  by (simp add: resolveHostPaths_def R_resolve_loop)

lemma R_claim_all:
  "claim_all x srcs snaps pending claimed w = ((per, cl), w') \<Longrightarrow> set snaps \<subseteq> set (rt_snaps rt) \<Longrightarrow>
   R 4 4 w w' \<and> fst ` set per \<subseteq> set (rt_snaps rt)"
proof (induction snaps arbitrary: pending claimed w per cl)
  case (Cons s ss)
  obtain rr w1 where v: "sn_Resolve s x srcs w = (rr, w1)" by fastforce
  from Cons.prems(2) have R1: "R 4 4 w w1" using R_resolve[OF _ v] by simp
  have "pending = [] \<or> (\<exists>pe cs per' cl'. claim_all x srcs ss pe cs w1 = ((per', cl'), w') \<and> (per = per' \<or> (\<exists>mine. per = (s, mine) # per')))"
    using Cons.prems(1) v by (auto split: if_splits sum.splits prod.splits)
  then show ?case
  proof
    assume "pending = []" with Cons.prems(1) show ?thesis by (auto simp: R_refl)
  next
    assume "\<exists>pe cs per' cl'. claim_all x srcs ss pe cs w1 = ((per', cl'), w') \<and> (per = per' \<or> (\<exists>mine. per = (s, mine) # per'))"
    then obtain pe cs per' cl' where c: "claim_all x srcs ss pe cs w1 = ((per', cl'), w')" "per = per' \<or> (\<exists>mine. per = (s, mine) # per')" by blast
    from Cons.IH[OF c(1)] Cons.prems(2) have i: "R 4 4 w1 w'" "fst ` set per' \<subseteq> set (rt_snaps rt)" by simp_all
    from c(2) have "fst ` set per \<subseteq> insert s (fst ` set per')" by auto
    also have "\<dots> \<subseteq> set (rt_snaps rt)" using i(2) Cons.prems(2) by simp
    finally show ?thesis using R_same[OF R1 i(1)] by simp
  qed
qed (simp add: R_refl)

lemma R_run_cleanups: "\<forall>cl\<in>set cls. \<forall>c u. R 7 7 u (cl c u) \<Longrightarrow> R 7 7 u (run_cleanups cls c u)"
  by (induction cls arbitrary: u) (auto simp: R_refl intro: R_same)

lemma R_snapshot_all:
  "snapshot_all x app per cls ms w = (r, w') \<Longrightarrow> fst ` set per \<subseteq> set (rt_snaps rt) \<Longrightarrow>
   \<forall>cl\<in>set cls. \<forall>c u. R 7 7 u (cl c u) \<Longrightarrow>
   (case r of Inl e \<Rightarrow> R 4 7 w w' | Inr (cls', ms') \<Rightarrow> R 4 4 w w' \<and> (\<forall>cl\<in>set cls'. \<forall>c u. R 7 7 u (cl c u)))"
proof (induction per arbitrary: cls ms w)
  case Nil
  then show ?case by (auto simp: R_refl)
next
  case (Cons p per)
  obtain s mine where p: "p = (s, mine)" by fastforce
  show ?case
  proof (cases "mine = []")
    case True with Cons p show ?thesis by simp
  next
    case False
    obtain rs w1 where v: "sn_Snapshot s x app mine w = (rs, w1)" by fastforce
    from Cons.prems(2) p have s: "s \<in> set (rt_snaps rt)" by simp
    note R1 = R_snapshot[OF s v]
    show ?thesis
    proof (cases rs)
      case (Inl e)
      with Cons.prems(1) p False v have "r = Inl e" "w' = run_cleanups cls (WithoutCancel x) w1" by auto
      with R_trans[OF R1 R_run_cleanups[OF Cons.prems(3)]] show ?thesis by simp
    next
      case (Inr mc)
      obtain ms1 cl where mc: "mc = (ms1, cl)" by fastforce
      have all: "\<forall>cl\<in>set (cls @ [cl]). \<forall>c u. R 7 7 u (cl c u)"
        using Cons.prems(3) R_cleanup[OF s v[unfolded Inr mc]] by auto
      have "snapshot_all x app per (cls @ [cl]) (ms @ map snap_bind ms1) w1 = (r, w')"
        using Cons.prems(1) p False v Inr mc by simp
      from Cons.IH[OF this _ all] Cons.prems(2) show ?thesis
        using R_trans[OF R1] R1 by (fastforce split: sum.splits)
    qed
  qed
qed

lemma R_strictMounts:
  assumes "strictMounts rt x j' s w = (r, w')" "s \<in> set (rt_snaps rt)"
  shows "case r of Inl e \<Rightarrow> R 4 7 w w' | Inr (ms, cl) \<Rightarrow> R 4 4 w w' \<and> (\<forall>c u. R 7 7 u (cl c u))"
proof -
  obtain r0 w0 where h: "resolveHostPaths rt x j' w = (r0, w0)" by fastforce
  note R0 = R_resolveHostPaths[OF h]
  then have R0': "R 4 7 w w0" by (rule R_mono) simp_all
  have S: "R 4 4 w w1 \<and> R 4 7 w w1" if "sn_Snapshot s x (job_App j') srcs w0 = (r1, w1)" for srcs r1 w1
    using R_same[OF R0 R_snapshot[OF assms(2) that]] R_mono[of 4 4 w w1 4 7] by simp
  from assms(1) h R0 R0' show ?thesis
    by (auto simp: strictMounts_def dest: S R_cleanup[OF assms(2)] split: prod.splits sum.splits option.splits)
qed

lemma R_autoMounts:
  assumes "autoMounts rt x j' w = (r, w')"
  shows "case r of Inl e \<Rightarrow> R 4 7 w w' | Inr (ms, cl) \<Rightarrow> R 4 4 w w' \<and> (\<forall>c u. R 7 7 u (cl c u))"
proof -
  obtain r0 w0 where h: "resolveHostPaths rt x j' w = (r0, w0)" by fastforce
  note R0 = R_resolveHostPaths[OF h]
  show ?thesis
  proof (cases r0)
    case (Inl e)
    with assms h R_mono[OF R0, of 4 7] show ?thesis by (auto simp: autoMounts_def)
  next
    case (Inr sf)
    obtain srcs fo where sf: "sf = (srcs, fo)" by fastforce
    let ?p = "filter (\<lambda>n. map_of fo n = None) (map ss_Name srcs)"
    obtain per cl w1 where c: "claim_all x srcs (rt_snaps rt) ?p [] w0 = ((per, cl), w1)" by (metis prod.collapse)
    from R_claim_all[OF c] R0 have R1: "R 4 4 w w1" and per: "fst ` set per \<subseteq> set (rt_snaps rt)" by (auto intro: R_same)
    obtain r2 w2 where s: "snapshot_all x (job_App j') per [] [] w1 = (r2, w2)" by fastforce
    have "case r2 of Inl e \<Rightarrow> R 4 7 w1 w2 | Inr (cls', ms') \<Rightarrow> R 4 4 w1 w2 \<and> (\<forall>cl\<in>set cls'. \<forall>c u. R 7 7 u (cl c u))"
      by (rule R_snapshot_all[OF s per]) simp
    then show ?thesis using assms h Inr sf c s R_trans[OF R1, of 4 7 w2] R_trans[OF R1, of 4 4 w2]
      by (auto simp: autoMounts_def intro: R_run_cleanups split: sum.splits)
  qed
qed

lemma R_find_mode: "find_mode ss mode = Some s \<Longrightarrow> s \<in> set ss"
  by (induction ss) (auto split: if_splits)

lemma R_sourceMountsFor:
  assumes "sourceMountsFor rt oc x j' w = (r, w')"
  shows "case r of Inl e \<Rightarrow> R 4 7 w w' | Inr (ms, cl) \<Rightarrow> R 4 4 w w' \<and> (\<forall>c u. R 7 7 u (cl c u))"
  using assms R_autoMounts[of x j' w r w'] R_strictMounts[of x j' _ w r w'] R_le[of 4 7 w]
  by (auto simp: sourceMountsFor_def snapshotterFor_def Let_def R_refl dest: R_find_mode split: if_splits option.splits)

text \<open>The run from the inside out.\<close>

lemma R_run_mover_phase:
  assumes "run_mover_phase rt oc x j t renv w = (r, w')" "C x"
  shows "R 4 7 w w'"
proof -
  obtain r0 w0 where h: "sourceMountsFor rt oc x j w = (r0, w0)" by fastforce
  note R0 = R_sourceMountsFor[OF h]
  show ?thesis
  proof (cases r0)
    case (Inl e) with assms h R0 show ?thesis by (auto simp: run_mover_phase_def)
  next
    case (Inr mc)
    obtain ms cl where mc: "mc = (ms, cl)" by fastforce
    from R0 Inr mc have R0: "R 4 4 w w0" and cl: "R 7 7 u (cl c u)" for c u by auto
    obtain r1 w1 where m: "rt_RunMover rt x (backup_request oc j t renv ms (rt_now rt w0)) w0 = (r1, w1)" by fastforce
    let ?y = "WithTimeout (WithoutCancel x) post_timeout"
    obtain r2 w2 where k: "runHooks rt oc ?y j (spec_PostHooks (job_Spec j)) ''post'' w1 = (r2, w2)" by fastforce
    have "R 6 6 w1 w2" using R_hooks[OF C_timeout k] by (simp add: hook_phase_def)
    with R_trans[OF R0 R_mover[OF assms(2) m]] have R2: "R 4 6 w w2" by (rule R_trans) simp_all
    from assms(1) h Inr mc m k have "w' = w2 \<or> w' = cl (WithoutCancel x) w2"
      by (auto simp: run_mover_phase_def split: prod.splits if_splits)
    with R2 R_trans[OF R2 cl] show ?thesis by (auto intro: R_mono)
  qed
qed

end
context phased_run
begin

lemma R_ocall:
  assumes "ocall f st = (r, st')" "\<And>r w'. f (os_world st) = (r, w') \<Longrightarrow> R a b (os_world st) w'"
  shows "R a b (os_world st) (os_world st')"
  using assms by (auto simp: ocall_def split: prod.splits)

lemma R_acquire:
  assumes "acquire rt oc x st = (r, st')" shows "R 0 0 (os_world st) (os_world st')"
  using assms by (auto simp: acquire_def R_refl ocall_def dest: R_slot split: if_splits prod.splits option.splits)

lemma R_ensureCache:
  assumes "ensureCache rt oc x st = (r, st')" shows "R 1 1 (os_world st) (os_world st')"
  using assms by (auto simp: ensureCache_def R_refl ocall_def dest: R_cache split: if_splits prod.splits option.splits)

lemma R_cold_hold:
  assumes "cold_hold (job_Container j) (ocall (rt_Stop rt x (job_Container j))) st = (r, st')"
  shows "R 3 3 (os_world st) (os_world st')"
  using assms by (auto simp: cold_hold_def R_refl ocall_def dest: R_stop split: if_splits prod.splits option.splits)

lemma R_cold_release:
  "R 8 8 (os_world st) (os_world (cold_release (job_Container j) (\<lambda>st. snd (ocall (rt_Start rt x (job_Container j)) st)) st))"
proof -
  obtain r w' where "rt_Start rt x (job_Container j) (os_world st) = (r, w')" by fastforce
  with R_start[OF this] show ?thesis by (simp add: cold_release_def Let_def R_refl ocall_def)
qed

lemma R_run_quiesced:
  assumes "run_quiesced rt oc x j t renv st = (r, st')" "C x"
  shows "R 3 8 (os_world st) (os_world st')"
proof (cases "spec_Stop (job_Spec j)")
  case False
  with assms(1) have "ocall (run_mover_phase rt oc x j t renv) st = (r, st')" by (simp add: run_quiesced_def)
  from R_ocall[OF this R_run_mover_phase[OF _ assms(2)]] have "R 4 7 (os_world st) (os_world st')" .
  then show ?thesis by (rule R_mono) simp_all
next
  case True
  obtain e st1 where h: "cold_hold (job_Container j) (ocall (rt_Stop rt x (job_Container j))) st = (e, st1)" by fastforce
  note R1 = R_cold_hold[OF h]
  show ?thesis
  proof (cases e)
    case (Some e')
    with assms(1) True h have "st' = st1" by (auto simp: run_quiesced_def)
    with R_mono[OF R1, of 3 8] show ?thesis by simp
  next
    case None
    obtain r2 st2 where m: "ocall (run_mover_phase rt oc x j t renv) st1 = (r2, st2)" by fastforce
    from R_ocall[OF m R_run_mover_phase[OF _ assms(2)]] have "R 4 7 (os_world st1) (os_world st2)" .
    with R_trans[OF R1] have R2: "R 3 7 (os_world st) (os_world st2)" by simp
    from assms(1) True h None m
    have "st' = cold_release (job_Container j) (\<lambda>st. snd (ocall (rt_Start rt (WithoutCancel x) (job_Container j)) st)) st2"
      by (simp add: run_quiesced_def)
    with R_trans[OF R2 R_cold_release] show ?thesis by simp
  qed
qed

text \<open>A run ends in the preparation (phases 0 to 2), or it reaches the quiesced part with the holders of cold stops as it found them.\<close>

lemma R_run_prepared:
  assumes "run_prepared rt oc x j t st = (r, st')" "follows_caller x" "C x"
  obtains (early) "R 1 2 (os_world st) (os_world st')" "snd r \<noteq> None"
  | (reached) renv st2 where "R 1 2 (os_world st) (os_world st2)" "os_refs st2 = os_refs st"
      "run_quiesced rt oc x j t renv st2 = (r, st')" "os_locks st2 = os_locks st" "os_slots st2 = os_slots st"
proof (cases "resticEnv oc t (job_App j)")
  case (Inl e) with assms early show ?thesis by (auto simp: run_prepared_def R_le)
next
  case (Inr renv)
  obtain e st1 where c: "ensureCache rt oc x st = (e, st1)" by fastforce
  note R1 = R_ensureCache[OF c]
  obtain f st2 where h: "ocall (runHooks rt oc x j (spec_PreHooks (job_Spec j)) ''pre'') st1 = (f, st2)" by fastforce
  from R_ocall[OF h R_hooks[OF assms(3)]] have "R (hook_phase x) (hook_phase x) (os_world st1) (os_world st2)" .
  then have "R 2 2 (os_world st1) (os_world st2)" using assms(2) by (simp add: hook_phase_def)
  with R_trans[OF R1] have R2: "R 1 2 (os_world st) (os_world st2)" by simp
  have refs: "os_refs st2 = os_refs st" "os_locks st2 = os_locks st" "os_slots st2 = os_slots st" using c h
    by (auto simp: ensureCache_def ocall_def split: if_splits prod.splits option.splits)
  from assms(1) Inr c h consider "st' = st1" "snd r \<noteq> None" | "st' = st2" "snd r \<noteq> None"
    | "run_quiesced rt oc x j t renv st2 = (r, st')"
    by (auto simp: run_prepared_def split: option.splits)
  then show ?thesis using R_mono[OF R1, of 1 2] R2 refs early reached by cases auto
qed

lemma os_world_unlock [simp]: "os_world (unlock k st) = os_world st" "os_world (lock k st) = os_world st"
  "os_world (release oc st) = os_world st" "os_refs (lock k st) = os_refs st"
  by (simp_all add: unlock_def lock_def release_def)

lemma R_RunTarget_steps:
  assumes "RunTarget rt oc x j0 t st = (r, st')" "follows_caller x" "j = j0\<lparr>job_Sources := sourcesForTarget j0 t\<rparr>"
    and "C x \<or> 0 < conf_BackupTimeout (o_cfg oc)"
  obtains (early) "R 0 2 (os_world st) (os_world st')" "snd r \<noteq> None"
  | (reached) y renv st2 st3 where "R 0 2 (os_world st) (os_world st2)" "os_refs st2 = os_refs st"
      "y = x \<or> (\<exists>d. y = WithTimeout x d)" "run_quiesced rt oc y j t renv st2 = (r, st3)" "os_world st' = os_world st3" "C y"
      "os_locks st2 = (tgt_Name t @ ''|'' @ job_App j) # os_locks st"
      "os_slots st2 = (if conf_MaxParallel (o_cfg oc) \<le> 0 then os_slots st else os_slots st + 1)"
proof -
  let ?k = "tgt_Name t @ ''|'' @ job_App j"
  obtain e st1 where a: "acquire rt oc x (lock ?k st) = (e, st1)" by fastforce
  note R1 = R_acquire[OF a, simplified]
  have refs: "os_refs st1 = os_refs st" "os_locks st1 = ?k # os_locks st" using a
    by (auto simp: acquire_def ocall_def lock_def split: if_splits prod.splits option.splits)
  show thesis
  proof (cases e)
    case (Some e')
    with assms(1,3) a have "os_world st' = os_world st1" "snd r \<noteq> None" by (auto simp: RunTarget_def Let_def)
    with R_mono[OF R1, of 0 2] early show thesis by simp
  next
    case None
    with a have slots: "os_slots st1 = (if conf_MaxParallel (o_cfg oc) \<le> 0 then os_slots st else os_slots st + 1)"
      by (auto simp: acquire_def ocall_def lock_def split: if_splits prod.splits option.splits)
    obtain r2 st2 where q: "run_with_slot rt oc x j t st1 = (r2, st2)" by fastforce
    with assms(1,3) a None have e: "os_world st' = os_world st2" "r = r2" by (auto simp: RunTarget_def Let_def)
    show thesis
    proof (cases "Spec_BackupTimeout (o_ParseDuration oc) (job_Spec j)")
      case (Inl e2)
      with q have "st2 = st1" "snd r2 \<noteq> None" by (auto simp: run_with_slot_def)
      with e R_mono[OF R1, of 0 2] early show thesis by simp
    next
      case (Inr d)
      let ?y = "with_deadline x (if d > 0 then d else conf_BackupTimeout (o_cfg oc))"
      have y: "?y = x \<or> (\<exists>d. ?y = WithTimeout x d)" "follows_caller ?y" "C ?y" using assms(2,4) by (auto simp: with_deadline_def C_timeout)
      from q Inr have "run_prepared rt oc ?y j t st1 = (r2, st2)" by (simp add: run_with_slot_def)
      from this y(2,3) show thesis
      proof (cases rule: R_run_prepared)
        case 1: early
        with R_trans[OF R1 1(1)] e early show thesis by simp
      next
        case 2: (reached renv st3)
        with R_trans[OF R1 2(1)] refs slots e y(1,3) reached[of st3 ?y renv st2] show thesis by simp
      qed
    qed
  qed
qed

lemma R_RunTarget:
  assumes "RunTarget rt oc x j0 t st = (r, st')" "follows_caller x" "j = j0\<lparr>job_Sources := sourcesForTarget j0 t\<rparr>"
    and "C x \<or> 0 < conf_BackupTimeout (o_cfg oc)"
  shows "R 0 8 (os_world st) (os_world st')"
  using assms
proof (cases rule: R_RunTarget_steps)
  case early then show ?thesis by (auto intro: R_mono)
next
  case (reached y renv st2 st3)
  with R_trans[OF reached(1) R_run_quiesced[OF reached(4,6)]] show ?thesis by simp
qed

end

text \<open>The quiesced part, when the run stops the app itself and when it does not.\<close>

lemma run_quiesced_stops:
  assumes "run_quiesced rt oc x j t renv st = (r, st')" "spec_Stop (job_Spec j)" "os_refs st (job_Container j) = 0"
  obtains (failed) e where "rt_Stop rt x (job_Container j) (os_world st) = (Some e, os_world st')" "r = (no_result, Some e)"
  | (stopped) w1 w2 where "rt_Stop rt x (job_Container j) (os_world st) = (None, w1)"
      "run_mover_phase rt oc x j t renv w1 = (r, w2)"
      "os_world st' = snd (rt_Start rt (WithoutCancel x) (job_Container j) w2)"
  using assms
  by (auto simp: run_quiesced_def cold_hold_def cold_release_def ocall_def Let_def split: prod.splits option.splits)

lemma run_quiesced_shares:
  assumes "run_quiesced rt oc x j t renv st = (r, st')" "\<not> spec_Stop (job_Spec j) \<or> os_refs st (job_Container j) \<noteq> 0"
  shows "run_mover_phase rt oc x j t renv (os_world st) = (r, os_world st')"
  using assms
  by (auto simp: run_quiesced_def cold_hold_def cold_release_def ocall_def Let_def split: prod.splits option.splits if_splits)
section \<open>A traced runtime\<close>

text \<open>The calls a run makes on the runtime, in the order it makes them.\<close>

datatype event =
    ESlot ctx
  | ECache ctx
  | EAppEnv ctx string
  | EAppProject ctx string "string res"
  | EOneShot ctx run_spec
  | EExec ctx string "string list" "string list" string
  | EStop ctx string "error option"
  | EVolume ctx string
  | EResolve ctx string
  | ESnapshot ctx string
  | EMover ctx request
  | ECleanup ctx string
  | EStart ctx string
  | EOther

type_synonym 'w tr = "'w \<times> event list"

definition noted :: "('a \<Rightarrow> event) \<Rightarrow> ('w \<Rightarrow> 'a \<times> 'w) \<Rightarrow> 'w tr \<Rightarrow> 'a \<times> 'w tr" where
  "noted k f wt = (case f (fst wt) of (r, w') \<Rightarrow> (r, (w', snd wt @ [k r])))"

definition noted_cleanup :: "string \<Rightarrow> (ctx \<Rightarrow> 'w \<Rightarrow> 'w) \<Rightarrow> ctx \<Rightarrow> 'w tr \<Rightarrow> 'w tr" where
  "noted_cleanup mode cl c wt = (cl c (fst wt), snd wt @ [ECleanup c mode])"

definition noted_snaps :: "'w snapshotter \<Rightarrow> 'w tr snapshotter" where
  "noted_snaps s = \<lparr>
     sn_Snapshot = (\<lambda>x app srcs wt.
       case noted (\<lambda>r. ESnapshot x (sn_Mode s)) (sn_Snapshot s x app srcs) wt of
         (Inl e, wt) \<Rightarrow> (Inl e, wt)
       | (Inr (ms, cl), wt) \<Rightarrow> (Inr (ms, noted_cleanup (sn_Mode s) cl), wt)),
     sn_Mode = sn_Mode s,
     sn_Resolve = (\<lambda>x srcs. noted (\<lambda>r. EResolve x (sn_Mode s)) (sn_Resolve s x srcs)),
     sn_Reap = (\<lambda>x ps. noted (\<lambda>r. EOther) (sn_Reap s x ps))\<rparr>"

definition etraced :: "'w runtime \<Rightarrow> 'w tr runtime" where
  "etraced rt = \<lparr>
     rt_RunMover = (\<lambda>x req. noted (\<lambda>r. EMover x req) (rt_RunMover rt x req)),
     rt_ReapMovers = (\<lambda>x k. noted (\<lambda>r. EOther) (rt_ReapMovers rt x k)),
     rt_RunOneShot = (\<lambda>x s. noted (\<lambda>r. EOneShot x s) (rt_RunOneShot rt x s)),
     rt_AppEnv = (\<lambda>x i. noted (\<lambda>r. EAppEnv x i) (rt_AppEnv rt x i)),
     rt_AppProject = (\<lambda>x i. noted (EAppProject x i) (rt_AppProject rt x i)),
     rt_ReapHooks = (\<lambda>x. noted (\<lambda>r. EOther) (rt_ReapHooks rt x)),
     rt_Exec = map_option (\<lambda>ex x i c e u. noted (\<lambda>r. EExec x i c e u) (ex x i c e u)) (rt_Exec rt),
     rt_Stop = (\<lambda>x i. noted (EStop x i) (rt_Stop rt x i)),
     rt_Start = (\<lambda>x i. noted (\<lambda>r. EStart x i) (rt_Start rt x i)),
     rt_EnsureCache = (\<lambda>x n. noted (\<lambda>r. ECache x) (rt_EnsureCache rt x n)),
     rt_VolumeHostPath = (\<lambda>x n. noted (\<lambda>r. EVolume x n) (rt_VolumeHostPath rt x n)),
     rt_RunningMoverBinds = (\<lambda>x. noted (\<lambda>r. EOther) (rt_RunningMoverBinds rt x)),
     rt_slot = (\<lambda>x. noted (\<lambda>r. ESlot x) (rt_slot rt x)),
     rt_snaps = map noted_snaps (rt_snaps rt),
     rt_now = (\<lambda>wt. rt_now rt (fst wt))\<rparr>"

lemma noted_appends: "noted k f wt = (r, wt') \<Longrightarrow> snd wt' = snd wt @ [k r]"
  by (auto simp: noted_def split: prod.splits)

section \<open>Phases of the trace\<close>

fun phase :: "event \<Rightarrow> nat" where
  "phase (ESlot x) = 0"
| "phase (ECache x) = 1"
| "phase (EAppEnv x i) = hook_phase x"
| "phase (EAppProject x i r) = hook_phase x"
| "phase (EOneShot x s) = hook_phase x"
| "phase (EExec x i c e u) = hook_phase x"
| "phase (EStop x i r) = 3"
| "phase (EVolume x n) = 4"
| "phase (EResolve x n) = 4"
| "phase (ESnapshot x n) = 4"
| "phase (EMover x r) = 5"
| "phase (ECleanup x n) = 7"
| "phase (EStart x i) = 8"
| "phase EOther = 9"

text \<open>Events of the phases from \<open>a\<close> to \<open>b\<close>, in order of phase, and a step that appends such events.\<close>

definition phased :: "nat \<Rightarrow> nat \<Rightarrow> event list \<Rightarrow> bool" where
  "phased a b ks \<longleftrightarrow> sorted (map phase ks) \<and> (\<forall>k\<in>set ks. a \<le> phase k \<and> phase k \<le> b)"

definition ext :: "nat \<Rightarrow> nat \<Rightarrow> 'w tr \<Rightarrow> 'w tr \<Rightarrow> bool" where
  "ext a b wt wt' \<longleftrightarrow> (\<exists>ks. snd wt' = snd wt @ ks \<and> phased a b ks)"

lemma phased_Nil [simp]: "phased a b []"
  by (simp add: phased_def)

lemma phased_append: "phased a b ks \<Longrightarrow> phased c d ls \<Longrightarrow> a \<le> b \<Longrightarrow> b \<le> c \<Longrightarrow> c \<le> d \<Longrightarrow> phased a d (ks @ ls)"
  by (force simp: phased_def sorted_append)

lemma phased_mono: "phased a b ks \<Longrightarrow> c \<le> a \<Longrightarrow> b \<le> d \<Longrightarrow> phased c d ks"
  by (force simp: phased_def)

lemma ext_refl: "ext a b wt wt"
  by (simp add: ext_def)

lemma ext_trans: "ext a b u v \<Longrightarrow> ext c d v w \<Longrightarrow> a \<le> b \<Longrightarrow> b \<le> c \<Longrightarrow> c \<le> d \<Longrightarrow> ext a d u w"
  unfolding ext_def by (metis append.assoc phased_append)

lemma ext_mono: "ext a b u v \<Longrightarrow> c \<le> a \<Longrightarrow> b \<le> d \<Longrightarrow> ext c d u v"
  unfolding ext_def by (metis phased_mono)

lemma ext_noted: "noted k f wt = (r, wt') \<Longrightarrow> phase (k r) = p \<Longrightarrow> ext p p wt wt'"
  by (auto simp: ext_def phased_def dest: noted_appends)

text \<open>The calls of the traced runtime, each with its phase.\<close>

lemma etraced_ext:
  "rt_RunMover (etraced rt) x req wt = (r1, wt') \<Longrightarrow> ext 5 5 wt wt'"
  "rt_RunOneShot (etraced rt) x s wt = (r2, wt') \<Longrightarrow> ext (hook_phase x) (hook_phase x) wt wt'"
  "rt_AppEnv (etraced rt) x i wt = (r3, wt') \<Longrightarrow> ext (hook_phase x) (hook_phase x) wt wt'"
  "rt_AppProject (etraced rt) x i wt = (r4, wt') \<Longrightarrow> ext (hook_phase x) (hook_phase x) wt wt'"
  "rt_Stop (etraced rt) x i wt = (r2, wt') \<Longrightarrow> ext 3 3 wt wt'"
  "rt_Start (etraced rt) x i wt = (r2, wt') \<Longrightarrow> ext 8 8 wt wt'"
  "rt_EnsureCache (etraced rt) x i wt = (r2, wt') \<Longrightarrow> ext 1 1 wt wt'"
  "rt_VolumeHostPath (etraced rt) x i wt = (r5, wt') \<Longrightarrow> ext 4 4 wt wt'"
  "rt_slot (etraced rt) x wt = (r2, wt') \<Longrightarrow> ext 0 0 wt wt'"
  by (simp_all add: etraced_def) (erule ext_noted; simp)+

lemma exec_ext:
  assumes "rt_Exec (etraced rt) = Some ex" "ex x i c e u wt = (r, wt')"
  shows "ext (hook_phase x) (hook_phase x) wt wt'"
  using assms by (auto simp: etraced_def intro: ext_noted)

lemma noted_snaps_ext:
  "s \<in> set (rt_snaps (etraced rt)) \<Longrightarrow> sn_Resolve s x srcs wt = (r3, wt') \<Longrightarrow> ext 4 4 wt wt'"
  "s \<in> set (rt_snaps (etraced rt)) \<Longrightarrow> sn_Snapshot s x app srcs wt = (r4, wt') \<Longrightarrow> ext 4 4 wt wt'"
  "s \<in> set (rt_snaps (etraced rt)) \<Longrightarrow> sn_Snapshot s x app srcs wt = (Inr (ms, cl), wt') \<Longrightarrow> ext 7 7 u (cl y u)"
proof -
  show "s \<in> set (rt_snaps (etraced rt)) \<Longrightarrow> sn_Resolve s x srcs wt = (r3, wt') \<Longrightarrow> ext 4 4 wt wt'"
    by (auto simp: etraced_def noted_snaps_def intro: ext_noted)
  show "s \<in> set (rt_snaps (etraced rt)) \<Longrightarrow> sn_Snapshot s x app srcs wt = (r4, wt') \<Longrightarrow> ext 4 4 wt wt'"
    by (auto simp: etraced_def noted_snaps_def split: prod.splits sum.splits dest!: ext_noted[OF _ refl])
  show "s \<in> set (rt_snaps (etraced rt)) \<Longrightarrow> sn_Snapshot s x app srcs wt = (Inr (ms, cl), wt') \<Longrightarrow> ext 7 7 u (cl y u)"
    by (auto simp: etraced_def noted_snaps_def noted_cleanup_def ext_def phased_def split: prod.splits sum.splits)
qed

lemma ext_same: "ext a a u v \<Longrightarrow> ext a a v w \<Longrightarrow> ext a a u w"
  using ext_trans[of a a u v a a w] by simp

lemma exec_target_ext:
  "exec_target (etraced rt) x j h ph i wt = (r, wt') \<Longrightarrow> ext (hook_phase x) (hook_phase x) wt wt'"
  by (auto simp: exec_target_def Let_def ext_refl dest: etraced_ext(4) split: if_splits prod.splits sum.splits)

text \<open>The steps of a hook: the app's environment, then either the one-shot run or the target and the exec.\<close>

lemma runOneHook_cases:
  assumes "runOneHook rt oc x j h ph i w = (r, w')"
  obtains (timeout) "w' = w"
  | (run) y re w1 sp r2 where "y = x \<or> (\<exists>d. y = WithTimeout x d)"
      "(hook_Env h = [] \<and> w1 = w) \<or> rt_AppEnv rt y (job_Container j) w = (re, w1)"
      "rt_RunOneShot rt y sp w1 = (r2, w')"
  | (noexec) y re where "y = x \<or> (\<exists>d. y = WithTimeout x d)" "r \<noteq> None"
      "(hook_Env h = [] \<and> w' = w) \<or> rt_AppEnv rt y (job_Container j) w = (re, w')"
  | (notarget) y re w1 ex e where "y = x \<or> (\<exists>d. y = WithTimeout x d)" "r = Some e" "rt_Exec rt = Some ex"
      "(hook_Env h = [] \<and> w1 = w) \<or> rt_AppEnv rt y (job_Container j) w = (re, w1)"
      "exec_target rt y j h ph i w1 = (Inl e, w')"
  | (exec) y re w1 ex tg w2 env' r2 where "y = x \<or> (\<exists>d. y = WithTimeout x d)" "rt_Exec rt = Some ex"
      "(hook_Env h = [] \<and> w1 = w) \<or> rt_AppEnv rt y (job_Container j) w = (re, w1)"
      "exec_target rt y j h ph i w1 = (Inr tg, w2)" "ex y tg (hook_Command h) env' (hook_User h) w2 = (r2, w')"
proof (cases "TimeoutDuration (o_ParseDuration oc) h")
  case (Inl e) with assms timeout show thesis by (auto simp: runOneHook_def)
next
  case (Inr d)
  define y where "y = (if d > 0 then WithTimeout x d else x)"
  have y: "y = x \<or> (\<exists>d. y = WithTimeout x d)" by (simp add: y_def)
  obtain re w1 where e: "(if hook_Env h \<noteq> [] then rt_AppEnv rt y (job_Container j) w else (Inr [], w)) = (re, w1)" by fastforce
  then have e': "(hook_Env h = [] \<and> w1 = w) \<or> rt_AppEnv rt y (job_Container j) w = (re, w1)" by (auto split: if_splits)
  note eq = assms[unfolded runOneHook_def Inr sum.case Let_def, folded y_def, unfolded e prod.case]
  show thesis
  proof (cases "Hook_Mode h = ''run''")
    case True
    with eq show thesis using run[OF y e'] by (fastforce split: prod.splits option.splits)
  next
    case False
    show thesis
    proof (cases "rt_Exec rt")
      case None with eq False e' noexec[OF y] show thesis by auto
    next
      case (Some ex)
      obtain tr w2 where t: "exec_target rt y j h ph i w1 = (tr, w2)" by fastforce
      show thesis
      proof (cases tr)
        case (Inl e2) with eq False Some t notarget[OF y _ Some e'] show thesis by auto
      next
        case (Inr tg)
        with eq False Some t show thesis using exec[OF y Some e'] by (fastforce split: prod.splits option.splits)
      qed
    qed
  qed
qed

lemma runOneHook_same:
  assumes "\<And>y s u r v. rt_RunOneShot rt y s u = (r, v) \<Longrightarrow> f v = f u" "\<And>y c u r v. rt_AppEnv rt y c u = (r, v) \<Longrightarrow> f v = f u"
    and "\<And>y c u r v. rt_AppProject rt y c u = (r, v) \<Longrightarrow> f v = f u"
    and "\<And>ex y c cmd en us u r v. rt_Exec rt = Some ex \<Longrightarrow> ex y c cmd en us u = (r, v) \<Longrightarrow> f v = f u"
    and "runOneHook rt oc x j h ph i w = (r, w')"
  shows "f w' = f w"
proof -
  have t: "exec_target rt y j h ph i u = (rr, u') \<Longrightarrow> f u' = f u" for y u rr u'
    using assms(3) by (auto simp: exec_target_def Let_def split: if_splits prod.splits sum.splits)
  have e: "f w1 = f w" if "(hook_Env h = [] \<and> w1 = w) \<or> rt_AppEnv rt y (job_Container j) w = (re, w1)" for y re w1
    using that assms(2) by blast
  from assms(5) show ?thesis
  proof (cases rule: runOneHook_cases)
    case (run y re w1 sp r2) then show ?thesis using e assms(1) by metis
  next
    case (noexec y re) then show ?thesis using e by metis
  next
    case (notarget y re w1 ex e1) then show ?thesis using e t by metis
  next
    case (exec y re w1 ex tg w2 env' r2) then show ?thesis using e t assms(4) by metis
  qed simp
qed

lemma runOneHook_ext:
  assumes "runOneHook (etraced rt) oc x j h ph i wt = (r, wt')"
  shows "ext (hook_phase x) (hook_phase x) wt wt'"
proof -
  have y: "hook_phase y = hook_phase x" if "y = x \<or> (\<exists>d. y = WithTimeout x d)" for y using that by auto
  have env: "ext (hook_phase x) (hook_phase x) wt w1"
    if "y = x \<or> (\<exists>d. y = WithTimeout x d)" "(hook_Env h = [] \<and> w1 = wt) \<or> rt_AppEnv (etraced rt) y (job_Container j) wt = (re, w1)" for y re w1
    using that(2) y[OF that(1)] etraced_ext(3)[of rt y] ext_refl by fastforce
  from assms show ?thesis
  proof (cases rule: runOneHook_cases)
    case timeout then show ?thesis by (simp add: ext_refl)
  next
    case (run y re w1 sp r2)
    with env[OF run(1,2)] etraced_ext(2)[OF run(3)] y show ?thesis by (metis ext_same)
  next
    case (noexec y re) then show ?thesis using env by blast
  next
    case (notarget y re w1 ex e)
    with env[OF notarget(1,4)] exec_target_ext[OF notarget(5)] y show ?thesis by (metis ext_same)
  next
    case (exec y re w1 ex tg w2 env' r2)
    with env[OF exec(1,3)] exec_target_ext[OF exec(4)] exec_ext[OF exec(2,5)] y show ?thesis by (metis ext_same)
  qed
qed

interpretation tr: phased_run "etraced rt" oc j t ext "\<lambda>_. True" for rt oc j t
proof (unfold_locales, goal_cases)
  case 1 show ?case by simp
next
  case 2 show ?case by (rule ext_refl)
next
  case 3 then show ?case by (rule ext_trans)
next
  case 4 then show ?case by (rule ext_mono)
next
  case 7 from 7(2) show ?case by (rule runOneHook_ext)
qed (erule etraced_ext noted_snaps_ext, assumption?)+

end
