(* ===== verification/Backup_Runs.thy ===== *)
theory Backup_Runs
  imports Run_Phases
begin

text \<open>
  Properties of one run of the orchestrator against an arbitrary runtime: what it shares with other
  runs is released on every path, its calls come in order, a cold stop is followed by a start,
  hooks stay confined, and a restore brackets its mover.
\<close>

section \<open>Locks, slots and cold-stop holders\<close>

text \<open>What one run shares with others: every operation leaves it as it found it.\<close>

definition shared :: "'w ostate \<Rightarrow> string list \<times> nat \<times> (string \<Rightarrow> int)" where
  "shared st = (os_locks st, os_slots st, os_refs st)"

lemma shared_world [simp]: "shared (st\<lparr>os_world := w\<rparr>) = shared st" "shared (st\<lparr>os_cacheOK := b\<rparr>) = shared st"
  by (simp_all add: shared_def)

lemma shared_ocall: "ocall f st = (r, st') \<Longrightarrow> shared st' = shared st"
  by (auto simp: ocall_def split: prod.splits)

lemma shared_ensureCache: "ensureCache rt oc x st = (r, st') \<Longrightarrow> shared st' = shared st"
  by (auto simp: ensureCache_def dest: shared_ocall split: if_splits prod.splits option.splits)

lemma shared_unlock: "shared (unlock k st') = shared st" if "shared st' = shared (lock k st)"
  using that by (simp add: shared_def lock_def unlock_def)

lemma shared_release:
  assumes "acquire rt oc x st = (None, st1)" "shared st2 = shared st1"
  shows "shared (release oc st2) = shared st"
  using assms by (auto simp: acquire_def release_def shared_def ocall_def split: if_splits prod.splits option.splits)

lemma shared_acquire_failed: "acquire rt oc x st = (Some e, st') \<Longrightarrow> shared st' = shared st"
  by (auto simp: acquire_def dest: shared_ocall split: if_splits prod.splits option.splits)

lemma shared_cold:
  assumes "cold_hold c (ocall f) st = (e, st1)"
  shows "e \<noteq> None \<Longrightarrow> shared st1 = shared st"
    and "e = None \<Longrightarrow> shared st2 = shared st1 \<Longrightarrow> shared (cold_release c (\<lambda>st. snd (ocall g st)) st2) = shared st"
  using assms by (auto simp: cold_hold_def cold_release_def ocall_def shared_def Let_def
      split: if_splits prod.splits option.splits)

lemma shared_run_quiesced: "run_quiesced rt oc x j t renv st = (r, st') \<Longrightarrow> shared st' = shared st"
  by (auto simp: run_quiesced_def dest: shared_ocall shared_cold split: if_splits prod.splits option.splits)

lemma shared_run_with_slot: "run_with_slot rt oc x j t st = (r, st') \<Longrightarrow> shared st' = shared st"
  by (auto simp: run_with_slot_def run_prepared_def dest!: shared_ensureCache shared_ocall shared_run_quiesced
      split: sum.splits prod.splits option.splits)

lemma shared_run_tool: "run_tool rt oc x app t a out l k st = (r, st') \<Longrightarrow> shared st' = shared st"
  by (auto simp: run_tool_def dest!: shared_ensureCache shared_ocall split: sum.splits prod.splits option.splits)

lemma shared_RunTarget: "shared (snd (RunTarget rt oc x j t st)) = shared st"
  by (auto simp: RunTarget_def Let_def split: prod.splits option.splits
      intro!: shared_unlock shared_release dest: shared_acquire_failed shared_run_with_slot)

lemma shared_locked_tool: "shared (snd (locked_tool rt oc x app t a out st)) = shared st"
  by (auto simp: locked_tool_def Let_def split: prod.splits option.splits
      intro!: shared_unlock shared_release dest: shared_acquire_failed shared_run_tool)

lemma shared_RunSnapshots: "shared (snd (RunSnapshots rt oc x app t st)) = shared st"
  by (auto simp: RunSnapshots_def Let_def split: prod.splits intro!: shared_unlock dest: shared_run_tool)

lemma shared_restore:
  assumes "(case resticEnv oc t app of Inl e \<Rightarrow> (Some e, st)
      | Inr renv \<Rightarrow> (case ensureCache rt oc x st of (Some e, st) \<Rightarrow> (Some e, st)
        | (None, st) \<Rightarrow> ocall (restore_body rt oc x app jp t opts renv) st)) = (e, st1)"
  shows "shared st1 = shared st"
  using assms by (auto dest!: shared_ensureCache shared_ocall split: sum.splits prod.splits option.splits)

lemma shared_RunRestore: "shared (snd (RunRestore rt oc x app jp t opts st)) = shared st"
  by (auto simp: RunRestore_def Let_def split: prod.splits intro!: shared_unlock dest: shared_restore)

text \<open>
  C21. Every operation of the orchestrator, on every path (a failed wait for a slot, an invalid timeout, a failed
  hook, stop, snapshot or mover), leaves what runs share - the repository locks, the taken slots and
  the counts of cold-stop holders - as it found it.
\<close>

theorem runs_release_everything:
  "shared (snd (RunTarget rt oc x j t st)) = shared st \<and>
   shared (snd (RunCheck rt oc x app t out st)) = shared st \<and>
   shared (snd (RunPrune rt oc x app t out st)) = shared st \<and>
   shared (snd (RunSnapshots rt oc x app t st)) = shared st \<and>
   shared (snd (RunRestore rt oc x app jp t opts st)) = shared st"
  unfolding RunCheck_def RunPrune_def
  by (intro conjI shared_RunTarget shared_locked_tool shared_RunSnapshots shared_RunRestore)
section \<open>Order of a run\<close>


lemma bracket_alone:
  assumes "run_quiesced (etraced rt) oc y j t renv st2 = (res, st3)" "spec_Stop (job_Spec j)" "os_refs st2 (job_Container j) = 0"
  shows "(\<exists>e. snd (os_world st3) = snd (os_world st2) @ [EStop y (job_Container j) (Some e)]) \<or>
    (\<exists>mid. phased 4 7 mid \<and>
       snd (os_world st3) = snd (os_world st2) @ [EStop y (job_Container j) None] @ mid @ [EStart (WithoutCancel y) (job_Container j)])"
  using assms
proof (cases rule: run_quiesced_stops)
  case (failed e)
  then show ?thesis by (auto simp: etraced_def dest: noted_appends)
next
  case (stopped w1 w2)
  then have "snd w1 = snd (os_world st2) @ [EStop y (job_Container j) None]" by (auto simp: etraced_def dest: noted_appends)
  moreover obtain mid where "snd w2 = snd w1 @ mid" "phased 4 7 mid"
    using tr.R_run_mover_phase[OF stopped(2) TrueI] by (auto simp: ext_def)
  moreover have "snd (os_world st3) = snd w2 @ [EStart (WithoutCancel y) (job_Container j)]"
    using stopped(3) by (auto simp: etraced_def noted_def split: prod.splits)
  ultimately show ?thesis by auto
qed

lemma bracket_shared:
  assumes "run_quiesced (etraced rt) oc y j t renv st2 = (res, st3)" "\<not> spec_Stop (job_Spec j) \<or> os_refs st2 (job_Container j) \<noteq> 0"
    and "phased 0 2 (snd (os_world st2))" "k \<in> set (snd (os_world st3))"
  shows "phase k \<noteq> 3 \<and> phase k \<noteq> 8"
proof -
  from tr.R_run_mover_phase[OF run_quiesced_shares[OF assms(1,2)] TrueI]
  obtain mid where mid: "snd (os_world st3) = snd (os_world st2) @ mid" "phased 4 7 mid" by (auto simp: ext_def)
  from assms(4) mid(1) consider "k \<in> set (snd (os_world st2))" | "k \<in> set mid" by auto
  then show ?thesis using assms(3) mid(2) by cases (auto simp: phased_def dest: bspec)
qed


section \<open>What hooks can reach\<close>

text \<open>
  Every exec of a trace goes to the job's own container, or to one that a lookup earlier in the trace
  found in the job's compose project.
\<close>

definition confined :: "job \<Rightarrow> event list \<Rightarrow> bool" where
  "confined j ks \<longleftrightarrow>
     (\<forall>pre x c cmd env u post. ks = pre @ EExec x c cmd env u # post \<longrightarrow>
        c = job_Container j \<or> (job_Project j \<noteq> [] \<and> (\<exists>y. EAppProject y c (Inr (job_Project j)) \<in> set pre)))"

lemma confined_append: "confined j ks \<Longrightarrow> confined j ls \<Longrightarrow> confined j (ks @ ls)"
  unfolding confined_def append_eq_append_conv2 append_eq_Cons_conv by (fastforce simp: append_eq_Cons_conv)

lemma confined_single [simp]: "confined j []" "(\<forall>x c cmd env u. k \<noteq> EExec x c cmd env u) \<Longrightarrow> confined j [k]"
  by (auto simp: confined_def append_eq_Cons_conv Cons_eq_append_conv)

definition cext :: "job \<Rightarrow> nat \<Rightarrow> nat \<Rightarrow> 'w tr \<Rightarrow> 'w tr \<Rightarrow> bool" where
  "cext j a b wt wt' \<longleftrightarrow> (\<exists>ks. snd wt' = snd wt @ ks \<and> confined j ks)"

lemma cext_refl: "cext j a b wt wt"
  by (simp add: cext_def)

lemma cext_trans: "cext j a b u v \<Longrightarrow> cext j c d v w \<Longrightarrow> cext j a' b' u w"
  unfolding cext_def by (metis append.assoc confined_append)

lemma cext_noted: "noted k f wt = (r, wt') \<Longrightarrow> (\<forall>x c cmd env u. k r \<noteq> EExec x c cmd env u) \<Longrightarrow> cext j a b wt wt'"
  by (auto simp: cext_def dest!: noted_appends)

lemma etraced_cext:
  "rt_RunMover (etraced rt) x req wt = (r1, wt') \<Longrightarrow> cext j a b wt wt'"
  "rt_RunOneShot (etraced rt) x s wt = (r2, wt') \<Longrightarrow> cext j a b wt wt'"
  "rt_AppEnv (etraced rt) x i wt = (r3, wt') \<Longrightarrow> cext j a b wt wt'"
  "rt_AppProject (etraced rt) x i wt = (r4, wt') \<Longrightarrow> cext j a b wt wt'"
  "rt_Stop (etraced rt) x i wt = (r2, wt') \<Longrightarrow> cext j a b wt wt'"
  "rt_Start (etraced rt) x i wt = (r2, wt') \<Longrightarrow> cext j a b wt wt'"
  "rt_EnsureCache (etraced rt) x i wt = (r2, wt') \<Longrightarrow> cext j a b wt wt'"
  "rt_VolumeHostPath (etraced rt) x i wt = (r5, wt') \<Longrightarrow> cext j a b wt wt'"
  "rt_slot (etraced rt) x wt = (r2, wt') \<Longrightarrow> cext j a b wt wt'"
  by (simp_all add: etraced_def) (erule cext_noted; simp)+

lemma noted_snaps_cext:
  "s \<in> set (rt_snaps (etraced rt)) \<Longrightarrow> sn_Resolve s x srcs wt = (r3, wt') \<Longrightarrow> cext j a b wt wt'"
  "s \<in> set (rt_snaps (etraced rt)) \<Longrightarrow> sn_Snapshot s x app srcs wt = (r4, wt') \<Longrightarrow> cext j a b wt wt'"
  "s \<in> set (rt_snaps (etraced rt)) \<Longrightarrow> sn_Snapshot s x app srcs wt = (Inr (ms, cl), wt') \<Longrightarrow> cext j a b u (cl y u)"
  by (auto simp: etraced_def noted_snaps_def noted_cleanup_def cext_def dest!: noted_appends split: prod.splits sum.splits)

text \<open>The target of an exec is the job's container, or was looked up in its project.\<close>

lemma exec_target_confined:
  assumes "exec_target (etraced rt) y j h ph i wt = (Inr tg, w2)" "rt_Exec (etraced rt) = Some ex" "ex y tg cmd env' u w2 = (r, w3)"
  shows "cext j a b wt w3"
proof -
  have e: "snd w3 = snd w2 @ [EExec y tg cmd env' u]" using assms(2,3) by (auto simp: etraced_def dest: noted_appends)
  from assms(1) consider "tg = job_Container j" "w2 = wt"
    | "job_Project j \<noteq> []" "rt_AppProject (etraced rt) y tg wt = (Inr (job_Project j), w2)"
    by (auto simp: exec_target_def Let_def split: if_splits prod.splits sum.splits)
  then show ?thesis
  proof cases
    case 1 with e show ?thesis by (auto simp: cext_def confined_def append_eq_Cons_conv Cons_eq_append_conv)
  next
    case 2
    then have "snd w2 = snd wt @ [EAppProject y tg (Inr (job_Project j))]" by (auto simp: etraced_def dest: noted_appends)
    with e 2(1) show ?thesis
      by (auto simp: cext_def confined_def append_eq_Cons_conv Cons_eq_append_conv)
  qed
qed

lemma exec_target_cext: "exec_target (etraced rt) x j' h ph i wt = (r, wt') \<Longrightarrow> cext j a b wt wt'"
  by (auto simp: exec_target_def Let_def cext_refl dest: etraced_cext(4) split: if_splits prod.splits sum.splits)

lemma runOneHook_cext:
  assumes "runOneHook (etraced rt) oc x j h ph i wt = (r, wt')"
  shows "cext j a b wt wt'"
proof -
  have env: "cext j a b wt w1"
    if "(hook_Env h = [] \<and> w1 = wt) \<or> rt_AppEnv (etraced rt) y (job_Container j) wt = (re, w1)" for y re w1
    using that cext_refl etraced_cext(3)[of rt y] by blast
  from assms show ?thesis
  proof (cases rule: runOneHook_cases)
    case timeout then show ?thesis by (simp add: cext_refl)
  next
    case (run y re w1 sp r2)
    show ?thesis by (rule cext_trans[OF env[OF run(2)] etraced_cext(2)[OF run(3)]])
  next
    case (noexec y re) then show ?thesis using env by blast
  next
    case (notarget y re w1 ex e)
    show ?thesis by (rule cext_trans[OF env[OF notarget(4)] exec_target_cext[OF notarget(5)]])
  next
    case (exec y re w1 ex tg w2 env' r2)
    show ?thesis by (rule cext_trans[OF env[OF exec(3)] exec_target_confined[OF exec(4,2,5)]])
  qed
qed

interpretation confined_run: phased_run "etraced rt" oc j t "cext j" "\<lambda>_. True" for rt oc j t
proof (unfold_locales, goal_cases)
  case 1 show ?case by simp
next
  case 2 show ?case by (rule cext_refl)
next
  case 3 from 3(1,2) show ?case by (rule cext_trans)
next
  case 4 then show ?case by (simp add: cext_def)
next
  case 7 from 7(2) show ?case by (rule runOneHook_cext)
qed (erule etraced_cext noted_snaps_cext, assumption?)+
text \<open>
  C23. No hook of a backup executes a command outside the job's own container, unless the code has
  looked the other container up and found it in the job's compose project.
\<close>

theorem hooks_confined:
  assumes "follows_caller x" "snd (os_world st) = []"
  shows "confined j (snd (os_world (snd (RunTarget (etraced rt) oc x j t st))))"
proof -
  obtain r st' where run: "RunTarget (etraced rt) oc x j t st = (r, st')" by fastforce
  let ?j = "j\<lparr>job_Sources := sourcesForTarget j t\<rparr>"
  have "confined ?j (snd (os_world st'))"
    using confined_run.R_RunTarget[OF run assms(1) refl disjI1[OF TrueI]] assms(2) by (auto simp: cext_def)
  with run show ?thesis by (simp add: confined_def)
qed

lemma runOneHook_allowlist:
  assumes "\<forall>n. o_getenv oc (hookEnvPrefix @ n) = g (hookEnvPrefix @ n)"
  shows "runOneHook rt (oc\<lparr>o_getenv := g\<rparr>) x j h ph i w = runOneHook rt oc x j h ph i w"
proof -
  have e: "expandEnv g = expandEnv (o_getenv oc)"
    using assms by (simp add: fun_eq_iff expandEnv_def cong: option.case_cong)
  have u: "o_getenv (oc\<lparr>o_getenv := g\<rparr>) = g" "o_ParseDuration (oc\<lparr>o_getenv := g\<rparr>) = o_ParseDuration oc" by simp_all
  show ?thesis unfolding runOneHook_def u e ..
qed

text \<open>
  C26. Hooks never see sabon's own environment: the whole behaviour of the hooks of a run depends on
  it only through the variables of the allowlist prefix.
\<close>

theorem hooks_see_only_allowlist:
  "(\<forall>n. o_getenv oc (hookEnvPrefix @ n) = g (hookEnvPrefix @ n)) \<longrightarrow>
   runHooks rt (oc\<lparr>o_getenv := g\<rparr>) x j hs ph w = runHooks rt oc x j hs ph w"
proof (intro impI)
  assume g: "\<forall>n. o_getenv oc (hookEnvPrefix @ n) = g (hookEnvPrefix @ n)"
  have "hooks_loop rt (oc\<lparr>o_getenv := g\<rparr>) x j ph i hs w = hooks_loop rt oc x j ph i hs w" for i
    by (induction hs arbitrary: i w) (simp_all add: runOneHook_allowlist[OF g] split: prod.splits option.splits)
  then show "runHooks rt (oc\<lparr>o_getenv := g\<rparr>) x j hs ph w = runHooks rt oc x j hs ph w" by (simp add: runHooks_def)
qed

section \<open>Restores\<close>

text \<open>The calls of a restore after the cache: the mover, between a stop and a start when asked for.\<close>

definition restore_trace :: "ctx \<Rightarrow> job option \<Rightarrow> restore_options \<Rightarrow> request \<Rightarrow> event list" where
  "restore_trace x jp opts req =
     (case jp of
        Some j \<Rightarrow> if ro_Into opts = [] \<and> ro_Stop opts
                  then [EStop x (job_Container j) None, EMover x req, EStart (WithoutCancel x) (job_Container j)]
                  else [EMover x req]
      | None \<Rightarrow> [EMover x req])"

lemma restore_body_trace:
  assumes "restore_body (etraced rt) oc x app jp t opts renv wt = (e, wt')"
  shows "(e \<noteq> None \<and> (\<exists>ks. snd wt' = snd wt @ ks \<and> (\<forall>k\<in>set ks. \<exists>c f. k = EStop x c (Some f)))) \<or>
    (\<exists>now. snd wt' = snd wt @ restore_trace x jp opts (restore_request oc app jp t opts renv now) \<and> (ro_Into opts \<noteq> [] \<or> jp \<noteq> None))"
proof -
  have m: "\<exists>now. snd v' = snd v @ [EMover x (restore_request oc app jp t opts renv now)]"
    if "restore_mover (etraced rt) oc x app jp t opts renv v = (f, v')" for f v v'
    using that by (fastforce simp: restore_mover_def etraced_def dest: noted_appends split: prod.splits)
  show ?thesis
  proof (cases "ro_Into opts \<noteq> []")
    case True
    with assms m show ?thesis by (fastforce simp: restore_body_def restore_trace_def split: option.splits)
  next
    case into: False
    show ?thesis
    proof (cases jp)
      case None with assms into show ?thesis by (auto simp: restore_body_def)
    next
      case (Some j)
      show ?thesis
      proof (cases "ro_Stop opts")
        case False
        with assms m into Some show ?thesis by (fastforce simp: restore_body_def restore_trace_def)
      next
        case True
        obtain f w1 where s: "rt_Stop (etraced rt) x (job_Container j) wt = (f, w1)" by (rule prod.exhaust)
        then have w1: "snd w1 = snd wt @ [EStop x (job_Container j) f]" by (auto simp: etraced_def dest: noted_appends)
        show ?thesis
        proof (cases f)
          case (Some g) with assms into \<open>jp = _\<close> True s w1 show ?thesis by (auto simp: restore_body_def)
        next
          case None
          obtain e2 w2 where r: "restore_mover (etraced rt) oc x app jp t opts renv w1 = (e2, w2)" by (rule prod.exhaust)
          from assms into Some True s None r
          have "wt' = snd (rt_Start (etraced rt) (WithoutCancel x) (job_Container j) w2)" by (auto simp: restore_body_def)
          then have "snd wt' = snd w2 @ [EStart (WithoutCancel x) (job_Container j)]"
            by (auto simp: etraced_def noted_def split: prod.splits)
          with m[OF r] w1 None into Some True show ?thesis by (auto simp: restore_trace_def)
        qed
      qed
    qed
  qed
qed

lemma restore_request_mounts:
  "ro_Into opts \<noteq> [] \<or> jp \<noteq> None \<Longrightarrow>
   req_Mounts (restore_request oc app jp t opts renv now) =
     fst (cacheAndRepo oc t app) @ (if ro_Into opts = [] then sourceMounts (the jp) False else [])"
  by (auto simp: restore_request_def Let_def split: prod.splits option.splits)

lemma ensureCache_trace:
  "ensureCache (etraced rt) oc x st = (f, st1) \<Longrightarrow> snd (os_world st1) = snd (os_world st) @ (if os_cacheOK st then [] else [ECache x])"
  by (auto simp: ensureCache_def ocall_def etraced_def dest!: noted_appends split: if_splits prod.splits option.splits)

lemma RunRestore_cases:
  assumes "RunRestore (etraced rt) oc x app jp t opts st = (e, st')"
  obtains (early) "e \<noteq> None" "\<exists>ks. snd (os_world st') = snd (os_world st) @ ks \<and> set ks \<subseteq> {ECache x}"
  | (body) renv w1 where "resticEnv oc t app = Inr renv"
      "snd w1 = snd (os_world st) @ (if os_cacheOK st then [] else [ECache x])"
      "restore_body (etraced rt) oc x app jp t opts renv w1 = (e, os_world st')"
proof (cases "resticEnv oc t app")
  case (Inl f)
  with assms show thesis by (intro early) (auto simp: RunRestore_def Let_def unlock_def lock_def)
next
  case (Inr renv)
  let ?k = "tgt_Name t @ ''|'' @ app"
  obtain f st1 where c: "ensureCache (etraced rt) oc x (lock ?k st) = (f, st1)" by fastforce
  from ensureCache_trace[OF c] have ks: "snd (os_world st1) = snd (os_world st) @ (if os_cacheOK st then [] else [ECache x])"
    by (simp add: lock_def)
  show thesis
  proof (cases f)
    case (Some g)
    with assms Inr c ks show thesis by (intro early) (auto simp: RunRestore_def Let_def unlock_def)
  next
    case None
    with assms Inr c show thesis by (intro body[OF Inr ks]) (auto simp: RunRestore_def Let_def unlock_def ocall_def split: prod.splits)
  qed
qed

text \<open>
  C35. A restore either ends before the mover (with an error, and with the app not stopped), or its calls are
  exactly: the cache (once), a successful stop and at the end a start when an in-place restore asked
  for it, and between them one mover. A staging restore mounts no source of the app and an in-place
  one mounts the sources read-write; a restore without a job is always a staging one.
\<close>

theorem restore_bracketed:
  assumes "snd (os_world st) = []"
  shows "let (e, st') = RunRestore (etraced rt) oc x app jp t opts st; ks = snd (os_world st')
         in (e \<noteq> None \<and> (\<forall>k\<in>set ks. phase k \<le> 1 \<or> (\<exists>c f. k = EStop x c (Some f)))) \<or>
            (\<exists>renv now req. req = restore_request oc app jp t opts renv now \<and> resticEnv oc t app = Inr renv \<and>
               (ro_Into opts \<noteq> [] \<or> jp \<noteq> None) \<and>
               req_Mounts req = fst (cacheAndRepo oc t app) @
                 (if ro_Into opts = [] then sourceMounts (the jp) False else []) \<and>
               ks = (if os_cacheOK st then [] else [ECache x]) @ restore_trace x jp opts req)"
proof -
  obtain e st' where run: "RunRestore (etraced rt) oc x app jp t opts st = (e, st')" by fastforce
  then show ?thesis
  proof (cases rule: RunRestore_cases)
    case early
    then have "\<forall>k\<in>set (snd (os_world st')). phase k \<le> 1" using assms by auto
    with run early(1) show ?thesis by (simp add: Let_def)
  next
    case (body renv w1)
    from restore_body_trace[OF body(3)] show ?thesis
    proof (rule disjE, elim exE conjE)
      fix ks assume "e \<noteq> None" "snd (os_world st') = snd w1 @ ks" "\<forall>k\<in>set ks. \<exists>c f. k = EStop x c (Some f)"
      with run body(2) assms show ?thesis by (auto simp: Let_def split: if_splits)
    next
      assume "\<exists>now. snd (os_world st') = snd w1 @ restore_trace x jp opts (restore_request oc app jp t opts renv now) \<and> (ro_Into opts \<noteq> [] \<or> jp \<noteq> None)"
      with body(2) assms obtain now where j: "ro_Into opts \<noteq> [] \<or> jp \<noteq> None" and "snd (os_world st') =
        (if os_cacheOK st then [] else [ECache x]) @ restore_trace x jp opts (restore_request oc app jp t opts renv now)" by auto
      with body(1) j restore_request_mounts[OF j, of oc app t renv now] show ?thesis unfolding run prod.case Let_def by blast
    qed
  qed
qed

section \<open>A runtime that answers\<close>

definition demo_rt :: "unit runtime" where
  "demo_rt = \<lparr>
     rt_RunMover = (\<lambda>x req w. ((no_result, False, None, []), w)),
     rt_ReapMovers = (\<lambda>x k w. ((0, None), w)),
     rt_RunOneShot = (\<lambda>x s w. (None, w)),
     rt_AppEnv = (\<lambda>x i w. (Inr [], w)),
     rt_AppProject = (\<lambda>x i w. (Inr ''shop'', w)),
     rt_ReapHooks = (\<lambda>x w. ((0, None), w)),
     rt_Exec = Some (\<lambda>x i c e u w. (None, w)),
     rt_Stop = (\<lambda>x i w. (None, w)),
     rt_Start = (\<lambda>x i w. (None, w)),
     rt_EnsureCache = (\<lambda>x n w. (None, w)),
     rt_VolumeHostPath = (\<lambda>x n w. (Inr (''/v'', []), w)),
     rt_RunningMoverBinds = (\<lambda>x w. (Inr [], w)),
     rt_slot = (\<lambda>x w. (None, w)),
     rt_snaps = [],
     rt_now = (\<lambda>w. 7)\<rparr>"

definition demo_oc :: orch where
  "demo_oc = \<lparr>o_cfg = (read_env (\<lambda>s. Inr 0) (\<lambda>v. None))\<lparr>conf_MaxParallel := 1\<rparr>, o_image = ''mover'',
     o_getenv = (\<lambda>v. ''secret''), o_regular = (\<lambda>p. True), o_ParseDuration = (\<lambda>s. Inr 0)\<rparr>"

definition demo_hook :: hook where
  "demo_hook = \<lparr>hook_Command = [''sync''], hook_Container = ''web'', hook_Image = [], hook_User = [], hook_Env = [],
     hook_Network = [], hook_Volumes = [], hook_Timeout = []\<rparr>"

definition demo_job :: job where
  "demo_job = \<lparr>job_Container = ''db'', job_Backup = [], job_App = ''shop'', job_Instance = [], job_Project = ''shop'',
     job_Spec = empty_spec\<lparr>spec_Stop := True, spec_PreHooks := [demo_hook], spec_PostHooks := [demo_hook]\<rparr>,
     job_Sources = [\<lparr>src_Name = ''data'', src_Type = TypeVolume, src_Ref = ''vol''\<rparr>], job_Node = []\<rparr>"

definition demo_target :: target where
  "demo_target = empty_target\<lparr>tgt_Name := ''nas'', tgt_Path := ''/backup''\<rparr>"

definition demo_st :: "unit tr ostate" where
  "demo_st = orch_New ((), [])"

lemma demo_st_facts: "follows_caller Caller" "snd (os_world demo_st) = []" "spec_Stop (job_Spec demo_job)"
    "os_refs demo_st (job_Container demo_job) = 0"
  by (simp_all add: demo_st_def orch_New_def demo_job_def)

lemma demo_trace_phases:
  "map phase (snd (os_world (snd (RunTarget (etraced demo_rt) demo_oc Caller demo_job demo_target demo_st)))) = [0, 1, 2, 2, 3, 5, 6, 6, 8]"
  by code_simp



theorem hooks_confined_witness:
  "confined demo_job (snd (os_world (snd (RunTarget (etraced demo_rt) demo_oc Caller demo_job demo_target demo_st)))) \<and>
   list_ex (\<lambda>k. case k of EExec x c cmd en u \<Rightarrow> c = ''web'' | _ \<Rightarrow> False)
     (snd (os_world (snd (RunTarget (etraced demo_rt) demo_oc Caller demo_job demo_target demo_st))))"
proof
  show "confined demo_job (snd (os_world (snd (RunTarget (etraced demo_rt) demo_oc Caller demo_job demo_target demo_st))))"
    by (rule hooks_confined[OF demo_st_facts(1,2)])
qed code_simp

theorem hooks_see_only_allowlist_witness:
  "runHooks demo_rt (demo_oc\<lparr>o_getenv := (\<lambda>v. if v = ''RESTIC_PASSWORD'' then ''other'' else ''secret'')\<rparr>) Caller demo_job [demo_hook] ''pre'' () =
   runHooks demo_rt demo_oc Caller demo_job [demo_hook] ''pre'' ()"
  by (rule hooks_see_only_allowlist[THEN mp]) (simp add: demo_oc_def hookEnvPrefix_def)

theorem restore_bracketed_witness:
  "\<exists>req. snd (os_world (snd (RunRestore (etraced demo_rt) demo_oc Caller ''shop'' (Some demo_job) demo_target
       \<lparr>ro_Snapshot = [], ro_Into = [], ro_Stop = True, ro_Include = []\<rparr> demo_st))) =
     [ECache Caller, EStop Caller ''db'' None, EMover Caller req, EStart (WithoutCancel Caller) ''db'']"
proof -
  let ?o = "\<lparr>ro_Snapshot = [], ro_Into = [], ro_Stop = True, ro_Include = []\<rparr>"
  let ?r = "RunRestore (etraced demo_rt) demo_oc Caller ''shop'' (Some demo_job) demo_target ?o demo_st"
  have "fst ?r = None" by code_simp
  moreover have "\<not> os_cacheOK demo_st" by (simp add: demo_st_def orch_New_def)
  ultimately show ?thesis
    using restore_bracketed[OF demo_st_facts(2), of demo_rt demo_oc Caller "''shop''" "Some demo_job" demo_target ?o]
    by (cases ?r) (auto simp: Let_def restore_trace_def demo_job_def)
qed

end
