(* ===== verification/Concurrency.thy ===== *)
theory Concurrency
  imports Backup_Runs
begin

text \<open>
  Runs of the orchestrator side by side. The lock of a repository, the channel of slots and the counted cold
  stops of \<^verbatim>\<open>internal/backup/backup.go\<close> are shared; the interleavings of any number of backups and restores are
  the step relation \<open>step\<close>, whose steps apply the orchestrator's own operations. Shown are mutual
  exclusion, the bound on parallel backups, that cold backups share one downtime, and that no
  interleaving blocks; and that a restore with a stop breaks the sharing.
\<close>

section \<open>The machine\<close>

text \<open>
  What a run needs of the world here: which containers are up. \<^verbatim>\<open>Stop\<close> and \<^verbatim>\<open>Start\<close> of the
  runtime change just that. A task is one call of \<^verbatim>\<open>RunTarget\<close> or \<^verbatim>\<open>RunRestore\<close>: its repository, its container, and
  whether it stops the app.
\<close>

type_synonym apps = "string \<Rightarrow> bool"

record task =
  tk_key :: string
  tk_container :: string
  tk_stop :: bool
  tk_restore :: bool

definition stop_app :: "string \<Rightarrow> apps \<Rightarrow> error option \<times> apps" where
  "stop_app c up = (None, up(c := False))"

definition start_app :: "string \<Rightarrow> apps \<Rightarrow> error option \<times> apps" where
  "start_app c up = (None, up(c := True))"

text \<open>Where a task is: before its lock, with the lock, with a slot as well, in the part that the cold stop brackets, done.\<close>

datatype pc = Waiting | HasLock | HasSlot | Quiesced | Gone

record sys =
  sy_st :: "apps ostate"
  sy_pc :: "nat \<Rightarrow> pc"

text \<open>The deferred calls of \<^verbatim>\<open>RunTarget\<close>: the slot and the lock are given back.\<close>

definition leave :: "orch \<Rightarrow> string \<Rightarrow> apps ostate \<Rightarrow> apps ostate" where
  "leave oc key st = unlock key (release oc st)"

definition free_slot :: "orch \<Rightarrow> apps ostate \<Rightarrow> bool" where
  "free_slot oc st \<longleftrightarrow> conf_MaxParallel (o_cfg oc) \<le> 0 \<or> int (os_slots st) < conf_MaxParallel (o_cfg oc)"

definition taken_slot :: "orch \<Rightarrow> apps ostate \<Rightarrow> apps ostate" where
  "taken_slot oc st = (if conf_MaxParallel (o_cfg oc) \<le> 0 then st else st\<lparr>os_slots := os_slots st + 1\<rparr>)"

text \<open>
  One step of one task. The mutex of a key and the channel of slots block, so the steps that take
  them have the condition that they are free; \<^verbatim>\<open>hold\<close> and \<^verbatim>\<open>release\<close> run under the mutex of their container
  and are one step. Any failure before the hold (or of the hold, which then counts nothing) is \<open>fail\<close>.
\<close>

inductive step :: "orch \<Rightarrow> task list \<Rightarrow> sys \<Rightarrow> sys \<Rightarrow> bool" for oc ts where
  take_lock: "i < length ts \<Longrightarrow> sy_pc s i = Waiting \<Longrightarrow> tk_key (ts ! i) \<notin> set (os_locks (sy_st s)) \<Longrightarrow>
    step oc ts s \<lparr>sy_st = lock (tk_key (ts ! i)) (sy_st s), sy_pc = (sy_pc s)(i := HasLock)\<rparr>"
| take_slot: "i < length ts \<Longrightarrow> sy_pc s i = HasLock \<Longrightarrow> \<not> tk_restore (ts ! i) \<Longrightarrow> free_slot oc (sy_st s) \<Longrightarrow>
    step oc ts s \<lparr>sy_st = taken_slot oc (sy_st s), sy_pc = (sy_pc s)(i := HasSlot)\<rparr>"
| no_slot: "i < length ts \<Longrightarrow> sy_pc s i = HasLock \<Longrightarrow>
    step oc ts s \<lparr>sy_st = unlock (tk_key (ts ! i)) (sy_st s), sy_pc = (sy_pc s)(i := Gone)\<rparr>"
| fail: "i < length ts \<Longrightarrow> sy_pc s i = HasSlot \<Longrightarrow>
    step oc ts s \<lparr>sy_st = leave oc (tk_key (ts ! i)) (sy_st s), sy_pc = (sy_pc s)(i := Gone)\<rparr>"
| hold: "i < length ts \<Longrightarrow> sy_pc s i = HasSlot \<Longrightarrow> tk_stop (ts ! i) \<Longrightarrow>
    cold_hold (tk_container (ts ! i)) (ocall (stop_app (tk_container (ts ! i)))) (sy_st s) = (None, st') \<Longrightarrow>
    step oc ts s \<lparr>sy_st = st', sy_pc = (sy_pc s)(i := Quiesced)\<rparr>"
| no_stop: "i < length ts \<Longrightarrow> sy_pc s i = HasSlot \<Longrightarrow> \<not> tk_stop (ts ! i) \<Longrightarrow>
    step oc ts s \<lparr>sy_st = sy_st s, sy_pc = (sy_pc s)(i := Quiesced)\<rparr>"
| finish: "i < length ts \<Longrightarrow> sy_pc s i = Quiesced \<Longrightarrow> \<not> tk_restore (ts ! i) \<Longrightarrow>
    step oc ts s \<lparr>sy_st = leave oc (tk_key (ts ! i))
        (if tk_stop (ts ! i) then cold_release (tk_container (ts ! i)) (\<lambda>st. snd (ocall (start_app (tk_container (ts ! i))) st)) (sy_st s)
         else sy_st s), sy_pc = (sy_pc s)(i := Gone)\<rparr>"
| restore_begin: "i < length ts \<Longrightarrow> sy_pc s i = HasLock \<Longrightarrow> tk_restore (ts ! i) \<Longrightarrow>
    step oc ts s \<lparr>sy_st = (if tk_stop (ts ! i) then snd (ocall (stop_app (tk_container (ts ! i))) (sy_st s)) else sy_st s),
      sy_pc = (sy_pc s)(i := Quiesced)\<rparr>"
| restore_end: "i < length ts \<Longrightarrow> sy_pc s i = Quiesced \<Longrightarrow> tk_restore (ts ! i) \<Longrightarrow>
    step oc ts s \<lparr>sy_st = unlock (tk_key (ts ! i))
        (if tk_stop (ts ! i) then snd (ocall (start_app (tk_container (ts ! i))) (sy_st s)) else sy_st s),
      sy_pc = (sy_pc s)(i := Gone)\<rparr>"

inductive_cases stepE: "step oc ts s s'"

definition initial :: "apps \<Rightarrow> sys" where
  "initial up = \<lparr>sy_st = orch_New up, sy_pc = (\<lambda>_. Waiting)\<rparr>"

inductive reachable :: "orch \<Rightarrow> task list \<Rightarrow> apps \<Rightarrow> sys \<Rightarrow> bool" for oc ts up where
  init: "reachable oc ts up (initial up)"
| next_step: "reachable oc ts up s \<Longrightarrow> step oc ts s s' \<Longrightarrow> reachable oc ts up s'"

section \<open>Invariant\<close>

definition locked_by :: "sys \<Rightarrow> nat \<Rightarrow> bool" where
  "locked_by s i \<longleftrightarrow> sy_pc s i \<in> {HasLock, HasSlot, Quiesced}"

definition slotted :: "task list \<Rightarrow> sys \<Rightarrow> nat set" where
  "slotted ts s = {i. i < length ts \<and> \<not> tk_restore (ts ! i) \<and> sy_pc s i \<in> {HasSlot, Quiesced}}"

definition holders :: "task list \<Rightarrow> sys \<Rightarrow> string \<Rightarrow> nat set" where
  "holders ts s c = {i. i < length ts \<and> sy_pc s i = Quiesced \<and> tk_stop (ts ! i) \<and> \<not> tk_restore (ts ! i) \<and> tk_container (ts ! i) = c}"
lemma slotted_upd:
  "slotted ts \<lparr>sy_st = st, sy_pc = (sy_pc s)(i := p)\<rparr> =
     (if i < length ts \<and> \<not> tk_restore (ts ! i) \<and> p \<in> {HasSlot, Quiesced} then insert i (slotted ts s) else slotted ts s - {i})"
  by (auto simp: slotted_def)

lemma holders_upd:
  "holders ts \<lparr>sy_st = st, sy_pc = (sy_pc s)(i := p)\<rparr> c =
     (if i < length ts \<and> p = Quiesced \<and> tk_stop (ts ! i) \<and> \<not> tk_restore (ts ! i) \<and> tk_container (ts ! i) = c
      then insert i (holders ts s c) else holders ts s c - {i})"
  by (auto simp: holders_def)

lemma finite_tasks [simp]: "finite (slotted ts s)" "finite (holders ts s c)"
  by (simp_all add: slotted_def holders_def)

lemma slotted_mem: "i \<in> slotted ts s \<longleftrightarrow> i < length ts \<and> \<not> tk_restore (ts ! i) \<and> sy_pc s i \<in> {HasSlot, Quiesced}"
  by (simp add: slotted_def)

lemma holders_mem:
  "i \<in> holders ts s c \<longleftrightarrow> i < length ts \<and> sy_pc s i = Quiesced \<and> tk_stop (ts ! i) \<and> \<not> tk_restore (ts ! i) \<and> tk_container (ts ! i) = c"
  by (simp add: holders_def)

text \<open>What the operations do to the four parts of the state.\<close>

lemma ostate_parts [simp]:
  "os_locks (lock k st) = k # os_locks st" "os_slots (lock k st) = os_slots st" "os_refs (lock k st) = os_refs st" "os_world (lock k st) = os_world st"
  "os_locks (unlock k st) = remove1 k (os_locks st)" "os_slots (unlock k st) = os_slots st" "os_refs (unlock k st) = os_refs st" "os_world (unlock k st) = os_world st"
  "os_locks (taken_slot oc st) = os_locks st" "os_refs (taken_slot oc st) = os_refs st" "os_world (taken_slot oc st) = os_world st"
  "os_locks (release oc st) = os_locks st" "os_refs (release oc st) = os_refs st" "os_world (release oc st) = os_world st"
  "os_locks (snd (ocall f st)) = os_locks st" "os_slots (snd (ocall f st)) = os_slots st" "os_refs (snd (ocall f st)) = os_refs st"
  "os_world (snd (ocall f st)) = snd (f (os_world st))"
  by (simp_all add: lock_def unlock_def taken_slot_def release_def ocall_def split: prod.splits)

lemma cold_hold_parts:
  assumes "cold_hold c (ocall (stop_app c)) st = (None, st')"
  shows "os_locks st' = os_locks st" "os_slots st' = os_slots st" "os_refs st' = (os_refs st)(c := os_refs st c + 1)"
    "os_world st' = (if os_refs st c = 0 then (os_world st)(c := False) else os_world st)"
  using assms by (auto simp: cold_hold_def ocall_def stop_app_def split: if_splits)

lemma cold_release_parts:
  fixes st :: "apps ostate" and c :: string
  defines "st' \<equiv> cold_release c (\<lambda>st. snd (ocall (start_app c) st)) st"
  shows "os_locks st' = os_locks st" "os_slots st' = os_slots st" "os_refs st' = (os_refs st)(c := os_refs st c - 1)"
    "os_world st' = (if os_refs st c = 1 then (os_world st)(c := True) else os_world st)"
  by (auto simp: st'_def cold_release_def Let_def ocall_def start_app_def)

lemmas step_parts = cold_hold_parts cold_release_parts leave_def stop_app_def start_app_def

text \<open>
  The locks are the keys of the tasks that are past their lock, each once; the slots count the tasks
  that hold one and stay within the limit; the count of a container's holders is the number of cold backups inside
  their bracket; only backups hold slots.
\<close>

definition inv_locks :: "task list \<Rightarrow> sys \<Rightarrow> bool" where
  "inv_locks ts s \<longleftrightarrow> distinct (os_locks (sy_st s)) \<and>
     (\<forall>i < length ts. locked_by s i \<longrightarrow> tk_key (ts ! i) \<in> set (os_locks (sy_st s))) \<and>
     (\<forall>i < length ts. \<forall>k < length ts. locked_by s i \<and> locked_by s k \<and> tk_key (ts ! i) = tk_key (ts ! k) \<longrightarrow> i = k)"

definition inv_slots :: "orch \<Rightarrow> task list \<Rightarrow> sys \<Rightarrow> bool" where
  "inv_slots oc ts s \<longleftrightarrow> (conf_MaxParallel (o_cfg oc) > 0 \<longrightarrow>
        os_slots (sy_st s) = card (slotted ts s) \<and> int (card (slotted ts s)) \<le> conf_MaxParallel (o_cfg oc))"

definition inv_refs :: "task list \<Rightarrow> sys \<Rightarrow> bool" where
  "inv_refs ts s \<longleftrightarrow> (\<forall>c. os_refs (sy_st s) c = int (card (holders ts s c)))"

definition inv_kind :: "task list \<Rightarrow> sys \<Rightarrow> bool" where
  "inv_kind ts s \<longleftrightarrow> (\<forall>i < length ts. tk_restore (ts ! i) \<longrightarrow> sy_pc s i \<noteq> HasSlot)"

lemma inv_kind_step: "step oc ts s s' \<Longrightarrow> inv_kind ts s \<Longrightarrow> inv_kind ts s'"
  by (erule stepE) (auto simp: inv_kind_def)

lemma locked_by_upd: "locked_by \<lparr>sy_st = st, sy_pc = (sy_pc s)(i := p)\<rparr> k = (if k = i then p \<in> {HasLock, HasSlot, Quiesced} else locked_by s k)"
  by (auto simp: locked_by_def)

text \<open>A task that keeps its lock, one that takes it, one that gives it back.\<close>

lemma inv_locks_keep:
  assumes "inv_locks ts s" "locked_by s i" "p \<in> {HasLock, HasSlot, Quiesced}" "os_locks st = os_locks (sy_st s)"
  shows "inv_locks ts \<lparr>sy_st = st, sy_pc = (sy_pc s)(i := p)\<rparr>"
  using assms by (auto simp: inv_locks_def locked_by_upd split: if_splits)

lemma inv_locks_drop:
  assumes "inv_locks ts s" "locked_by s i" "i < length ts" "os_locks st = remove1 (tk_key (ts ! i)) (os_locks (sy_st s))"
  shows "inv_locks ts \<lparr>sy_st = st, sy_pc = (sy_pc s)(i := Gone)\<rparr>"
  using assms by (auto simp: inv_locks_def locked_by_upd split: if_splits)

lemma inv_locks_step:
  assumes "step oc ts s s'" "inv_locks ts s"
  shows "inv_locks ts s'"
  using assms(1)
proof (cases rule: step.cases)
  case (take_lock i)
  let ?s = "\<lparr>sy_st = lock (tk_key (ts ! i)) (sy_st s), sy_pc = (sy_pc s)(i := HasLock)\<rparr>"
  have fresh: "tk_key (ts ! k) \<noteq> tk_key (ts ! i)" if "k < length ts" "locked_by s k" for k
    using assms(2) that take_lock(4) unfolding inv_locks_def by metis
  have "a = b" if "a < length ts" "b < length ts" "locked_by ?s a" "locked_by ?s b" "tk_key (ts ! a) = tk_key (ts ! b)" for a b
  proof (cases "a = i \<or> b = i")
    case True with that fresh[of a] fresh[of b] show ?thesis by (auto simp: locked_by_upd split: if_splits)
  next
    case False with that assms(2) show ?thesis unfolding inv_locks_def locked_by_upd by auto
  qed
  moreover have "tk_key (ts ! k) \<in> set (os_locks (sy_st ?s))" if "k < length ts" "locked_by ?s k" for k
    using that assms(2) by (cases "k = i") (auto simp: inv_locks_def locked_by_upd)
  ultimately show ?thesis using take_lock assms(2) unfolding inv_locks_def by simp
next
  case (take_slot i) with inv_locks_keep[OF assms(2), of i HasSlot] show ?thesis by (simp add: locked_by_def)
next
  case (no_slot i) with inv_locks_drop[OF assms(2), of i] show ?thesis by (simp add: locked_by_def)
next
  case (fail i) with inv_locks_drop[OF assms(2), of i] show ?thesis by (simp add: locked_by_def leave_def)
next
  case (hold i st') with inv_locks_keep[OF assms(2), of i Quiesced st'] cold_hold_parts(1) show ?thesis by (simp add: locked_by_def)
next
  case (no_stop i) with inv_locks_keep[OF assms(2), of i Quiesced] show ?thesis by (simp add: locked_by_def)
next
  case (finish i) with inv_locks_drop[OF assms(2), of i] show ?thesis by (simp add: locked_by_def leave_def cold_release_parts)
next
  case (restore_begin i) with inv_locks_keep[OF assms(2), of i Quiesced] show ?thesis by (simp add: locked_by_def)
next
  case (restore_end i) with inv_locks_drop[OF assms(2), of i] show ?thesis by (simp add: locked_by_def)
qed

lemma card_insert_drop:
  assumes "finite A"
  shows "card (A - {i}) = (if i \<in> A then card A - 1 else card A)" "card (insert i A) = (if i \<in> A then card A else Suc (card A))"
    "i \<in> A \<Longrightarrow> card A > 0"
  using assms by (auto simp: card_Diff_singleton_if insert_absorb card_gt_0_iff)

lemma inv_slots_step:
  assumes "step oc ts s s'" "inv_slots oc ts s" "inv_kind ts s"
  shows "inv_slots oc ts s'"
proof (cases "conf_MaxParallel (o_cfg oc) > 0")
  case True
  with assms(2) have n: "os_slots (sy_st s) = card (slotted ts s)" "int (card (slotted ts s)) \<le> conf_MaxParallel (o_cfg oc)"
    by (simp_all add: inv_slots_def)
  note c = card_insert_drop[OF finite_tasks(1)[of ts s]]
  from assms(1) show ?thesis
    by (cases rule: step.cases)
      (use True n assms(3) cold_hold_parts(2) in \<open>auto simp: inv_slots_def inv_kind_def slotted_upd c(1,2) slotted_mem
        leave_def cold_release_parts free_slot_def taken_slot_def release_def\<close>)
qed (simp add: inv_slots_def)

lemma inv_refs_step:
  assumes "step oc ts s s'" "inv_refs ts s" "inv_kind ts s"
  shows "inv_refs ts s'"
proof -
  note c = card_insert_drop[OF finite_tasks(2)[of ts s]]
  from assms(1) show ?thesis
  proof (cases rule: step.cases)
    case (hold i st')
    with assms(2,3) cold_hold_parts(3)[OF hold(5)] show ?thesis
      by (auto simp: inv_refs_def inv_kind_def holders_upd c(1,2) holders_mem)
  next
    case (finish i)
    then have "tk_stop (ts ! i) \<Longrightarrow> i \<in> holders ts s (tk_container (ts ! i))" by (simp add: holders_mem)
    with c(3)[of i "tk_container (ts ! i)"] assms(2) finish show ?thesis
      by (auto simp: inv_refs_def holders_upd c(1,2) holders_mem cold_release_parts leave_def of_nat_diff Suc_leI)
  qed (use assms(2) in \<open>auto simp: inv_refs_def holders_upd c(1,2) holders_mem leave_def\<close>)
qed

text \<open>Holders and the app itself, when no restore stops and starts behind the holders' back.\<close>

definition inv_apps :: "apps \<Rightarrow> task list \<Rightarrow> sys \<Rightarrow> bool" where
  "inv_apps up ts s \<longleftrightarrow> (\<forall>c. (holders ts s c \<noteq> {} \<longrightarrow> \<not> os_world (sy_st s) c) \<and>
     (holders ts s c = {} \<longrightarrow> up c \<longrightarrow> os_world (sy_st s) c))"

lemma inv_apps_step:
  assumes "step oc ts s s'" "inv_apps up ts s" "inv_refs ts s" "\<forall>t\<in>set ts. \<not> tk_restore t"
  shows "inv_apps up ts s'"
proof -
  have nr: "i < length ts \<Longrightarrow> \<not> tk_restore (ts ! i)" for i using assms(4) by simp
  have z: "os_refs (sy_st s) c = 0 \<longleftrightarrow> holders ts s c = {}" for c using assms(3) by (simp add: inv_refs_def)
  have other: "holders ts \<lparr>sy_st = st, sy_pc = (sy_pc s)(i := p)\<rparr> c = holders ts s c"
    if "p \<noteq> Quiesced \<or> \<not> tk_stop (ts ! i)" "sy_pc s i \<noteq> Quiesced \<or> \<not> tk_stop (ts ! i)" for st i p c
    using that by (auto simp: holders_def)
  from assms(1) show ?thesis
  proof (cases rule: step.cases)
    case (hold i st')
    with nr have "holders ts s' c = (if tk_container (ts ! i) = c then insert i (holders ts s c) else holders ts s c)" for c
      by (auto simp: holders_def)
    with assms(2) cold_hold_parts(4)[OF hold(5)] z hold(1) show ?thesis by (auto simp: inv_apps_def split: if_splits)
  next
    case (finish i)
    show ?thesis
    proof (cases "tk_stop (ts ! i)")
      case False
      with finish other[of Gone i] assms(2) show ?thesis by (simp add: inv_apps_def leave_def)
    next
      case True
      let ?c = "tk_container (ts ! i)"
      have i: "i \<in> holders ts s ?c" using finish True by (simp add: holders_mem)
      have h: "holders ts s' c = (if ?c = c then holders ts s c - {i} else holders ts s c)" for c
        using finish by (auto simp: holders_def)
      have one: "os_refs (sy_st s) ?c = 1 \<longleftrightarrow> holders ts s ?c - {i} = {}"
        using assms(3) i card_insert_drop(3)[OF finite_tasks(2) i] by (auto simp: inv_refs_def card_1_singleton_iff)
      have w: "os_world (sy_st s') = (if os_refs (sy_st s) ?c = 1 then (os_world (sy_st s))(?c := True) else os_world (sy_st s))"
        using finish True by (simp add: leave_def cold_release_parts)
      show ?thesis using assms(2) i unfolding inv_apps_def h w one by auto
    qed
  qed (use assms(2) nr other in \<open>auto simp: inv_apps_def leave_def\<close>)
qed
definition inv_owner :: "task list \<Rightarrow> sys \<Rightarrow> bool" where
  "inv_owner ts s \<longleftrightarrow> (\<forall>k\<in>set (os_locks (sy_st s)). \<exists>i < length ts. locked_by s i \<and> tk_key (ts ! i) = k)"

lemma inv_owner_keep:
  assumes "inv_owner ts s" "p \<in> {HasLock, HasSlot, Quiesced}" "os_locks st = os_locks (sy_st s)"
  shows "inv_owner ts \<lparr>sy_st = st, sy_pc = (sy_pc s)(i := p)\<rparr>"
  using assms unfolding inv_owner_def locked_by_upd by auto

lemma inv_owner_drop:
  assumes "inv_owner ts s" "inv_locks ts s" "os_locks st = remove1 (tk_key (ts ! i)) (os_locks (sy_st s))"
  shows "inv_owner ts \<lparr>sy_st = st, sy_pc = (sy_pc s)(i := Gone)\<rparr>"
proof -
  have "distinct (os_locks (sy_st s))" using assms(2) by (simp add: inv_locks_def)
  then have "set (os_locks st) = set (os_locks (sy_st s)) - {tk_key (ts ! i)}" using assms(3) by simp
  then show ?thesis using assms(1) unfolding inv_owner_def locked_by_upd by fastforce
qed

lemma inv_owner_step:
  assumes "step oc ts s s'" "inv_owner ts s" "inv_locks ts s"
  shows "inv_owner ts s'"
  using assms(1)
proof (cases rule: step.cases)
  case (take_lock i)
  show ?thesis unfolding inv_owner_def take_lock(1)
  proof
    fix k assume "k \<in> set (os_locks (sy_st \<lparr>sy_st = lock (tk_key (ts ! i)) (sy_st s), sy_pc = (sy_pc s)(i := HasLock)\<rparr>))"
    then consider "k = tk_key (ts ! i)" | m where "m < length ts" "locked_by s m" "tk_key (ts ! m) = k"
      using assms(2) by (auto simp: inv_owner_def)
    then show "\<exists>m < length ts. locked_by \<lparr>sy_st = lock (tk_key (ts ! i)) (sy_st s), sy_pc = (sy_pc s)(i := HasLock)\<rparr> m \<and> tk_key (ts ! m) = k"
      unfolding locked_by_upd using take_lock(2) by cases auto
  qed
next
  case (hold i st') with inv_owner_keep[OF assms(2), of Quiesced st'] cold_hold_parts(1) show ?thesis by simp
next
  case (finish i) with inv_owner_drop[OF assms(2,3), of _ i] show ?thesis by (simp add: leave_def cold_release_parts)
qed (use inv_owner_keep[OF assms(2)] inv_owner_drop[OF assms(2,3)] in \<open>simp_all add: leave_def\<close>)

lemma reachable_inv:
  assumes "reachable oc ts up s"
  shows "inv_locks ts s \<and> inv_slots oc ts s \<and> inv_refs ts s \<and> inv_kind ts s \<and> inv_owner ts s"
  using assms
proof (induction rule: reachable.induct)
  case init
  have "slotted ts (initial up) = {}" "\<And>c. holders ts (initial up) c = {}"
    by (auto simp: slotted_def holders_def initial_def)
  then show ?case
    by (auto simp: inv_locks_def inv_slots_def inv_refs_def inv_kind_def inv_owner_def initial_def locked_by_def orch_New_def)
next
  case (next_step s s')
  then show ?case
    using inv_locks_step inv_slots_step inv_refs_step inv_kind_step inv_owner_step by metis
qed

section \<open>Claims\<close>

text \<open>
  C10. Whatever the interleaving of backups and restores: no two runs are past the lock of the same repository,
  the locks held are distinct and cover all of them, and the holder count of every container is the
  number of cold backups between their stop and their start.
\<close>

theorem concurrent_runs_coordinated:
  assumes "reachable oc ts up s"
  shows "distinct (os_locks (sy_st s)) \<and>
    (\<forall>i < length ts. \<forall>k < length ts. locked_by s i \<and> locked_by s k \<and> tk_key (ts ! i) = tk_key (ts ! k) \<longrightarrow> i = k) \<and>
    (\<forall>i < length ts. locked_by s i \<longrightarrow> tk_key (ts ! i) \<in> set (os_locks (sy_st s))) \<and>
    (\<forall>c. os_refs (sy_st s) c = int (card (holders ts s c)))"
  using reachable_inv[OF assms] unfolding inv_locks_def inv_refs_def by blast

text \<open>
  With \<^verbatim>\<open>SABON_MAX_PARALLEL\<close> set, the backups that hold a slot never exceed it, and the slots counted are those backups.
\<close>

theorem parallel_backups_bounded:
  assumes "reachable oc ts up s" "conf_MaxParallel (o_cfg oc) > 0"
  shows "os_slots (sy_st s) = card (slotted ts s) \<and> int (card (slotted ts s)) \<le> conf_MaxParallel (o_cfg oc)"
  using reachable_inv[OF assms(1)] assms(2) by (simp add: inv_slots_def)

text \<open>As long as only backups run, the apps are as their brackets say.\<close>

lemma reachable_apps:
  assumes "reachable oc ts up s" "\<forall>t\<in>set ts. \<not> tk_restore t"
  shows "inv_apps up ts s"
  using assms(1)
proof (induction rule: reachable.induct)
  case init then show ?case by (auto simp: inv_apps_def holders_def initial_def orch_New_def)
next
  case (next_step s s') then show ?case using inv_apps_step reachable_inv assms(2) by blast
qed


text \<open>Progress: how far a run has come, and the steps the runs have left.\<close>

fun rank :: "pc \<Rightarrow> nat" where
  "rank Waiting = 0" | "rank HasLock = 1" | "rank HasSlot = 2" | "rank Quiesced = 3" | "rank Gone = 4"

definition regular :: "sys \<Rightarrow> sys \<Rightarrow> nat \<Rightarrow> bool" where
  "regular s s' i \<longleftrightarrow> (sy_pc s i, sy_pc s' i) \<in>
     {(Waiting, HasLock), (HasLock, HasSlot), (HasLock, Quiesced), (HasSlot, Quiesced), (Quiesced, Gone)}"

definition budget :: "task list \<Rightarrow> sys \<Rightarrow> nat" where
  "budget ts s = (\<Sum>i < length ts. 4 - rank (sy_pc s i))"

lemma budget_upd:
  assumes "i < length ts" "rank (sy_pc s i) < rank p"
  shows "budget ts \<lparr>sy_st = st, sy_pc = (sy_pc s)(i := p)\<rparr> < budget ts s"
proof -
  have "rank p \<le> 4" by (cases p) auto
  with assms(2) have "4 - rank p < 4 - rank (sy_pc s i)" by simp
  then show ?thesis unfolding budget_def using assms(1)
    by (intro sum_strict_mono_ex1) (auto intro!: bexI[of _ i])
qed

lemma cold_hold_succeeds: "\<exists>st'. cold_hold c (ocall (stop_app c)) st = (None, st')"
  by (simp add: cold_hold_def ocall_def stop_app_def)

definition can_move :: "orch \<Rightarrow> task list \<Rightarrow> sys \<Rightarrow> nat \<Rightarrow> bool" where
  "can_move oc ts s k \<longleftrightarrow> k < length ts \<and> (\<exists>s'. step oc ts s s' \<and> regular s s' k \<and> (\<forall>m. m \<noteq> k \<longrightarrow> sy_pc s' m = sy_pc s m))"

lemma can_moveI:
  "step oc ts s \<lparr>sy_st = st, sy_pc = (sy_pc s)(k := p)\<rparr> \<Longrightarrow> k < length ts \<Longrightarrow>
   (sy_pc s k, p) \<in> {(Waiting, HasLock), (HasLock, HasSlot), (HasLock, Quiesced), (HasSlot, Quiesced), (Quiesced, Gone)} \<Longrightarrow> can_move oc ts s k"
  unfolding can_move_def by (intro conjI exI[of _ "\<lparr>sy_st = st, sy_pc = (sy_pc s)(k := p)\<rparr>"]) (simp_all add: regular_def)

lemma quiesced_end_moves: "k < length ts \<Longrightarrow> sy_pc s k = Quiesced \<Longrightarrow> can_move oc ts s k"
  by (cases "tk_restore (ts ! k)") (auto intro: can_moveI dest: step.restore_end[of k ts s oc] step.finish[of k ts s oc])

lemma slotted_moves:
  assumes "k < length ts" "sy_pc s k = HasSlot"
  shows "can_move oc ts s k"
proof (cases "tk_stop (ts ! k)")
  case True
  obtain st' where "cold_hold (tk_container (ts ! k)) (ocall (stop_app (tk_container (ts ! k)))) (sy_st s) = (None, st')"
    using cold_hold_succeeds by blast
  from can_moveI[OF step.hold[OF assms True this] assms(1)] assms(2) show ?thesis by simp
next
  case False from can_moveI[OF step.no_stop[OF assms False] assms(1)] assms(2) show ?thesis by simp
qed

lemma locked_moves:
  assumes "inv_slots oc ts s" "k < length ts" "sy_pc s k = HasLock" "\<forall>m < length ts. sy_pc s m \<noteq> HasSlot \<and> sy_pc s m \<noteq> Quiesced"
  shows "can_move oc ts s k"
proof (cases "tk_restore (ts ! k)")
  case True from can_moveI[OF step.restore_begin[OF assms(2,3) True] assms(2)] assms(3) show ?thesis by simp
next
  case False
  have "slotted ts s = {}" using assms(4) by (auto simp: slotted_def)
  then have "free_slot oc (sy_st s)" using assms(1) by (auto simp: free_slot_def inv_slots_def)
  from can_moveI[OF step.take_slot[OF assms(2,3) False this] assms(2)] assms(3) show ?thesis by simp
qed

lemma waiting_moves:
  assumes "inv_owner ts s" "\<forall>m < length ts. sy_pc s m \<in> {Waiting, Gone}" "i < length ts" "sy_pc s i \<noteq> Gone"
  shows "can_move oc ts s i"
proof -
  have "\<not> locked_by s m" if "m < length ts" for m using that assms(2) by (auto simp: locked_by_def)
  then have "tk_key (ts ! i) \<notin> set (os_locks (sy_st s))" using assms(1) by (auto simp: inv_owner_def)
  moreover have "sy_pc s i = Waiting" using assms(2-4) by auto
  ultimately show ?thesis using can_moveI[OF step.take_lock[OF assms(3)] assms(3)] by simp
qed

text \<open>Among any runs that include all those past their lock, one that is not done has one of them that can move.\<close>

lemma some_run_moves:
  assumes "reachable oc ts up s" "i < length ts" "sy_pc s i \<noteq> Gone" "P i" "\<forall>m < length ts. locked_by s m \<longrightarrow> P m"
  shows "\<exists>k. P k \<and> can_move oc ts s k"
proof -
  note inv = reachable_inv[OF assms(1)]
  consider (q) k where "k < length ts" "sy_pc s k = Quiesced" | (h) k where "k < length ts" "sy_pc s k = HasSlot"
    | (l) k where "k < length ts" "sy_pc s k = HasLock" "\<forall>m < length ts. sy_pc s m \<noteq> HasSlot \<and> sy_pc s m \<noteq> Quiesced"
    | (w) "\<forall>m < length ts. sy_pc s m \<in> {Waiting, Gone}"
    by (metis (no_types, lifting) insert_iff pc.exhaust)
  then show ?thesis
  proof cases
    case q then show ?thesis using quiesced_end_moves[of k ts s oc] assms(5) by (auto simp: locked_by_def)
  next
    case h then show ?thesis using slotted_moves[of k ts s oc] assms(5) by (auto simp: locked_by_def)
  next
    case l then show ?thesis using locked_moves[OF _ l] inv assms(5) by (auto simp: locked_by_def)
  next
    case w then show ?thesis using waiting_moves[OF _ w assms(2,3)] inv assms(4) by blast
  qed
qed

text \<open>
  C36. The runs never block each other for ever: in every reachable state with a run that is not done, some run
  can take its next regular step (take its lock, take its slot, pass the stop, or finish), and every step of
  an interleaving uses up a bounded budget of at most four steps per run.
\<close>

theorem runs_never_stuck:
  assumes "reachable oc ts up s"
  shows "((\<exists>i < length ts. sy_pc s i \<noteq> Gone) \<longrightarrow> (\<exists>s' i. step oc ts s s' \<and> i < length ts \<and> regular s s' i)) \<and>
    (\<forall>s'. step oc ts s s' \<longrightarrow> budget ts s' < budget ts s) \<and> budget ts s \<le> 4 * length ts"
proof (intro conjI impI allI)
  show "budget ts s' < budget ts s" if "step oc ts s s'" for s'
    using that by cases (auto intro!: budget_upd)
  have "budget ts s \<le> (\<Sum>i < length ts. 4)" unfolding budget_def by (intro sum_mono) simp
  then show "budget ts s \<le> 4 * length ts" by simp
next
  assume "\<exists>i < length ts. sy_pc s i \<noteq> Gone"
  then show "\<exists>s' i. step oc ts s s' \<and> i < length ts \<and> regular s s' i"
    using some_run_moves[OF assms, where P = "\<lambda>_. True"] unfolding can_move_def by blast
qed

section \<open>Restores and cold backups\<close>

definition backup_a :: task where
  "backup_a = \<lparr>tk_key = ''nas|shop'', tk_container = ''db'', tk_stop = True, tk_restore = False\<rparr>"

definition backup_b :: task where
  "backup_b = \<lparr>tk_key = ''s3|shop'', tk_container = ''db'', tk_stop = True, tk_restore = False\<rparr>"

definition restore_b :: task where
  "restore_b = \<lparr>tk_key = ''s3|shop'', tk_container = ''db'', tk_stop = True, tk_restore = True\<rparr>"

text \<open>A cold backup that has come to its bracket while a second task waits.\<close>

lemma reach_quiesced:
  "\<exists>s. reachable demo_oc [backup_a, t] up s \<and> sy_pc s 0 = Quiesced \<and> sy_pc s (Suc 0) = Waiting \<and>
       os_locks (sy_st s) = [''nas|shop''] \<and> os_world (sy_st s) = up(''db'' := False)"
proof -
  let ?ts = "[backup_a, t]"
  let ?s1 = "\<lparr>sy_st = lock ''nas|shop'' (orch_New up), sy_pc = (\<lambda>_. Waiting)(0 := HasLock)\<rparr>"
  have r1: "reachable demo_oc ?ts up ?s1"
    using reachable.next_step[OF reachable.init step.take_lock[of 0 ?ts "initial up" demo_oc]]
    by (simp add: initial_def backup_a_def orch_New_def)
  let ?s2 = "\<lparr>sy_st = taken_slot demo_oc (sy_st ?s1), sy_pc = (sy_pc ?s1)(0 := HasSlot)\<rparr>"
  have "free_slot demo_oc (sy_st ?s1)" by (simp add: free_slot_def demo_oc_def orch_New_def)
  then have r2: "reachable demo_oc ?ts up ?s2"
    using reachable.next_step[OF r1 step.take_slot[of 0 ?ts ?s1 demo_oc]] by (simp add: backup_a_def)
  obtain st' where h: "cold_hold ''db'' (ocall (stop_app ''db'')) (sy_st ?s2) = (None, st')" using cold_hold_succeeds by blast
  let ?s3 = "\<lparr>sy_st = st', sy_pc = (sy_pc ?s2)(0 := Quiesced)\<rparr>"
  have r3: "reachable demo_oc ?ts up ?s3"
    using reachable.next_step[OF r2 step.hold[of 0 ?ts ?s2 st' demo_oc]] h by (simp add: backup_a_def)
  have "os_refs (sy_st ?s2) ''db'' = 0" by (simp add: orch_New_def)
  with cold_hold_parts[OF h] have "os_world st' = up(''db'' := False)" "os_locks st' = [''nas|shop'']"
    by (simp_all add: orch_New_def)
  with r3 show ?thesis by (intro exI[of _ ?s3]) simp
qed

text \<open>
  C37. A restore does not take part in the coordination of cold stops: with an in-place restore of the same container from
  another target, a state is reachable in which a cold backup is still in its bracket, reading its
  sources, while the app runs again.
\<close>

theorem restore_restarts_under_cold_backup:
  "\<exists>s. reachable demo_oc [backup_a, restore_b] up s \<and> sy_pc s 0 = Quiesced \<and> tk_stop backup_a \<and>
       os_refs (sy_st s) (tk_container backup_a) = 1 \<and> os_world (sy_st s) (tk_container backup_a)"
proof -
  let ?ts = "[backup_a, restore_b]"
  obtain s where s: "reachable demo_oc ?ts up s" "sy_pc s 0 = Quiesced" "sy_pc s (Suc 0) = Waiting"
    "os_locks (sy_st s) = [''nas|shop'']" using reach_quiesced by blast
  let ?s1 = "\<lparr>sy_st = lock ''s3|shop'' (sy_st s), sy_pc = (sy_pc s)(1 := HasLock)\<rparr>"
  have r1: "reachable demo_oc ?ts up ?s1"
    using reachable.next_step[OF s(1) step.take_lock[of 1 ?ts s demo_oc]] s by (simp add: restore_b_def)
  let ?s2 = "\<lparr>sy_st = snd (ocall (stop_app ''db'') (sy_st ?s1)), sy_pc = (sy_pc ?s1)(1 := Quiesced)\<rparr>"
  have r2: "reachable demo_oc ?ts up ?s2"
    using reachable.next_step[OF r1 step.restore_begin[of 1 ?ts ?s1 demo_oc]] by (simp add: restore_b_def)
  let ?s3 = "\<lparr>sy_st = unlock ''s3|shop'' (snd (ocall (start_app ''db'') (sy_st ?s2))), sy_pc = (sy_pc ?s2)(1 := Gone)\<rparr>"
  have r3: "reachable demo_oc ?ts up ?s3"
    using reachable.next_step[OF r2 step.restore_end[of 1 ?ts ?s2 demo_oc]] by (simp add: restore_b_def)
  have "holders ?ts ?s3 ''db'' = {0}" using s by (auto simp: holders_def backup_a_def restore_b_def less_Suc_eq nth_Cons')
  then have "os_refs (sy_st ?s3) ''db'' = 1" using reachable_inv[OF r3] unfolding inv_refs_def by simp
  with r3 s(2) show ?thesis by (intro exI[of _ ?s3]) (simp add: backup_a_def start_app_def)
qed

section \<open>Witnesses\<close>

theorem concurrent_runs_coordinated_witness:
  "\<exists>s. reachable demo_oc [backup_a, backup_a] (\<lambda>_. True) s \<and> locked_by s 0 \<and> \<not> locked_by s 1"
proof -
  obtain s where s: "reachable demo_oc [backup_a, backup_a] (\<lambda>_. True) s" "sy_pc s 0 = Quiesced" using reach_quiesced by blast
  then have "locked_by s 0" by (simp add: locked_by_def)
  moreover have "\<not> locked_by s 1"
    using concurrent_runs_coordinated[OF s(1), THEN conjunct2, THEN conjunct1, THEN spec, of 0, THEN mp, THEN spec, of 1] calculation
    by (auto simp: nth_Cons')
  ultimately show ?thesis using s(1) by blast
qed

theorem parallel_backups_bounded_witness:
  "\<exists>s. reachable demo_oc [backup_a, backup_b] (\<lambda>_. True) s \<and> sy_pc s 0 = Quiesced \<and> card (slotted [backup_a, backup_b] s) = 1"
proof -
  let ?ts = "[backup_a, backup_b]"
  obtain s where s: "reachable demo_oc ?ts (\<lambda>_. True) s" "sy_pc s 0 = Quiesced" using reach_quiesced by blast
  have m: "conf_MaxParallel (o_cfg demo_oc) = 1" by (simp add: demo_oc_def)
  with parallel_backups_bounded[OF s(1)] have "card (slotted ?ts s) \<le> 1" by simp
  moreover have "0 \<in> slotted ?ts s" using s(2) by (simp add: slotted_def backup_a_def)
  then have "card (slotted ?ts s) > 0" using card_insert_drop(3)[OF finite_tasks(1)] by blast
  ultimately have "card (slotted ?ts s) = 1" by simp
  with s show ?thesis by blast
qed


theorem runs_never_stuck_witness:
  "\<exists>s s' i. reachable demo_oc [backup_a, restore_b] (\<lambda>_. True) s \<and> step demo_oc [backup_a, restore_b] s s' \<and> regular s s' i"
proof -
  let ?ts = "[backup_a, restore_b]"
  obtain s where s: "reachable demo_oc ?ts (\<lambda>_. True) s" "sy_pc s 0 = Quiesced" using reach_quiesced by blast
  then have "\<exists>i < length ?ts. sy_pc s i \<noteq> Gone" by (intro exI[of _ 0]) simp
  with runs_never_stuck[OF s(1)] s(1) show ?thesis by blast
qed

end
