(* ===== verification/Shutdown.thy ===== *)
theory Shutdown
  imports Concurrency
begin

text \<open>
  The life of the daemon process (\<^verbatim>\<open>cmd/sabon/daemon.go\<close>) around its runs: who starts a run, what the shutdown waits for, and in
  which state the apps are when the process is gone. The runs are those of \<open>Concurrency\<close>, in every interleaving with the signal, the
  grace period and the end of the scheduler.
\<close>

section \<open>The process\<close>

text \<open>
  Every run belongs to a goroutine: the one that runs all backups at startup, one of the scheduler's, or one that an API request left
  behind. The daemon serves until its context ends; then it waits for the startup goroutine, but at most for the grace period
  (\<^verbatim>\<open>waitBounded\<close>), then for the jobs that the scheduler has running (\<^verbatim>\<open>Scheduler.Stop\<close>, deferred), and then the process exits
  and whatever still runs ends with it.
\<close>

datatype origin = FromStartup | FromSchedule | FromApi

datatype stage = Serving | Grace | Draining | Exited

record process =
  pr_sys :: sys
  pr_stage :: stage
  pr_begun :: "nat \<Rightarrow> bool"
  pr_overdue :: bool

text \<open>
  A stopped scheduler fires nothing any more. A run moves only once its goroutine has begun; the steps of the runs are those of the
  machine.
\<close>

inductive process_step :: "orch \<Rightarrow> task list \<Rightarrow> (nat \<Rightarrow> origin) \<Rightarrow> process \<Rightarrow> process \<Rightarrow> bool" for oc ts org where
  begin_run: "pr_stage p \<noteq> Exited \<Longrightarrow> i < length ts \<Longrightarrow> \<not> pr_begun p i \<Longrightarrow> org i = FromSchedule \<longrightarrow> pr_stage p \<noteq> Draining \<Longrightarrow>
    process_step oc ts org p (p\<lparr>pr_begun := (pr_begun p)(i := True)\<rparr>)"
| run: "pr_stage p \<noteq> Exited \<Longrightarrow> step oc ts (pr_sys p) s \<Longrightarrow> \<forall>i. sy_pc s i \<noteq> sy_pc (pr_sys p) i \<longrightarrow> pr_begun p i \<Longrightarrow>
    process_step oc ts org p (p\<lparr>pr_sys := s\<rparr>)"
| signal: "pr_stage p = Serving \<Longrightarrow> process_step oc ts org p (p\<lparr>pr_stage := Grace\<rparr>)"
| startup_done: "pr_stage p = Grace \<Longrightarrow> \<forall>i < length ts. org i = FromStartup \<longrightarrow> sy_pc (pr_sys p) i = Gone \<Longrightarrow>
    process_step oc ts org p (p\<lparr>pr_stage := Draining\<rparr>)"
| grace_over: "pr_stage p = Grace \<Longrightarrow> process_step oc ts org p (p\<lparr>pr_stage := Draining, pr_overdue := True\<rparr>)"
| exit: "pr_stage p = Draining \<Longrightarrow> \<forall>i < length ts. org i = FromSchedule \<and> pr_begun p i \<longrightarrow> sy_pc (pr_sys p) i = Gone \<Longrightarrow>
    process_step oc ts org p (p\<lparr>pr_stage := Exited\<rparr>)"

definition process_init :: "apps \<Rightarrow> process" where
  "process_init up = \<lparr>pr_sys = initial up, pr_stage = Serving, pr_begun = (\<lambda>_. False), pr_overdue = False\<rparr>"

inductive process_reachable :: "orch \<Rightarrow> task list \<Rightarrow> (nat \<Rightarrow> origin) \<Rightarrow> apps \<Rightarrow> process \<Rightarrow> bool" for oc ts org up where
  process_start: "process_reachable oc ts org up (process_init up)"
| process_next: "process_reachable oc ts org up p \<Longrightarrow> process_step oc ts org p p' \<Longrightarrow> process_reachable oc ts org up p'"

text \<open>
  The runs of the process are a reachable state of the machine; a run that has not begun waits; the startup runs are done past the
  grace period unless it ran out; the scheduled runs that began are done at the exit.
\<close>

definition process_inv :: "orch \<Rightarrow> task list \<Rightarrow> (nat \<Rightarrow> origin) \<Rightarrow> apps \<Rightarrow> process \<Rightarrow> bool" where
  "process_inv oc ts org up p \<longleftrightarrow> reachable oc ts up (pr_sys p) \<and> (\<forall>i. \<not> pr_begun p i \<longrightarrow> sy_pc (pr_sys p) i = Waiting) \<and>
     (\<forall>i < length ts. org i = FromStartup \<and> pr_stage p \<in> {Draining, Exited} \<and> \<not> pr_overdue p \<longrightarrow> sy_pc (pr_sys p) i = Gone) \<and>
     (\<forall>i < length ts. org i = FromSchedule \<and> pr_begun p i \<and> pr_stage p = Exited \<longrightarrow> sy_pc (pr_sys p) i = Gone)"

lemma step_pc: "step oc ts s s' \<Longrightarrow> \<exists>k < length ts. \<exists>q. sy_pc s' = (sy_pc s)(k := q) \<and> sy_pc s k \<noteq> Gone"
  by (erule stepE) (metis sys.select_convs(2) pc.distinct(7,13,17,19))+

lemma step_gone: "step oc ts s s' \<Longrightarrow> sy_pc s i = Gone \<Longrightarrow> sy_pc s' i = Gone"
  using step_pc[of oc ts s s'] by auto

lemma process_inv_step: "process_step oc ts org p p' \<Longrightarrow> process_inv oc ts org up p \<Longrightarrow> process_inv oc ts org up p'"
proof (induction rule: process_step.induct)
  case (run p s)
  have "reachable oc ts up s" using run reachable.next_step by (auto simp: process_inv_def)
  moreover have "\<not> pr_begun p i \<Longrightarrow> sy_pc s i = Waiting" for i using run(3,4) unfolding process_inv_def by metis
  ultimately show ?case using run(1,4) step_gone[OF run(2)] by (auto simp: process_inv_def)
qed (auto simp: process_inv_def)

lemma process_reachable_inv: "process_reachable oc ts org up p \<Longrightarrow> process_inv oc ts org up p"
proof (induction rule: process_reachable.induct)
  case process_start show ?case by (auto simp: process_inv_def process_init_def initial_def intro: reachable.init[unfolded initial_def])
qed (rule process_inv_step)

text \<open>The process can always come to its exit: no run that the shutdown waits for is blocked for ever.\<close>

lemma drain_completes:
  assumes "process_reachable oc ts org up p" "pr_stage p = Draining"
  shows "\<exists>p'. (process_step oc ts org)\<^sup>*\<^sup>* p p' \<and> pr_stage p' = Exited"
  using assms
proof (induction "budget ts (pr_sys p)" arbitrary: p rule: less_induct)
  case less
  note inv = process_reachable_inv[OF less.prems(1), unfolded process_inv_def]
  show ?case
  proof (cases "\<forall>i < length ts. org i = FromSchedule \<and> pr_begun p i \<longrightarrow> sy_pc (pr_sys p) i = Gone")
    case True
    from process_step.exit[OF less.prems(2) this] show ?thesis by (intro exI[of _ "p\<lparr>pr_stage := Exited\<rparr>"]) auto
  next
    case False
    then obtain i where i: "i < length ts" "pr_begun p i" "sy_pc (pr_sys p) i \<noteq> Gone" by blast
    have "\<forall>m < length ts. locked_by (pr_sys p) m \<longrightarrow> pr_begun p m" using inv by (auto simp: locked_by_def)
    from some_run_moves[OF inv[THEN conjunct1] i(1,3), where P = "pr_begun p", OF i(2) this]
    obtain k s where k: "pr_begun p k" "step oc ts (pr_sys p) s" "\<forall>m. m \<noteq> k \<longrightarrow> sy_pc s m = sy_pc (pr_sys p) m" by (auto simp: can_move_def)
    let ?p = "p\<lparr>pr_sys := s\<rparr>"
    have "\<forall>m. sy_pc s m \<noteq> sy_pc (pr_sys p) m \<longrightarrow> pr_begun p m" using k(1,3) by metis
    with process_step.run[of p oc ts s org] less.prems(2) k(2) have st: "process_step oc ts org p ?p" by simp
    have "budget ts s < budget ts (pr_sys p)" using k(2) by cases (auto intro!: budget_upd)
    with less.hyps[of ?p] process_next[OF less.prems(1) st] less.prems(2) obtain p' where "(process_step oc ts org)\<^sup>*\<^sup>* ?p p'" "pr_stage p' = Exited" by auto
    with st show ?thesis by (meson converse_rtranclp_into_rtranclp)
  qed
qed

section \<open>What a shutdown leaves\<close>


text \<open>Every reachable state of the machine is one of a process that serves, with all goroutines begun.\<close>

definition serving :: "task list \<Rightarrow> sys \<Rightarrow> process" where
  "serving ts s = \<lparr>pr_sys = s, pr_stage = Serving, pr_begun = (\<lambda>i. i < length ts), pr_overdue = False\<rparr>"

lemma serving_reachable: "reachable oc ts up s \<Longrightarrow> process_reachable oc ts org up (serving ts s)"
proof (induction rule: reachable.induct)
  case init
  have "n \<le> length ts \<Longrightarrow> process_reachable oc ts org up ((process_init up)\<lparr>pr_begun := (\<lambda>i. i < n)\<rparr>)" for n
  proof (induction n)
    case 0 with process_start[of oc ts org up] show ?case by (simp add: process_init_def)
  next
    case (Suc n)
    let ?p = "(process_init up)\<lparr>pr_begun := (\<lambda>i. i < n)\<rparr>"
    have "(pr_begun ?p)(n := True) = (\<lambda>i. i < Suc n)" by (auto simp: fun_eq_iff)
    with process_next[OF Suc.IH process_step.begin_run[of ?p n ts org oc]] Suc.prems show ?case by (simp add: process_init_def)
  qed
  from this[of "length ts"] show ?case by (simp add: process_init_def serving_def)
next
  case (next_step s s')
  obtain k q where k: "k < length ts" "sy_pc s' = (sy_pc s)(k := q)" using step_pc[OF next_step(2)] by blast
  then have "\<forall>i. sy_pc s' i \<noteq> sy_pc (pr_sys (serving ts s)) i \<longrightarrow> pr_begun (serving ts s) i" by (simp add: serving_def)
  from process_next[OF next_step(3) process_step.run[OF _ _ this]] next_step(2) show ?case by (simp add: serving_def)
qed


text \<open>
  C40. The shutdown does not wait for the runs of API requests: there is an execution in which the daemon gets its signal, finds no startup and no scheduled
  run to wait for, and exits while a cold backup that was requested over the API is in its bracket - with the app down.
\<close>

theorem shutdown_strands_api_backup:
  "\<exists>p. process_reachable demo_oc [backup_a, backup_b] (\<lambda>_. FromApi) (\<lambda>_. True) p \<and> pr_stage p = Exited \<and> \<not> pr_overdue p \<and>
     sy_pc (pr_sys p) 0 = Quiesced \<and> \<not> os_world (sy_st (pr_sys p)) (tk_container backup_a)"
proof -
  let ?ts = "[backup_a, backup_b]" and ?org = "\<lambda>_. FromApi"
  obtain s where s: "reachable demo_oc ?ts (\<lambda>_. True) s" "sy_pc s 0 = Quiesced" "os_world (sy_st s) = (\<lambda>_. True)(''db'' := False)"
    using reach_quiesced by blast
  note r0 = serving_reachable[OF s(1), of ?org]
  have r1: "process_reachable demo_oc ?ts ?org (\<lambda>_. True) ((serving ?ts s)\<lparr>pr_stage := Grace\<rparr>)"
    by (rule process_next[OF r0 process_step.signal]) (simp add: serving_def)
  have r2: "process_reachable demo_oc ?ts ?org (\<lambda>_. True) ((serving ?ts s)\<lparr>pr_stage := Draining\<rparr>)"
    using process_next[OF r1 process_step.startup_done] by simp
  have "process_reachable demo_oc ?ts ?org (\<lambda>_. True) ((serving ?ts s)\<lparr>pr_stage := Exited\<rparr>)"
    using process_next[OF r2 process_step.exit] by simp
  then show ?thesis using s(2,3)
    by (intro exI[of _ "(serving ?ts s)\<lparr>pr_stage := Exited\<rparr>"]) (simp add: serving_def backup_a_def)
qed

end
