(* ===== verification/Docker_Engine.thy ===== *)
theory Docker_Engine
  imports Backup_Runs
begin

text \<open>
  The standalone runtime (\<^verbatim>\<open>internal/engine/docker\<close>: \<^verbatim>\<open>engine.go\<close>, \<^verbatim>\<open>hook.go\<close>, \<^verbatim>\<open>host.go\<close>, \<^verbatim>\<open>quiesce.go\<close>): movers, hooks,
  volumes and the stop of an app as calls of the Docker client, and the record \<open>docker_runtime\<close> that
  the orchestrator runs on. The goroutine that closes an exec stream on a cancelled context is
  modelled by its effect: the stream ends and the context's error is reported.
\<close>

section \<open>Engine: runs and their history\<close>

text \<open>A dereference of a nil pointer, which ends the process.\<close>

definition nil_deref :: error where
  "nil_deref = Errorf ''panic: runtime error: invalid memory address or nil pointer dereference'' []"

text \<open>Times are nanoseconds since the zero time.\<close>

record run_info =
  ri_ID :: string
  ri_App :: string
  ri_Target :: string
  ri_Action :: string
  ri_Status :: string
  ri_ExitCode :: int
  ri_StartedAt :: int
  ri_FinishedAt :: int

definition parse_time :: "(string \<Rightarrow> int res) \<Rightarrow> string \<Rightarrow> int" where
  "parse_time tp s = (case tp s of Inr ns \<Rightarrow> ns | Inl _ \<Rightarrow> 0)"

definition run_status :: "bool \<Rightarrow> int \<Rightarrow> string" where
  "run_status running code = (if running then ''running'' else if code = 0 then ''succeeded'' else ''failed'')"

definition docker_inspectRun :: "(string \<Rightarrow> int res) \<Rightarrow> 'w docker_client \<Rightarrow> ctx \<Rightarrow> string \<Rightarrow> 'w \<Rightarrow> run_info res \<times> 'w" where
  "docker_inspectRun tp cli x i w =
     (case ContainerInspect cli x i w of
        (Inl e, w) \<Rightarrow> (Inl e, w)
      | (Inr insp, w) \<Rightarrow>
          (let lab = (\<lambda>k. case cj_Config insp of None \<Rightarrow> [] | Some c \<Rightarrow> lookup_str (cfg_Labels c) k);
               ri = \<lparr>ri_ID = cj_ID insp, ri_App = lab LabelApp, ri_Target = lab LabelTarget, ri_Action = lab LabelAction,
                     ri_Status = [], ri_ExitCode = 0, ri_StartedAt = 0, ri_FinishedAt = 0\<rparr>
           in (Inr (case cj_Running insp of
                 None \<Rightarrow> ri
               | Some running \<Rightarrow>
                   ri\<lparr>ri_ExitCode := cj_ExitCode insp, ri_Status := run_status running (cj_ExitCode insp),
                      ri_StartedAt := parse_time tp (cj_StartedAt insp),
                      ri_FinishedAt := (if running then 0 else parse_time tp (cj_FinishedAt insp))\<rparr>), w)))"

definition filtersForRuns :: "string \<Rightarrow> string \<Rightarrow> (string \<times> string) list" where
  "filtersForRuns app tgt =
     [(''label'', LabelKey), (''label'', LabelAction)]
     @ (if app \<noteq> [] then [(''label'', LabelApp @ ''='' @ app)] else [])
     @ (if tgt \<noteq> [] then [(''label'', LabelTarget @ ''='' @ tgt)] else [])"

fun inspect_runs :: "(string \<Rightarrow> int res) \<Rightarrow> 'w docker_client \<Rightarrow> ctx \<Rightarrow> container_summary list \<Rightarrow> run_info list \<Rightarrow> 'w \<Rightarrow> run_info list \<times> 'w" where
  "inspect_runs tp cli x [] runs w = (runs, w)"
| "inspect_runs tp cli x (c # cs) runs w =
     (case docker_inspectRun tp cli x (cs_ID c) w of
        (Inl _, w) \<Rightarrow> inspect_runs tp cli x cs runs w
      | (Inr ri, w) \<Rightarrow> inspect_runs tp cli x cs (runs @ [ri]) w)"

definition docker_ListRuns ::
  "(run_info list \<Rightarrow> run_info list) \<Rightarrow> (string \<Rightarrow> int res) \<Rightarrow> 'w docker_client \<Rightarrow> ctx \<Rightarrow> string \<Rightarrow> string \<Rightarrow> 'w
   \<Rightarrow> run_info list res \<times> 'w" where
  "docker_ListRuns srt tp cli x app tgt w =
     (case ContainerList cli x True (filtersForRuns app tgt) w of
        (Inl e, w) \<Rightarrow> (Inl e, w)
      | (Inr list, w) \<Rightarrow> (case inspect_runs tp cli x list [] w of (runs, w) \<Rightarrow> (Inr (srt runs), w)))"

definition docker_GetRun ::
  "(error \<Rightarrow> bool) \<Rightarrow> (string \<Rightarrow> int res) \<Rightarrow> 'w docker_client \<Rightarrow> ctx \<Rightarrow> string \<Rightarrow> 'w \<Rightarrow> run_info option res \<times> 'w" where
  "docker_GetRun IsNotFound tp cli x i w =
     (case docker_inspectRun tp cli x i w of
        (Inl e, w) \<Rightarrow> (if IsNotFound e then Inr None else Inl e, w)
      | (Inr ri, w) \<Rightarrow> (Inr (Some ri), w))"

definition docker_RunLogs :: "'w docker_client \<Rightarrow> ctx \<Rightarrow> string \<Rightarrow> 'w \<Rightarrow> (string \<times> error option) \<times> 'w" where
  "docker_RunLogs cli x i w =
     (case ContainerLogs cli x i w of
        (Inl e, w) \<Rightarrow> (([], Some e), w)
      | (Inr s, w) \<Rightarrow> ((all_frames s, log_err s), w))"

section \<open>Hooks\<close>

definition docker_Exec ::
  "'w docker_client \<Rightarrow> ctx \<Rightarrow> string \<Rightarrow> string list \<Rightarrow> string list \<Rightarrow> string \<Rightarrow> 'w \<Rightarrow> error option \<times> 'w" where
  "docker_Exec cli x c cmd en user w =
     (if cmd = [] then (Some (Errorf ''hook: empty command'' []), w)
      else case ContainerExecCreate cli x c cmd en user w of
        (Inl e, w) \<Rightarrow> (Some (Wrapf ''exec create in %s: %w'' [c] e), w)
      | (Inr i, w) \<Rightarrow>
          (case ContainerExecAttach cli x i w of
             (Inl e, w) \<Rightarrow> (Some (Wrapf ''exec attach in %s: %w'' [c] e), w)
           | (Inr s, w) \<Rightarrow>
               (case ContextErr cli x w of
                  (ce, w) \<Rightarrow>
                    (case (ce, log_err s) of
                       (Some e, _) \<Rightarrow> (Some (Wrapf ''exec in %s: %w'' [c] e), w)
                     | (None, Some e) \<Rightarrow> (Some (Wrapf ''exec stream in %s: %w'' [c] e), w)
                     | (None, None) \<Rightarrow>
                         (case ContainerExecInspect cli x i w of
                            (Inl e, w) \<Rightarrow> (Some (Wrapf ''exec inspect in %s: %w'' [c] e), w)
                          | (Inr code, w) \<Rightarrow>
                              (if code \<noteq> 0 then Some (Errorf ''hook in %s exited with code %d: %s'' [c, Itoa code, all_frames s]) else None, w))))))"

definition parse_mount :: "string \<Rightarrow> mount res" where
  "parse_mount v =
     (case Split v (CHR '':'') of
        [s, t] \<Rightarrow> Inr \<lparr>mnt_Type = (if prefix ''/'' s then TypeBind else TypeVolume), mnt_Source = s, mnt_Target = t, mnt_ReadOnly = False\<rparr>
      | [s, t, f] \<Rightarrow>
          if f \<noteq> ''ro'' then Inl (Errorf (''hook volume %q: third field must be '' @ [CHR 0x27] @ ''ro'' @ [CHR 0x27]) [v])
          else Inr \<lparr>mnt_Type = (if prefix ''/'' s then TypeBind else TypeVolume), mnt_Source = s, mnt_Target = t, mnt_ReadOnly = True\<rparr>
      | _ \<Rightarrow> Inl (Errorf ''hook volume %q: want source:/target[:ro]'' [v]))"

definition parseMounts :: "string list \<Rightarrow> mount list res" where
  "parseMounts vols = res_map parse_mount vols"

definition HookLabelKey :: string where "HookLabelKey = ''sabon.hook''"

definition hook_config :: "run_spec \<Rightarrow> container_config" where
  "hook_config sp = empty_config\<lparr>cfg_Image := run_Image sp, cfg_Cmd := run_Command sp, cfg_User := run_User sp,
     cfg_Env := run_Env sp, cfg_Labels := [(HookLabelKey, run_Name sp)]\<rparr>"

definition hook_host :: "run_spec \<Rightarrow> mount list \<Rightarrow> host_config" where
  "hook_host sp mounts = empty_host\<lparr>host_Mounts := mounts, host_NetworkMode := run_Network sp\<rparr>"

text \<open>From the start of the created container to the exit code; \<open>logs\<close> is the same loop as the mover runner's.\<close>

definition hook_created :: "'w docker_client \<Rightarrow> ctx \<Rightarrow> run_spec \<Rightarrow> string \<Rightarrow> 'w \<Rightarrow> error option \<times> 'w" where
  "hook_created cli x sp i w =
     (case ContainerStart cli x i w of
        (Some e, w) \<Rightarrow> (Some (Wrapf ''start hook container: %w'' [] e), w)
      | (None, w) \<Rightarrow>
          (case ContainerWait cli x i w of
             (CtxDone e, w) \<Rightarrow> (Some e, w)
           | (WaitErr e, w) \<Rightarrow> (Some (Wrapf ''wait hook container: %w'' [] e), w)
           | (WaitStatus code _, w) \<Rightarrow>
               (if code \<noteq> 0 then
                  (case logs cli x i w of
                     (lg, w) \<Rightarrow> (Some (Errorf (''hook container %s exited with code %d:'' @ [CHR 0x0A] @ ''%s'')
                                   [run_Image sp, Itoa code, lg]), w))
                else (None, w))))"

definition docker_RunOneShot :: "'w docker_client \<Rightarrow> ctx \<Rightarrow> run_spec \<Rightarrow> 'w \<Rightarrow> error option \<times> 'w" where
  "docker_RunOneShot cli x sp w =
     (if run_Image sp = [] then (Some (Errorf ''hook: run mode needs an image'' []), w)
      else case parseMounts (run_Volumes sp) of
        Inl e \<Rightarrow> (Some e, w)
      | Inr mounts \<Rightarrow>
          (case ensureImage ''pull hook image %s: %w'' cli x (run_Image sp) w of
             (Some e, w) \<Rightarrow> (Some e, w)
           | (None, w) \<Rightarrow>
               (case ContainerCreate cli x (hook_config sp) (hook_host sp mounts) (run_Name sp) w of
                  (Inl e, w) \<Rightarrow> (Some (Wrapf ''create hook container: %w'' [] e), w)
                | (Inr i, w) \<Rightarrow>
                    (case hook_created cli x sp i w of
                       (e, w) \<Rightarrow> (e, snd (ContainerRemove cli (WithoutCancel x) i w))))))"

definition docker_ReapHooks :: "'w docker_client \<Rightarrow> ctx \<Rightarrow> 'w \<Rightarrow> (nat \<times> error option) \<times> 'w" where
  "docker_ReapHooks cli x w =
     (case ContainerList cli x True [(''label'', HookLabelKey), (''status'', ''exited'')] w of
        (Inl e, w) \<Rightarrow> ((0, Some (Wrapf ''list hook containers: %w'' [] e)), w)
      | (Inr list, w) \<Rightarrow> (case remove_ids cli x (map cs_ID list) 0 w of (n, w) \<Rightarrow> ((n, None), w)))"

definition docker_AppProject :: "'w docker_client \<Rightarrow> ctx \<Rightarrow> string \<Rightarrow> 'w \<Rightarrow> string res \<times> 'w" where
  "docker_AppProject cli x i w =
     (case ContainerInspect cli x i w of
        (Inl e, w) \<Rightarrow> (Inl e, w)
      | (Inr insp, w) \<Rightarrow>
          (case cj_Config insp of
             None \<Rightarrow> Inl nil_deref
           | Some c \<Rightarrow> Inr (lookup_str (cfg_Labels c) ''com.docker.compose.project''), w))"

definition env_map :: "string list \<Rightarrow> (string, string) gomap" where
  "env_map kvs = fold (\<lambda>kv m. case Cut kv ''='' of (k, v, ok) \<Rightarrow> if ok then AList.update k v m else m) kvs []"

definition docker_AppEnv :: "'w docker_client \<Rightarrow> ctx \<Rightarrow> string \<Rightarrow> 'w \<Rightarrow> (string, string) gomap res \<times> 'w" where
  "docker_AppEnv cli x i w =
     (case ContainerInspect cli x i w of
        (Inl e, w) \<Rightarrow> (Inl e, w)
      | (Inr insp, w) \<Rightarrow>
          (case cj_Config insp of None \<Rightarrow> Inl nil_deref | Some c \<Rightarrow> Inr (env_map (cfg_Env c)), w))"

section \<open>Host and quiescing\<close>

definition docker_EnsureCache :: "'w docker_client \<Rightarrow> ctx \<Rightarrow> string \<Rightarrow> 'w \<Rightarrow> error option \<times> 'w" where
  "docker_EnsureCache cli x name w = VolumeCreate cli x name w"

text \<open>\<open>quote\<close> is \<^verbatim>\<open>%q\<close>, which depends on the table of printable runes.\<close>

definition nonLocalBacking :: "(string \<Rightarrow> string) \<Rightarrow> volume \<Rightarrow> string \<times> bool" where
  "nonLocalBacking quote v =
     (if vol_Driver v \<noteq> ''local'' then
        (''plugin-backed volume (driver '' @ quote (vol_Driver v) @ ''), not local storage'', True)
      else if vol_Options v \<noteq> [] then
        (let t = lookup_str (vol_Options v) ''type''
         in if t \<noteq> [] then (t @ '' mount, not local storage'', True)
            else (''foreign mount (driver options set), not local storage'', True))
      else ([], False))"

definition docker_VolumeHostPath :: "(string \<Rightarrow> string) \<Rightarrow> 'w docker_client \<Rightarrow> ctx \<Rightarrow> string \<Rightarrow> 'w \<Rightarrow> (string \<times> string) res \<times> 'w" where
  "docker_VolumeHostPath quote cli x name w =
     (case VolumeInspect cli x name w of
        (Inl e, w) \<Rightarrow> (Inl (Wrapf ''inspect volume %q: %w'' [name] e), w)
      | (Inr v, w) \<Rightarrow> (Inr (vol_Mountpoint v, fst (nonLocalBacking quote v)), w))"

fun bind_sources :: "'w docker_client \<Rightarrow> ctx \<Rightarrow> container_summary list \<Rightarrow> string list \<Rightarrow> 'w \<Rightarrow> string list res \<times> 'w" where
  "bind_sources cli x [] paths w = (Inr paths, w)"
| "bind_sources cli x (c # cs) paths w =
     (case ContainerInspect cli x (cs_ID c) w of
        (Inl e, w) \<Rightarrow> (Inl e, w)
      | (Inr insp, w) \<Rightarrow> bind_sources cli x cs (paths @ map mp_Source (cj_Mounts insp)) w)"

definition docker_RunningMoverBinds :: "'w docker_client \<Rightarrow> ctx \<Rightarrow> 'w \<Rightarrow> string list res \<times> 'w" where
  "docker_RunningMoverBinds cli x w =
     (case ContainerList cli x False [(''label'', LabelKey)] w of
        (Inl e, w) \<Rightarrow> (Inl e, w)
      | (Inr list, w) \<Rightarrow> bind_sources cli x list [] w)"

definition docker_Stop :: "'w docker_client \<Rightarrow> ctx \<Rightarrow> string \<Rightarrow> 'w \<Rightarrow> error option \<times> 'w" where
  "docker_Stop cli x ref w =
     (case ContainerStop cli x ref w of
        (Some e, w) \<Rightarrow> (Some (Wrapf ''stop %s: %w'' [ref] e), w) | (None, w) \<Rightarrow> (None, w))"

definition docker_Start :: "'w docker_client \<Rightarrow> ctx \<Rightarrow> string \<Rightarrow> 'w \<Rightarrow> error option \<times> 'w" where
  "docker_Start cli x ref w =
     (case ContainerStart cli x ref w of
        (Some e, w) \<Rightarrow> (Some (Wrapf ''start %s: %w'' [ref] e), w) | (None, w) \<Rightarrow> (None, w))"

section \<open>The standalone runtime\<close>

text \<open>What \<^verbatim>\<open>newRuntime\<close> of the command assembles for the standalone engine.\<close>

definition docker_runtime ::
  "codec \<Rightarrow> (string \<Rightarrow> string) \<Rightarrow> (container_summary list \<Rightarrow> container_summary list) \<Rightarrow> 'w docker_client \<Rightarrow> (ctx \<Rightarrow> 'w \<Rightarrow> error option \<times> 'w)
   \<Rightarrow> ('w \<Rightarrow> int) \<Rightarrow> 'w snapshotter list \<Rightarrow> 'w runtime" where
  "docker_runtime cd quote srt cli slot now snaps = \<lparr>
     rt_RunMover = Run cd cli,
     rt_ReapMovers = Reap srt cli,
     rt_RunOneShot = docker_RunOneShot cli,
     rt_AppEnv = docker_AppEnv cli,
     rt_AppProject = docker_AppProject cli,
     rt_ReapHooks = docker_ReapHooks cli,
     rt_Exec = Some (docker_Exec cli),
     rt_Stop = docker_Stop cli,
     rt_Start = docker_Start cli,
     rt_EnsureCache = docker_EnsureCache cli,
     rt_VolumeHostPath = docker_VolumeHostPath quote cli,
     rt_RunningMoverBinds = docker_RunningMoverBinds cli,
     rt_slot = slot,
     rt_snaps = snaps,
     rt_now = now\<rparr>"
section \<open>Hook volumes\<close>

definition print_mount :: "mount \<Rightarrow> string" where
  "print_mount m = mnt_Source m @ '':'' @ mnt_Target m @ (if mnt_ReadOnly m then '':ro'' else [])"

definition hook_mount :: "mount \<Rightarrow> bool" where
  "hook_mount m \<longleftrightarrow> CHR '':'' \<notin> set (mnt_Source m) \<and> CHR '':'' \<notin> set (mnt_Target m) \<and>
     mnt_Type m = (if prefix ''/'' (mnt_Source m) then TypeBind else TypeVolume)"

lemma Split_eqD: "Split v x = ps \<Longrightarrow> v = Join ps [x] \<and> (\<forall>p\<in>set ps. x \<notin> set p)"
  using Join_Split[of v x] Split_no_sep[of _ v x] by auto

lemma parse_mount_iff: "parse_mount v = Inr m \<longleftrightarrow> v = print_mount m \<and> hook_mount m"
proof
  assume p: "parse_mount v = Inr m"
  then consider s t where "Split v (CHR '':'') = [s, t]" | s t where "Split v (CHR '':'') = [s, t, ''ro'']"
    by (auto simp: parse_mount_def split: list.splits if_splits)
  then show "v = print_mount m \<and> hook_mount m"
  proof cases
    case (1 s t)
    with Split_eqD[OF 1] p show ?thesis by (auto simp: parse_mount_def print_mount_def hook_mount_def)
  next
    case (2 s t)
    with Split_eqD[OF 2] p show ?thesis by (auto simp: parse_mount_def print_mount_def hook_mount_def)
  qed
next
  assume a: "v = print_mount m \<and> hook_mount m"
  then have "Split v (CHR '':'') = mnt_Source m # mnt_Target m # (if mnt_ReadOnly m then [''ro''] else [])"
    by (simp add: print_mount_def hook_mount_def Split_append_sep)
  with a show "parse_mount v = Inr m" by (simp add: parse_mount_def hook_mount_def)
qed

text \<open>
  The parser of hook volumes accepts exactly the printed forms \<^verbatim>\<open>source:target[:ro]\<close> of mounts with no colon in
  their source and target, bind mounts for a source that starts with a slash and volumes otherwise,
  and it returns the mounts that were printed.
\<close>

theorem hook_mounts_roundtrip:
  "parseMounts vols = Inr ms \<longleftrightarrow> vols = map print_mount ms \<and> (\<forall>m\<in>set ms. hook_mount m)"
  unfolding parseMounts_def res_map_Inr_iff parse_mount_iff
  by (induction ms arbitrary: vols) (auto simp: list_all2_Cons2)

theorem hook_mounts_roundtrip_witness:
  "parseMounts [''/srv/dump:/dump'', ''pgdata:/data:ro''] =
     Inr [\<lparr>mnt_Type = TypeBind, mnt_Source = ''/srv/dump'', mnt_Target = ''/dump'', mnt_ReadOnly = False\<rparr>,
          \<lparr>mnt_Type = TypeVolume, mnt_Source = ''pgdata'', mnt_Target = ''/data'', mnt_ReadOnly = True\<rparr>]"
  unfolding hook_mounts_roundtrip by (simp add: print_mount_def hook_mount_def)

section \<open>Hook containers\<close>

lemma hook_created_calls:
  "\<exists>mid. snd (snd (hook_created (traced cli) x sp i (w, t))) = t @ CStart x i # mid \<and> (\<forall>k\<in>set mid. k = CWait x i \<or> k = CLogs x i)"
  by (auto simp: hook_created_def logs_def split: prod.splits option.splits wait_event.splits sum.splits if_splits)

text \<open>
  A one-shot hook either ends before its container exists (nothing but image calls and a failed creation), or
  it starts the created container, waits for it, may read its logs, and its last call forces the
  removal of that container on a context that no cancel and no timeout of the hook reaches.
\<close>

theorem hook_container_removed:
  "let ks = snd (snd (docker_RunOneShot (traced cli) x sp (w, [])))
   in (\<forall>k\<in>set ks. is_image_call k \<or> (\<exists>g h n. k = CCreate x g h n)) \<and> fst (docker_RunOneShot (traced cli) x sp (w, [])) \<noteq> None \<or>
      (\<exists>pre mounts i mid. ks = pre @ CCreate x (hook_config sp) (hook_host sp mounts) (run_Name sp)
                       # CStart x i # mid @ [CRemove (WithoutCancel x) i] \<and>
         parseMounts (run_Volumes sp) = Inr mounts \<and>
         list_all is_image_call pre \<and> (\<forall>k\<in>set mid. k = CWait x i \<or> k = CLogs x i))"
proof (cases "run_Image sp = [] \<or> isl (parseMounts (run_Volumes sp))")
  case True
  then show ?thesis by (auto simp: docker_RunOneShot_def isl_def)
next
  case False
  then obtain mounts where m: "parseMounts (run_Volumes sp) = Inr mounts" and im: "run_Image sp \<noteq> []"
    by (cases "parseMounts (run_Volumes sp)") auto
  obtain r w1 pre where i: "ensureImage ''pull hook image %s: %w'' (traced cli) x (run_Image sp) (w, []) = (r, (w1, pre))" "list_all is_image_call pre"
    using only_callsE[OF ensureImage_calls] by (metis append_Nil)
  show ?thesis
  proof (cases r)
    case (Some e)
    with i m im show ?thesis by (simp add: docker_RunOneShot_def list_all_iff)
  next
    case None
    obtain c w2 where c: "ContainerCreate cli x (hook_config sp) (hook_host sp mounts) (run_Name sp) w1 = (c, w2)" by (rule prod.exhaust)
    show ?thesis
    proof (cases c)
      case (Inl e)
      with i m im None c show ?thesis by (auto simp: docker_RunOneShot_def list_all_iff)
    next
      case (Inr cid)
      let ?t = "pre @ [CCreate x (hook_config sp) (hook_host sp mounts) (run_Name sp)]"
      obtain e w3 t3 where h: "hook_created (traced cli) x sp cid (w2, ?t) = (e, (w3, t3))" by (metis prod.exhaust)
      obtain mid where mid: "t3 = ?t @ CStart x cid # mid" "\<forall>k\<in>set mid. k = CWait x cid \<or> k = CLogs x cid"
        using hook_created_calls[of cli x sp cid w2 ?t] h by auto
      have "snd (snd (docker_RunOneShot (traced cli) x sp (w, []))) = t3 @ [CRemove (WithoutCancel x) cid]"
        using i m im None c Inr h by (simp add: docker_RunOneShot_def)
      with mid i(2) m show ?thesis by (auto simp: Let_def)
    qed
  qed
qed
definition demo_hook_spec :: run_spec where
  "demo_hook_spec = \<lparr>run_Name = ''sabon-hook-shop-pre-0-7'', run_Image = ''pg'', run_Command = [''pg_dump''], run_User = [],
     run_Env = [], run_Network = [], run_Volumes = [''pgdata:/data:ro'']\<rparr>"

theorem hook_container_removed_witness:
  "\<exists>pre c h i mid. snd (snd (docker_RunOneShot (traced (demo_docker (WaitStatus 0 None) [])) Caller demo_hook_spec ((), []))) =
     pre @ CCreate Caller c h (run_Name demo_hook_spec) # CStart Caller i # mid @ [CRemove (WithoutCancel Caller) i]"
proof -
  have "fst (docker_RunOneShot (traced (demo_docker (WaitStatus 0 None) [])) Caller demo_hook_spec ((), [])) = None" by code_simp
  with hook_container_removed[of "demo_docker (WaitStatus 0 None) []" Caller demo_hook_spec "()"] show ?thesis
    unfolding Let_def by blast
qed

end
