(* ===== verification/Standalone.thy ===== *)
theory Standalone
  imports Docker_Engine
begin

text \<open>
  The composition of the orchestrator, the standalone runtime and the zfs provider: which mounts a mover gets,
  that a backup leaves no snapshot behind, and that the reap at startup spares what a surviving mover
  reads.
\<close>

section \<open>What is mounted into a mover\<close>

definition data_path :: "string \<Rightarrow> string" where
  "data_path n = dataMount @ ''/'' @ n"

lemma snap_bind_targets: "map mnt_Target (map snap_bind ms) = map data_path (map sm_Name ms)"
  by (simp add: snap_bind_def data_path_def)

text \<open>A loop of claims only moves names from the pending to the claimed ones, each at most once.\<close>

lemma claim_loop_names:
  "claim_loop rs pending claimed mine = (mine', pending', claimed') \<Longrightarrow>
   \<exists>new. map ss_Name mine' = map ss_Name mine @ new \<and> distinct new \<and> set new \<subseteq> set pending \<and>
         set pending' = set pending - set new \<and> set claimed' = set claimed \<union> set new"
proof (induction rs arbitrary: pending claimed mine)
  case (Cons r rs)
  show ?case
  proof (cases "rs_Name r \<in> set pending \<and> rs_Snapshottable r")
    case False
    with Cons.prems have "claim_loop rs pending claimed mine = (mine', pending', claimed')" by (auto split: if_splits)
    from Cons.IH[OF this] show ?thesis .
  next
    case True
    with Cons.prems have "claim_loop rs (removeAll (rs_Name r) pending) (rs_Name r # claimed)
        (mine @ [\<lparr>ss_Name = rs_Name r, ss_HostPath = rs_HostPath r\<rparr>]) = (mine', pending', claimed')" by simp
    from Cons.IH[OF this] obtain new where new: "map ss_Name mine' = map ss_Name mine @ [rs_Name r] @ new" "distinct new"
      "set new \<subseteq> set pending - {rs_Name r}" "set pending' = set pending - {rs_Name r} - set new"
      "set claimed' = insert (rs_Name r) (set claimed) \<union> set new" by auto
    then show ?thesis using True by (intro exI[of _ "rs_Name r # new"]) auto
  qed
qed auto

definition per_names :: "('w snapshotter \<times> snap_source list) list \<Rightarrow> string list" where
  "per_names per = concat (map (\<lambda>(s, mine). map ss_Name mine) per)"

lemma claim_all_names:
  "claim_all x srcs snaps pending claimed w = ((per, claimed'), w') \<Longrightarrow>
   distinct (per_names per) \<and> set (per_names per) \<subseteq> set pending \<and> set claimed' = set claimed \<union> set (per_names per)
   \<and> fst ` set per \<subseteq> set snaps"
proof (induction snaps arbitrary: pending claimed w per claimed' w')
  case (Cons s ss)
  show ?case
  proof (cases "pending = [] \<or> (\<exists>e w1. sn_Resolve s x srcs w = (Inl e, w1))")
    case True
    then show ?thesis
    proof
      assume "pending = []" with Cons.prems show ?thesis by (auto simp: per_names_def)
    next
      assume "\<exists>e w1. sn_Resolve s x srcs w = (Inl e, w1)"
      then obtain e w1 where "sn_Resolve s x srcs w = (Inl e, w1)" by blast
      with Cons.prems Cons.IH[of pending claimed w1 per claimed' w'] show ?thesis by (auto simp: per_names_def split: if_splits)
    qed
  next
    case False
    then obtain rs w1 where r: "sn_Resolve s x srcs w = (Inr rs, w1)" by (metis obj_sumE surj_pair)
    obtain mine p2 c2 where c: "claim_loop rs pending claimed [] = (mine, p2, c2)" by (metis prod.exhaust)
    obtain per2 c3 w3 where a: "claim_all x srcs ss p2 c2 w1 = ((per2, c3), w3)" by (metis prod.exhaust)
    from Cons.prems False r c a have e: "per = (s, mine) # per2" "claimed' = c3" by simp_all
    from claim_loop_names[OF c] obtain new where new: "map ss_Name mine = new" "distinct new" "set new \<subseteq> set pending"
      "set p2 = set pending - set new" "set c2 = set claimed \<union> set new" by auto
    have n: "per_names per = new @ per_names per2" by (simp add: e(1) per_names_def new(1))
    from Cons.IH[OF a] new show ?thesis unfolding n e(2) by (auto simp: e(1))
  qed
qed (auto simp: per_names_def)

definition providers :: "'w snapshotter list \<Rightarrow> bool" where
  "providers snaps \<longleftrightarrow> (\<forall>s\<in>set snaps. snapshot_provider s)"

lemma snapshot_all_mounts:
  "snapshot_all x app per cls ms w = (Inr (cls', ms'), w') \<Longrightarrow> \<forall>p\<in>set per. snapshot_provider (fst p) \<Longrightarrow>
   \<exists>new. ms' = ms @ new \<and> map mnt_Target new = map data_path (per_names per) \<and> (\<forall>m\<in>set new. mnt_ReadOnly m)"
proof (induction per arbitrary: cls ms w)
  case Nil then show ?case by (simp add: per_names_def)
next
  case (Cons p per)
  obtain s mine where p: "p = (s, mine)" by fastforce
  show ?case
  proof (cases "mine = []")
    case True with Cons p show ?thesis by (simp add: per_names_def)
  next
    case False
    with Cons.prems(1) p obtain snaps cl w1 where s: "sn_Snapshot s x app mine w = (Inr (snaps, cl), w1)"
      and a: "snapshot_all x app per (cls @ [cl]) (ms @ map snap_bind snaps) w1 = (Inr (cls', ms'), w')"
      by (auto split: prod.splits sum.splits)
    from Cons.prems(2) p have "snapshot_provider s" by simp
    from snapshot_provider.Snapshot_names[OF this s] have "map mnt_Target (map snap_bind snaps) = map data_path (map ss_Name mine)"
      by (simp only: snap_bind_targets)
    moreover from Cons.IH[OF a] Cons.prems(2) obtain new where "ms' = (ms @ map snap_bind snaps) @ new"
      "map mnt_Target new = map data_path (per_names per)" "\<forall>m\<in>set new. mnt_ReadOnly m" by auto
    ultimately show ?thesis using p
      by (intro exI[of _ "map snap_bind snaps @ new"]) (auto simp: per_names_def snap_bind_def)
  qed
qed

lemma resolve_loop_names:
  "resolve_loop rt x ss srcs fo w = (Inr (srcs', fo'), w') \<Longrightarrow> map ss_Name srcs' = map ss_Name srcs @ map src_Name ss"
proof (induction ss arbitrary: srcs fo w)
  case (Cons s ss)
  then show ?case by (cases "rt_VolumeHostPath rt x (src_Ref s) w") (auto split: if_splits sum.splits)
qed simp

lemma sourceMounts_targets: "map mnt_Target (sourceMounts j ro) = map data_path (map src_Name (job_Sources j))"
  by (simp add: sourceMounts_def data_path_def)

text \<open>The targets and the access mode of the source mounts, in all three modes.\<close>

lemma sourceMountsFor_mounts:
  assumes "sourceMountsFor rt oc x j w = (Inr (ms, cl), w')" "providers (rt_snaps rt)" "distinct (map src_Name (job_Sources j))"
  shows "mset (map mnt_Target ms) = mset (map data_path (map src_Name (job_Sources j))) \<and> (\<forall>m\<in>set ms. mnt_ReadOnly m)"
proof -
  let ?names = "map src_Name (job_Sources j)"
  from assms(1) consider (live) "ms = sourceMounts j True" | (auto) "autoMounts rt x j w = (Inr (ms, cl), w')"
    | (strict) s where "s \<in> set (rt_snaps rt)" "strictMounts rt x j s w = (Inr (ms, cl), w')"
    by (auto simp: sourceMountsFor_def Let_def snapshotterFor_def dest: tr.R_find_mode split: if_splits option.splits)
  then show ?thesis
  proof cases
    case live
    then show ?thesis by (simp add: sourceMounts_targets del: map_map) (simp add: sourceMounts_def)
  next
    case (strict s)
    then obtain srcs fo w1 snaps where r: "resolveHostPaths rt x j w = (Inr (srcs, fo), w1)"
      and s: "sn_Snapshot s x (job_App j) srcs w1 = (Inr (snaps, cl), w')" and ms: "ms = map snap_bind snaps"
      by (auto simp: strictMounts_def split: prod.splits sum.splits option.splits)
    have "snapshot_provider s" using strict(1) assms(2) by (simp add: providers_def)
    from snapshot_provider.Snapshot_names[OF this s] resolve_loop_names[OF r[unfolded resolveHostPaths_def]]
    have "map sm_Name snaps = ?names" by simp
    then have "map mnt_Target ms = map data_path ?names" unfolding ms snap_bind_targets by (rule arg_cong)
    then show ?thesis by (simp add: ms snap_bind_def del: map_map)
  next
    case auto
    then obtain srcs fo w1 per claimed w2 cls ms1 where r: "resolveHostPaths rt x j w = (Inr (srcs, fo), w1)"
      and c: "claim_all x srcs (rt_snaps rt) (filter (\<lambda>n. map_of fo n = None) (map ss_Name srcs)) [] w1 = ((per, claimed), w2)"
      and s: "snapshot_all x (job_App j) per [] [] w2 = (Inr (cls, ms1), w')"
      and ms: "ms = ms1 @ sourceMounts (j\<lparr>job_Sources := filter (\<lambda>s. src_Name s \<notin> set claimed) (job_Sources j)\<rparr>) True"
      by (auto simp: autoMounts_def split: prod.splits sum.splits)
    have names: "map ss_Name srcs = ?names" using resolve_loop_names[OF r[unfolded resolveHostPaths_def]] by simp
    from claim_all_names[OF c] names have d: "distinct (per_names per)" "set (per_names per) \<subseteq> set ?names"
      "set claimed = set (per_names per)" "fst ` set per \<subseteq> set (rt_snaps rt)" by auto
    from d(4) assms(2) have "\<forall>p\<in>set per. snapshot_provider (fst p)" by (auto simp: providers_def)
    from snapshot_all_mounts[OF s this] have m1: "map mnt_Target ms1 = map data_path (per_names per)" "\<forall>m\<in>set ms1. mnt_ReadOnly m" by auto
    have "mset (per_names per) = mset (filter (\<lambda>n. n \<in> set claimed) ?names)"
      using d assms(3) by (intro set_eq_iff_mset_eq_distinct[THEN iffD1]) (auto simp: distinct_map_filter_key)
    then have "mset (per_names per @ filter (\<lambda>n. n \<notin> set claimed) ?names) = mset ?names"
      using multiset_partition[of "mset ?names" "\<lambda>n. n \<in> set claimed"] by (simp flip: mset_filter del: mset_map)
    then have "mset (map data_path (per_names per @ filter (\<lambda>n. n \<notin> set claimed) ?names)) = mset (map data_path ?names)"
      by (simp only: mset_map)
    moreover have "map mnt_Target ms = map data_path (per_names per @ filter (\<lambda>n. n \<notin> set claimed) ?names)"
      using m1(1) by (simp add: ms sourceMounts_targets filter_map comp_def)
    ultimately have "mset (map mnt_Target ms) = mset (map data_path ?names)" by (simp only:)
    with m1(2) ms show ?thesis by (auto simp: sourceMounts_def)
  qed
qed
section \<open>Snapshots of a run\<close>

text \<open>A cleanup that removes exactly \<open>S\<close>, on every context that no cancel reaches.\<close>

definition undo :: "('w \<Rightarrow> 'a set) \<Rightarrow> (ctx \<Rightarrow> 'w \<Rightarrow> 'w) \<Rightarrow> 'a set \<Rightarrow> bool" where
  "undo snaps cl S \<longleftrightarrow> (\<forall>y u. \<not> follows_caller y \<longrightarrow> snaps (cl y u) = snaps u - S)"

text \<open>
  \<open>snaps\<close> is the set of snapshots on the host. A provider is leak-free when a failed \<^verbatim>\<open>Snapshot\<close> and a
  \<^verbatim>\<open>Resolve\<close> leave it, and the cleanup of a successful one removes exactly what was added.
\<close>

definition leak_free :: "('w \<Rightarrow> 'a set) \<Rightarrow> 'w snapshotter \<Rightarrow> bool" where
  "leak_free snaps s \<longleftrightarrow>
     (\<forall>x srcs w. snaps (snd (sn_Resolve s x srcs w)) = snaps w) \<and>
     (\<forall>x app srcs w. case sn_Snapshot s x app srcs w of
        (Inl e, w') \<Rightarrow> snaps w' = snaps w
      | (Inr (ms, cl), w') \<Rightarrow> snaps w \<subseteq> snaps w' \<and> undo snaps cl (snaps w' - snaps w))"

lemma leak_freeD:
  assumes "leak_free snaps s"
  shows "sn_Resolve s x srcs w = (r, w') \<Longrightarrow> snaps w' = snaps w"
    and "sn_Snapshot s x app srcs w = (Inl e, w') \<Longrightarrow> snaps w' = snaps w"
    and "sn_Snapshot s x app srcs w = (Inr (ms, cl), w') \<Longrightarrow> snaps w \<subseteq> snaps w' \<and> undo snaps cl (snaps w' - snaps w)"
proof -
  note d = assms[unfolded leak_free_def]
  show "sn_Resolve s x srcs w = (r, w') \<Longrightarrow> snaps w' = snaps w"
    using d[THEN conjunct1, THEN spec, of x, THEN spec, of srcs, THEN spec, of w] by simp
  note h = d[THEN conjunct2, THEN spec, of x, THEN spec, of app, THEN spec, of srcs, THEN spec, of w]
  show "sn_Snapshot s x app srcs w = (Inl e, w') \<Longrightarrow> snaps w' = snaps w"
    "sn_Snapshot s x app srcs w = (Inr (ms, cl), w') \<Longrightarrow> snaps w \<subseteq> snaps w' \<and> undo snaps cl (snaps w' - snaps w)"
    using h by simp_all
qed

lemma zfs_leak_free:
  assumes "zfs_host z snaps" "destroys_work z"
  shows "leak_free snaps (zfs_snapshotter z)"
proof -
  have "snaps (snd (zfs_Resolve z x srcs w)) = snaps w" for x srcs w
    using zfs_hostD(5)[OF assms(1)]
    by (fastforce simp: zfs_Resolve_def list_filesystems_def split: prod.splits sum.splits)
  then show ?thesis using zfs_Snapshot_snaps[OF assms]
    by (auto simp: leak_free_def undo_def zfs_snapshotter_def split: prod.splits sum.splits)
qed

text \<open>The containers a run starts and the volumes it asks for do not touch the host's snapshots.\<close>

definition keeps :: "('w \<Rightarrow> 'a set) \<Rightarrow> 'w runtime \<Rightarrow> bool" where
  "keeps snaps rt \<longleftrightarrow>
     (\<forall>x r w. snaps (snd (rt_RunMover rt x r w)) = snaps w) \<and>
     (\<forall>x s w. snaps (snd (rt_RunOneShot rt x s w)) = snaps w) \<and>
     (\<forall>x c w. snaps (snd (rt_AppEnv rt x c w)) = snaps w) \<and>
     (\<forall>x c w. snaps (snd (rt_AppProject rt x c w)) = snaps w) \<and>
     (\<forall>ex x c cmd en u w. rt_Exec rt = Some ex \<longrightarrow> snaps (snd (ex x c cmd en u w)) = snaps w) \<and>
     (\<forall>x c w. snaps (snd (rt_Stop rt x c w)) = snaps w) \<and>
     (\<forall>x c w. snaps (snd (rt_Start rt x c w)) = snaps w) \<and>
     (\<forall>x n w. snaps (snd (rt_EnsureCache rt x n w)) = snaps w) \<and>
     (\<forall>x n w. snaps (snd (rt_VolumeHostPath rt x n w)) = snaps w) \<and>
     (\<forall>x w. snaps (snd (rt_slot rt x w)) = snaps w)"

lemma keepsD:
  assumes "keeps snaps rt"
  shows "rt_RunMover rt x r w = (r1, w') \<Longrightarrow> snaps w' = snaps w" "rt_RunOneShot rt x s w = (r2, w') \<Longrightarrow> snaps w' = snaps w"
    "rt_AppEnv rt x c w = (r3, w') \<Longrightarrow> snaps w' = snaps w" "rt_AppProject rt x c w = (r4, w') \<Longrightarrow> snaps w' = snaps w"
    "rt_Exec rt = Some ex \<Longrightarrow> ex x c cmd en u w = (r2, w') \<Longrightarrow> snaps w' = snaps w"
    "rt_Stop rt x c w = (r2, w') \<Longrightarrow> snaps w' = snaps w" "rt_Start rt x c w = (r2, w') \<Longrightarrow> snaps w' = snaps w"
    "rt_EnsureCache rt x c w = (r2, w') \<Longrightarrow> snaps w' = snaps w" "rt_VolumeHostPath rt x c w = (r5, w') \<Longrightarrow> snaps w' = snaps w"
    "rt_slot rt x w = (r2, w') \<Longrightarrow> snaps w' = snaps w"
  using assms unfolding keeps_def by (metis snd_conv)+

lemma runOneHook_keeps:
  assumes "keeps snaps rt" "runOneHook rt oc x j h ph i w = (r, w')"
  shows "snaps w' = snaps w"
  by (rule runOneHook_same[OF keepsD(2,3,4,5)[OF assms(1)] assms(2)])

lemma runHooks_keeps: "keeps snaps rt \<Longrightarrow> runHooks rt oc x j hs ph w = (r, w') \<Longrightarrow> snaps w' = snaps w"
proof -
  have "keeps snaps rt \<Longrightarrow> hooks_loop rt oc x j ph i hs w = (r, w') \<Longrightarrow> snaps w' = snaps w" for i
    by (induction hs arbitrary: i w) (auto dest: runOneHook_keeps split: prod.splits option.splits)
  then show "keeps snaps rt \<Longrightarrow> runHooks rt oc x j hs ph w = (r, w') \<Longrightarrow> snaps w' = snaps w" by (simp add: runHooks_def)
qed

lemma resolveHostPaths_keeps: "keeps snaps rt \<Longrightarrow> resolveHostPaths rt x j w = (r, w') \<Longrightarrow> snaps w' = snaps w"
proof -
  assume k: "keeps snaps rt"
  have "resolve_loop rt x ss srcs fo w = (r, w') \<Longrightarrow> snaps w' = snaps w" for ss srcs fo
    by (induction ss arbitrary: srcs fo w) (auto dest: keepsD(9)[OF k] split: if_splits prod.splits sum.splits)
  then show "resolveHostPaths rt x j w = (r, w') \<Longrightarrow> snaps w' = snaps w" by (simp add: resolveHostPaths_def)
qed

lemma claim_all_keeps:
  "\<forall>s\<in>set ss. leak_free snaps s \<Longrightarrow> claim_all x srcs ss p c w = ((per, c'), w') \<Longrightarrow> snaps w' = snaps w \<and> fst ` set per \<subseteq> set ss"
proof (induction ss arbitrary: p c w per c')
  case (Cons s ss)
  obtain r w1 where r: "sn_Resolve s x srcs w = (r, w1)" by fastforce
  then have "snaps w1 = snaps w" using Cons.prems(1) by (auto dest: leak_freeD(1))
  with Cons r show ?case by (fastforce split: if_splits sum.splits prod.splits)
qed simp

lemma run_cleanups_snoc: "run_cleanups (cls @ [cl]) y u = cl y (run_cleanups cls y u)"
  by (induction cls arbitrary: u) auto

lemma snapshot_all_snaps:
  "snapshot_all x app per cls ms w = (r, w') \<Longrightarrow> \<forall>p\<in>set per. leak_free snaps (fst p) \<Longrightarrow>
   undo snaps (run_cleanups cls) (snaps w - B) \<Longrightarrow> B \<subseteq> snaps w \<Longrightarrow>
   (case r of Inl e \<Rightarrow> snaps w' = B | Inr (cls', ms') \<Rightarrow> B \<subseteq> snaps w' \<and> undo snaps (run_cleanups cls') (snaps w' - B))"
proof (induction per arbitrary: cls ms w)
  case (Cons p per)
  obtain s mine where p: "p = (s, mine)" by fastforce
  show ?case
  proof (cases "mine = []")
    case True with Cons p show ?thesis by simp
  next
    case False
    obtain rs w1 where s: "sn_Snapshot s x app mine w = (rs, w1)" by fastforce
    have lf: "case rs of Inl e \<Rightarrow> snaps w1 = snaps w | Inr (ms, cl) \<Rightarrow> snaps w \<subseteq> snaps w1 \<and> undo snaps cl (snaps w1 - snaps w)"
      using leak_freeD(2,3)[of snaps s x app mine w] Cons.prems(2) p s by (auto split: sum.splits)
    show ?thesis
    proof (cases rs)
      case (Inl e)
      with Cons.prems(1) p False s have "r = Inl e" "w' = run_cleanups cls (WithoutCancel x) w1" by auto
      with lf Inl Cons.prems(3,4) show ?thesis by (auto simp: undo_def)
    next
      case (Inr mc)
      obtain ms1 cl where mc: "mc = (ms1, cl)" by fastforce
      from lf Inr mc have l: "snaps w \<subseteq> snaps w1" "undo snaps cl (snaps w1 - snaps w)" by auto
      have u: "undo snaps (run_cleanups (cls @ [cl])) (snaps w1 - B)"
        using l Cons.prems(3,4) unfolding undo_def run_cleanups_snoc by auto
      have "snapshot_all x app per (cls @ [cl]) (ms @ map snap_bind ms1) w1 = (r, w')"
        using Cons.prems(1) p False s Inr mc by simp
      from Cons.IH[OF this _ u] Cons.prems(2,4) l(1) show ?thesis by auto
    qed
  qed
qed auto

lemma sourceMountsFor_snaps:
  assumes k: "keeps snaps rt" and lf: "\<forall>s\<in>set (rt_snaps rt). leak_free snaps s" and r: "sourceMountsFor rt oc x j w = (r, w')"
  shows "case r of Inl e \<Rightarrow> snaps w' = snaps w | Inr (ms, cl) \<Rightarrow> snaps w \<subseteq> snaps w' \<and> undo snaps cl (snaps w' - snaps w)"
proof -
  obtain h w0 where h: "resolveHostPaths rt x j w = (h, w0)" by fastforce
  note w0 = resolveHostPaths_keeps[OF k h]
  from r consider (triv) "w' = w" "r = Inr (sourceMounts j True, \<lambda>c w. w) \<or> isl r" | (auto) "autoMounts rt x j w = (r, w')"
    | (strict) s where "s \<in> set (rt_snaps rt)" "strictMounts rt x j s w = (r, w')"
    by (auto simp: sourceMountsFor_def Let_def snapshotterFor_def isl_def dest: tr.R_find_mode split: if_splits option.splits)
  then show ?thesis
  proof cases
    case triv then show ?thesis by (auto simp: undo_def isl_def)
  next
    case (strict s)
    from strict(1) lf have "leak_free snaps s" by blast
    from strict(2) h w0 leak_freeD(2,3)[OF this, of x "job_App j" _ w0] show ?thesis
      by (auto simp: strictMounts_def split: prod.splits sum.splits option.splits)
  next
    case auto
    show ?thesis
    proof (cases h)
      case (Inl e) with auto h w0 show ?thesis by (auto simp: autoMounts_def)
    next
      case (Inr sf)
      obtain srcs fo where sf: "sf = (srcs, fo)" by fastforce
      let ?p = "filter (\<lambda>n. map_of fo n = None) (map ss_Name srcs)"
      obtain per c w1 where c: "claim_all x srcs (rt_snaps rt) ?p [] w0 = ((per, c), w1)" by (metis prod.collapse)
      from claim_all_keeps[OF lf c] have w1: "snaps w1 = snaps w" and per: "\<forall>p\<in>set per. leak_free snaps (fst p)" using w0 lf by auto
      obtain r2 w2 where s: "snapshot_all x (job_App j) per [] [] w1 = (r2, w2)" by fastforce
      from snapshot_all_snaps[OF s per, of "snaps w"] w1
      have "case r2 of Inl e \<Rightarrow> snaps w2 = snaps w | Inr (cls', ms') \<Rightarrow> snaps w \<subseteq> snaps w2 \<and> undo snaps (run_cleanups cls') (snaps w2 - snaps w)"
        by (simp add: undo_def)
      with auto h Inr sf c s show ?thesis by (auto simp: autoMounts_def split: sum.splits)
    qed
  qed
qed
lemma run_mover_phase_snaps:
  assumes k: "keeps snaps rt" and lf: "\<forall>s\<in>set (rt_snaps rt). leak_free snaps s" and eng: "mover_engine (rt_RunMover rt)"
    and r: "run_mover_phase rt oc x j t renv w = ((res, err), w')"
    and ok: "spec_Stop (job_Spec j) \<or> err = None \<or> err = Some DeadlineExceeded"
  shows "snaps w' = snaps w"
proof -
  obtain h w0 where h: "sourceMountsFor rt oc x j w = (h, w0)" by fastforce
  note s = sourceMountsFor_snaps[OF k lf h]
  show ?thesis
  proof (cases h)
    case (Inl e) with s h r show ?thesis by (simp add: run_mover_phase_def)
  next
    case (Inr mc)
    obtain ms cl where mc: "mc = (ms, cl)" by fastforce
    let ?req = "backup_request oc j t renv ms (rt_now rt w0)"
    obtain res' kept e' out w1 where m: "rt_RunMover rt x ?req w0 = ((res', kept, e', out), w1)" by (metis prod.exhaust)
    let ?y = "WithTimeout (WithoutCancel x) post_timeout"
    obtain r2 w2 where p: "runHooks rt oc ?y j (spec_PostHooks (job_Spec j)) ''post'' w1 = (r2, w2)" by fastforce
    from r h Inr mc m p have e: "err = e'" "w' = (if kept then w2 else cl (WithoutCancel x) w2)" by (auto simp: run_mover_phase_def)
    have "req_KeepOnShutdown ?req = (\<not> spec_Stop (job_Spec j))" by (simp add: backup_request_def Let_def split: prod.splits)
    with ok e(1) m mover_engine.kept_allowed[OF eng, of x ?req w0] have "\<not> kept" by auto
    moreover have "snaps w2 = snaps w0" using keepsD(1)[OF k m] runHooks_keeps[OF k p] by simp
    ultimately show ?thesis using s Inr mc e(2) by (auto simp: undo_def)
  qed
qed

text \<open>Up to the stop a run leaves the snapshots alone; the phases say from where on it may not.\<close>

lemma phased_run_keeps:
  assumes "keeps snaps rt"
  shows "phased_run rt oc j t (\<lambda>a b u v. b < 4 \<longrightarrow> snaps v = snaps u) (\<lambda>_. True)"
  by unfold_locales (use keepsD[OF assms] runOneHook_keeps[OF assms] in \<open>auto simp: hook_phase_def\<close>)

lemma RunTarget_snaps:
  assumes k: "keeps snaps rt" and lf: "\<forall>s\<in>set (rt_snaps rt). leak_free snaps s" and eng: "mover_engine (rt_RunMover rt)"
    and x: "follows_caller x" and run: "RunTarget rt oc x j t st = ((res, err), st')"
    and ok: "spec_Stop (job_Spec j) \<or> err = None \<or> err = Some DeadlineExceeded"
  shows "snaps (os_world st') = snaps (os_world st)"
proof -
  note P = phased_run_keeps[OF k]
  show ?thesis
  proof (cases rule: phased_run.R_RunTarget_steps[OF P run x refl disjI1[OF TrueI], case_names early reached])
    case early then show ?thesis by simp
  next
    case (reached y renv st2 st3)
    let ?j = "j\<lparr>job_Sources := sourcesForTarget j t\<rparr>"
    note phase = run_mover_phase_snaps[OF k lf eng, where j = ?j and oc = oc and t = t and x = y and renv = renv]
    have "snaps (os_world st3) = snaps (os_world st2)"
    proof (cases "spec_Stop (job_Spec ?j) \<and> os_refs st2 (job_Container ?j) = 0")
      case True
      from reached(4) True[THEN conjunct1] True[THEN conjunct2] show ?thesis
      proof (cases rule: run_quiesced_stops)
        case (failed e) then show ?thesis using keepsD(6)[OF k] by blast
      next
        case (stopped w1 w2)
        have "snaps w2 = snaps w1" using phase[OF stopped(2)] True by simp
        moreover have "snaps (os_world st3) = snaps w2" using stopped(3) keepsD(7)[OF k] by (metis prod.collapse)
        ultimately show ?thesis using keepsD(6)[OF k stopped(1)] by simp
      qed
    next
      case False
      then have "\<not> spec_Stop (job_Spec ?j) \<or> os_refs st2 (job_Container ?j) \<noteq> 0" by blast
      from phase[OF run_quiesced_shares[OF reached(4) this]] ok show ?thesis by simp
    qed
    with reached(1,5) show ?thesis by simp
  qed
qed

section \<open>The standalone runtime\<close>

text \<open>
  Every source of a job is mounted into the mover exactly once, read-only, at the path the mover is told to
  back up, whatever the snapshot mode and whichever sources the zfs provider claims.
\<close>

theorem sources_mounted_once:
  assumes "sourceMountsFor (docker_runtime cd quote srt cli slot now (map zfs_snapshotter zs)) oc x j w = (Inr (ms, cl), w')"
    and "distinct (map src_Name (job_Sources j))"
  shows "mset (map mnt_Target ms) = mset (ms_Sources (moverSpec j t)) \<and> (\<forall>m\<in>set ms. mnt_ReadOnly m)"
proof -
  have "providers (rt_snaps (docker_runtime cd quote srt cli slot now (map zfs_snapshotter zs)))"
    by (auto simp: providers_def docker_runtime_def zfs.snapshot_provider_axioms)
  from sourceMountsFor_mounts[OF assms(1) this assms(2)] show ?thesis
    by (simp add: moverSpec_def Let_def data_path_def comp_def split: option.splits prod.splits)
qed

lemma bind_sources_collects:
  assumes "bind_sources cli x cs paths w = (Inr ps, w')"
  shows "set paths \<subseteq> set ps"
    and "c \<in> set cs \<Longrightarrow> \<forall>u insp u'. ContainerInspect cli x (cs_ID c) u = (Inr insp, u') \<longrightarrow> p \<in> mp_Source ` set (cj_Mounts insp) \<Longrightarrow> p \<in> set ps"
  using assms
proof (induction cs arbitrary: paths w)
  case (Cons d cs)
  { case 1 from 1 Cons(1) show ?case by (fastforce split: prod.splits sum.splits) }
  { case 2
    from 2(3) obtain insp u where i: "ContainerInspect cli x (cs_ID d) w = (Inr insp, u)"
      and b: "bind_sources cli x cs (paths @ map mp_Source (cj_Mounts insp)) u = (Inr ps, w')"
      by (auto split: prod.splits sum.splits)
    show ?case
    proof (cases "c = d")
      case True
      with 2(2) i have "p \<in> mp_Source ` set (cj_Mounts insp)" by blast
      with Cons(1)[OF b] show ?thesis by auto
    next
      case False
      with 2(1) have "c \<in> set cs" by simp
      from Cons(2)[OF this 2(2) b] show ?thesis .
    qed }
qed auto

text \<open>Listing the movers and inspecting them leaves the snapshots.\<close>

definition reads_keep :: "('w \<Rightarrow> 'a set) \<Rightarrow> 'w docker_client \<Rightarrow> bool" where
  "reads_keep snaps cli \<longleftrightarrow> (\<forall>y c u. snaps (snd (ContainerInspect cli y c u)) = snaps u) \<and>
     (\<forall>y u. snaps (snd (ContainerList cli y False [(''label'', LabelKey)] u)) = snaps u)"

lemma RunningMoverBinds_keeps:
  assumes "reads_keep snaps cli" "docker_RunningMoverBinds cli y v = (r, v')"
  shows "snaps v' = snaps v"
proof -
  have bs: "snaps u' = snaps u" if "bind_sources cli y cs ps u = (b, u')" for cs ps b u u'
    using that
  proof (induction cs arbitrary: ps u)
    case (Cons c cs)
    have "snaps (snd (ContainerInspect cli y (cs_ID c) u)) = snaps u" using assms(1) by (simp add: reads_keep_def)
    with Cons show ?case by (auto split: prod.splits sum.splits)
  qed simp
  obtain r0 v0 where l: "ContainerList cli y False [(''label'', LabelKey)] v = (r0, v0)" by fastforce
  then have "snaps v0 = snaps v" using assms(1) by (metis snd_conv reads_keep_def)
  with assms(2) l bs show ?thesis by (auto simp: docker_RunningMoverBinds_def split: sum.splits)
qed

text \<open>
  A snapshot that a surviving mover still reads outlives the reap at the next startup: if a running mover
  has the path of a mount that \<^verbatim>\<open>Snapshot\<close> returned among its mounts, the snapshot behind it is still there
  after \<^verbatim>\<open>ReapSnapshotter\<close>, also when listing or inspecting the movers fails.
\<close>

theorem startup_reap_spares_live:
  fixes cd quote srt cli slot now z
  defines "rt \<equiv> docker_runtime cd quote srt cli slot now [zfs_snapshotter z]"
  assumes "zfs_host z snaps" "destroys_work z"
    and "zfs_Snapshot z x app srcs w = (Inr (ms, cl), w')" "m \<in> set ms"
    and "\<forall>out u. z_run z x list_filesystems w = (Inr out, u) \<longrightarrow> listing_ok (parseDatasets out)"
    and "\<forall>s\<in>set srcs. IsAbs (ss_HostPath s)"
    and "reads_keep snaps cli"
  shows "\<exists>full \<in> snaps w' - snaps w. \<forall>y v.
    full \<in> snaps v \<and>
    (\<forall>list v'. ContainerList cli y False [(''label'', LabelKey)] v = (Inr list, v') \<longrightarrow>
       (\<exists>c\<in>set list. \<forall>u insp u'. ContainerInspect cli y (cs_ID c) u = (Inr insp, u') \<longrightarrow> sm_HostPath m \<in> mp_Source ` set (cj_Mounts insp)))
    \<longrightarrow> full \<in> snaps (snd (ReapSnapshotter rt oc y v))"
proof -
  obtain full where full: "full \<in> snaps w' - snaps w" "snap_of full = snapshotNameFromPath (sm_HostPath m)" "snap_of full \<noteq> []"
    using listed_snapshot_planned[OF assms(2-5)] assms(6,7) by blast
  have "full \<in> snaps (snd (ReapSnapshotter rt oc y v))"
    if v: "full \<in> snaps v" and l: "\<forall>list v'. ContainerList cli y False [(''label'', LabelKey)] v = (Inr list, v') \<longrightarrow>
       (\<exists>c\<in>set list. \<forall>u insp u'. ContainerInspect cli y (cs_ID c) u = (Inr insp, u') \<longrightarrow> sm_HostPath m \<in> mp_Source ` set (cj_Mounts insp))"
    for y v
  proof (cases "conf_Snapshot (o_cfg oc) = [] \<or> conf_Snapshot (o_cfg oc) = ''none''")
    case True with v show ?thesis by (simp add: ReapSnapshotter_def)
  next
    case False
    obtain b v1 where b: "docker_RunningMoverBinds cli y v = (b, v1)" by fastforce
    note v1 = RunningMoverBinds_keeps[OF assms(8) b]
    show ?thesis
    proof (cases b)
      case (Inl e) with False b v v1 show ?thesis by (simp add: ReapSnapshotter_def rt_def docker_runtime_def)
    next
      case (Inr ps)
      with b obtain list v0 where "ContainerList cli y False [(''label'', LabelKey)] v = (Inr list, v0)"
        and bb: "bind_sources cli y list [] v0 = (Inr ps, v1)" by (auto simp: docker_RunningMoverBinds_def split: sum.splits prod.splits)
      with l obtain c where c: "c \<in> set list"
        "\<forall>u insp u'. ContainerInspect cli y (cs_ID c) u = (Inr insp, u') \<longrightarrow> sm_HostPath m \<in> mp_Source ` set (cj_Mounts insp)" by blast
      from bind_sources_collects(2)[OF bb c] have "snap_of full \<in> set (in_use ps)" using full(2,3) by (force simp: in_use_def)
      with full(3) v v1 have "full \<in> snaps (snd (zfs_Reap z y ps v1))" using zfs_Reap_spares[OF assms(2)] by metis
      moreover have "snd (ReapSnapshotter rt oc y v) = snd (zfs_Reap z y ps v1)" using False b Inr
        by (auto simp: ReapSnapshotter_def rt_def docker_runtime_def zfs_snapshotter_def split: prod.splits option.splits)
      ultimately show ?thesis by simp
    qed
  qed
  with full(1) show ?thesis by blast
qed
section \<open>Witnesses\<close>

text \<open>A host whose world is its list of snapshots, with one running mover that reads a snapshot.\<close>

definition live_mover :: container_json where
  "live_mover = \<lparr>cj_ID = ''m1'', cj_Image = [], cj_Config = None, cj_Running = Some True, cj_ExitCode = 0, cj_StartedAt = [],
     cj_FinishedAt = [], cj_Mounts = [\<lparr>mp_Type = TypeBind, mp_Name = [],
       mp_Source = ''/tank/.zfs/snapshot/sabon-default-app-7/web'', mp_Destination = ''/data/web''\<rparr>]\<rparr>"

definition mem_docker :: "string list docker_client" where
  "mem_docker = \<lparr>
     ContainerCreate = (\<lambda>x g h n w. (Inr ''c1'', w)), ContainerStart = (\<lambda>x i w. (None, w)),
     ContainerStop = (\<lambda>x i w. (None, w)), ContainerWait = (\<lambda>x i w. (WaitStatus 0 None, w)),
     ContainerLogs = (\<lambda>x i w. (Inr \<lparr>log_frames = [], log_err = None\<rparr>, w)),
     ContainerRemove = (\<lambda>x i w. (None, w)), ContainerList = (\<lambda>x a f w. (Inr [demo_run ''m1'' ''running'' 0], w)),
     ContainerInspect = (\<lambda>x i w. (Inr live_mover, w)),
     ContainerExecCreate = (\<lambda>x i c e u w. (Inr ''e1'', w)),
     ContainerExecAttach = (\<lambda>x i w. (Inr \<lparr>log_frames = [], log_err = None\<rparr>, w)),
     ContainerExecInspect = (\<lambda>x i w. (Inr 0, w)), ImageInspect = (\<lambda>x i w. (None, w)), ImagePull = (\<lambda>x i w. (None, w)),
     VolumeCreate = (\<lambda>x i w. (None, w)),
     VolumeInspect = (\<lambda>x i w. (Inr \<lparr>vol_Driver = ''local'', vol_Mountpoint = ''/tank/db/data'', vol_Options = []\<rparr>, w)),
     ContextErr = (\<lambda>x w. (None, w))\<rparr>"

definition mem_rt :: "string list runtime" where
  "mem_rt = docker_runtime demo_codec id id mem_docker (\<lambda>x w. (None, w)) (\<lambda>w. 7) (map zfs_snapshotter [mem_zfs])"

lemma logs_keeps: "snd (logs mem_docker x i w) = w"
  by (simp add: logs_def mem_docker_def)

lemma mem_keeps: "keeps set mem_rt"
proof -
  have i: "snd (ensureImage f mem_docker x r w) = w" for f x r w by (simp add: ensureImage_def mem_docker_def)
  have rc: "snd (run_created demo_codec mem_docker x req c w) = w" for x req c w
    using logs_keeps[of x c w] by (auto simp: run_created_def Let_def mem_docker_def logs_def split: prod.splits)
  have hc: "snd (hook_created mem_docker x sp c w) = w" for x sp c w
    by (simp add: hook_created_def mem_docker_def)
  have "snd (Run demo_codec mem_docker x req w) = w" for x req w
    using i[of _ x "req_Image req" w] rc[of x req "''c1''" w]
    by (auto simp: Run_def demo_codec_def MarshalSpec_def mem_docker_def ensureImage_def split: prod.splits)
  moreover have "snd (docker_RunOneShot mem_docker x sp w) = w" for x sp w
    using hc[of x sp "''c1''" w]
    by (auto simp: docker_RunOneShot_def mem_docker_def ensureImage_def split: sum.splits prod.splits)
  moreover have "snd (docker_Exec mem_docker x c cmd en u w) = w" for x c cmd en u w
    by (simp add: docker_Exec_def mem_docker_def)
  ultimately show ?thesis
    by (auto simp: keeps_def mem_rt_def docker_runtime_def docker_AppEnv_def docker_AppProject_def docker_Stop_def docker_Start_def
        docker_EnsureCache_def docker_VolumeHostPath_def mem_docker_def live_mover_def split: prod.splits)
qed
definition mem_job :: job where
  "mem_job = demo_job\<lparr>job_Spec := empty_spec\<lparr>spec_Snapshot := ''auto''\<rparr>,
     job_Sources := [\<lparr>src_Name = ''db'', src_Type = TypeVolume, src_Ref = ''vol''\<rparr>,
                     \<lparr>src_Name = ''conf'', src_Type = TypeBind, src_Ref = ''/etc/shop''\<rparr>]\<rparr>"

lemma mem_mounts:
  "map_sum id fst (fst (sourceMountsFor mem_rt demo_oc Caller mem_job [])) =
     Inr [\<lparr>mnt_Type = TypeBind, mnt_Source = ''/tank/db/.zfs/snapshot/sabon-default-shop-7/data'', mnt_Target = ''/data/db'', mnt_ReadOnly = True\<rparr>,
          \<lparr>mnt_Type = TypeBind, mnt_Source = ''/etc/shop'', mnt_Target = ''/data/conf'', mnt_ReadOnly = True\<rparr>]"
  by code_simp

theorem sources_mounted_once_witness:
  "\<exists>ms cl w'. sourceMountsFor mem_rt demo_oc Caller mem_job [] = (Inr (ms, cl), w') \<and>
     mset (map mnt_Target ms) = mset (ms_Sources (moverSpec mem_job demo_target)) \<and> length ms = 2"
proof -
  obtain r w' where r: "sourceMountsFor mem_rt demo_oc Caller mem_job [] = (r, w')" by fastforce
  with mem_mounts obtain ms cl where ms: "r = Inr (ms, cl)" "length ms = 2" by (cases r) auto
  have "distinct (map src_Name (job_Sources mem_job))" by (simp add: mem_job_def)
  from sources_mounted_once[OF r[unfolded ms mem_rt_def] this] r ms show ?thesis by blast
qed


definition mem_oc :: orch where
  "mem_oc = demo_oc\<lparr>o_cfg := (o_cfg demo_oc)\<lparr>conf_Snapshot := ''auto''\<rparr>\<rparr>"

theorem startup_reap_spares_live_witness:
  "\<exists>full \<in> set [''tank/db@sabon-default-app-7'', ''tank@sabon-default-app-7'']. \<forall>y.
     full \<in> set (snd (ReapSnapshotter (docker_runtime demo_codec id id mem_docker (\<lambda>x w. (None, w)) (\<lambda>w. 7) [zfs_snapshotter mem_zfs])
       mem_oc y [''tank/db@sabon-default-app-7'', ''tank@sabon-default-app-7'']))"
proof -
  let ?m = "\<lparr>sm_Name = ''web'', sm_HostPath = ''/tank/.zfs/snapshot/sabon-default-app-7/web''\<rparr>"
  let ?S = "zfs_Snapshot mem_zfs Caller ''app'' mem_sources []"
  obtain ms cl w' where S: "?S = (Inr (ms, cl), w')" and m: "?m \<in> set ms" and w': "w' = [''tank/db@sabon-default-app-7'', ''tank@sabon-default-app-7'']"
    using mem_snapshot by (cases ?S; cases "fst ?S") auto
  have l: "z_run mem_zfs Caller list_filesystems [] = (Inr out, u) \<Longrightarrow> out = mem_listing" for out u
    by (simp add: mem_zfs_def list_filesystems_def list_snapshots_def)
  have "listing_ok (parseDatasets mem_listing)" unfolding mem_parse by code_simp
  with l have ok: "\<forall>out u. z_run mem_zfs Caller list_filesystems [] = (Inr out, u) \<longrightarrow> listing_ok (parseDatasets out)" by blast
  have "list_all (\<lambda>s. IsAbs (ss_HostPath s)) mem_sources" by code_simp
  then have a: "\<forall>s\<in>set mem_sources. IsAbs (ss_HostPath s)" by (simp only: list_all_iff)
  have k: "reads_keep set mem_docker" by (simp add: reads_keep_def mem_docker_def)
  have c: "\<forall>list v'. ContainerList mem_docker y False [(''label'', LabelKey)] v = (Inr list, v') \<longrightarrow>
       (\<exists>c\<in>set list. \<forall>u insp u'. ContainerInspect mem_docker y (cs_ID c) u = (Inr insp, u') \<longrightarrow> sm_HostPath ?m \<in> mp_Source ` set (cj_Mounts insp))" for y v
    by (auto simp: mem_docker_def live_mover_def)
  from startup_reap_spares_live[OF mem_zfs_host mem_zfs_destroys(2) S m ok a k, of demo_codec id id "\<lambda>x w. (None, w)" "\<lambda>w. 7" mem_oc] c
  show ?thesis unfolding w' by fastforce
qed

end
