(* ===== verification/Run_Paths.thy ===== *)
theory Run_Paths
  imports Concurrency Standalone
begin

text \<open>
  The machine of \<open>Concurrency\<close> against the code of the orchestrator: a whole backup or restore, run by \<open>RunTarget\<close> or \<open>RunRestore\<close> on a runtime
  that only stops and starts apps where it is asked to, is a path of the machine, and its mover runs in the bracket of that path. The
  standalone runtime is such a runtime when the Docker daemon keeps its promises.
\<close>

section \<open>What the machine sees of a run\<close>

text \<open>
  The machine's world is which apps are up. A view \<open>up\<close> extracts it from the world of a runtime; the shared state is the
  orchestrator's own. The flag of the cache is not part of the machine.
\<close>

definition apps_of :: "('w \<Rightarrow> apps) \<Rightarrow> 'w ostate \<Rightarrow> apps ostate" where
  "apps_of up st = \<lparr>os_world = up (os_world st), os_cacheOK = False, os_refs = os_refs st, os_locks = os_locks st, os_slots = os_slots st\<rparr>"

definition backup_task :: "job \<Rightarrow> target \<Rightarrow> task" where
  "backup_task j t = \<lparr>tk_key = tgt_Name t @ ''|'' @ job_App j, tk_container = job_Container j, tk_stop = spec_Stop (job_Spec j), tk_restore = False\<rparr>"

definition restore_task :: "string \<Rightarrow> job option \<Rightarrow> target \<Rightarrow> restore_options \<Rightarrow> task" where
  "restore_task app jp t opts =
     \<lparr>tk_key = tgt_Name t @ ''|'' @ app, tk_container = (case jp of Some j \<Rightarrow> job_Container j | None \<Rightarrow> []),
      tk_stop = (ro_Into opts = [] \<and> jp \<noteq> None \<and> ro_Stop opts), tk_restore = True\<rparr>"

text \<open>
  Only the stop and the start of a run (phases 3 and 8) change which apps are up. A stop that succeeds takes the app down and one that fails
  changes nothing; after a start the app is up.
\<close>

definition quiet :: "('w \<Rightarrow> apps) \<Rightarrow> nat \<Rightarrow> nat \<Rightarrow> 'w \<Rightarrow> 'w \<Rightarrow> bool" where
  "quiet up a b u v \<longleftrightarrow> (b < 3 \<or> 3 < a \<and> b < 8 \<longrightarrow> up v = up u)"

definition calm :: "('w \<Rightarrow> apps) \<Rightarrow> 'w runtime \<Rightarrow> bool" where
  "calm up rt \<longleftrightarrow>
     (\<forall>x req w. up (snd (rt_RunMover rt x req w)) = up w) \<and> (\<forall>x sp w. up (snd (rt_RunOneShot rt x sp w)) = up w) \<and>
     (\<forall>x c w. up (snd (rt_AppEnv rt x c w)) = up w) \<and> (\<forall>x c w. up (snd (rt_AppProject rt x c w)) = up w) \<and>
     (\<forall>ex x c cmd en u w. rt_Exec rt = Some ex \<longrightarrow> up (snd (ex x c cmd en u w)) = up w) \<and>
     (\<forall>x n w. up (snd (rt_EnsureCache rt x n w)) = up w) \<and> (\<forall>x n w. up (snd (rt_VolumeHostPath rt x n w)) = up w) \<and>
     (\<forall>x w. up (snd (rt_slot rt x w)) = up w) \<and>
     (\<forall>s\<in>set (rt_snaps rt). (\<forall>x srcs w. up (snd (sn_Resolve s x srcs w)) = up w) \<and> (\<forall>x app srcs w. up (snd (sn_Snapshot s x app srcs w)) = up w) \<and>
        (\<forall>x app srcs w ms cl w' y u. sn_Snapshot s x app srcs w = (Inr (ms, cl), w') \<longrightarrow> up (cl y u) = up u))"

lemma calmD:
  assumes "calm up rt"
  shows "rt_RunMover rt x req w = (r1, w') \<Longrightarrow> up w' = up w" "rt_RunOneShot rt x sp w = (r2, w') \<Longrightarrow> up w' = up w"
    "rt_AppEnv rt x c w = (r3, w') \<Longrightarrow> up w' = up w" "rt_AppProject rt x c w = (r4, w') \<Longrightarrow> up w' = up w"
    "rt_Exec rt = Some ex \<Longrightarrow> ex x c cmd en us w = (r2, w') \<Longrightarrow> up w' = up w"
    "rt_EnsureCache rt x c w = (r2, w') \<Longrightarrow> up w' = up w" "rt_VolumeHostPath rt x c w = (r5, w') \<Longrightarrow> up w' = up w"
    "rt_slot rt x w = (r2, w') \<Longrightarrow> up w' = up w"
    "s \<in> set (rt_snaps rt) \<Longrightarrow> sn_Resolve s x srcs w = (r6, w') \<Longrightarrow> up w' = up w"
    "s \<in> set (rt_snaps rt) \<Longrightarrow> sn_Snapshot s x app srcs w = (r7, w') \<Longrightarrow> up w' = up w"
    "s \<in> set (rt_snaps rt) \<Longrightarrow> sn_Snapshot s x app srcs w = (Inr (ms, cl), w') \<Longrightarrow> up (cl y v) = up v"
  using assms unfolding calm_def by (metis snd_conv)+

lemma calm_phased:
  assumes "calm up rt" shows "phased_run rt oc j t (quiet up) (\<lambda>_. True)"
proof -
  have h: "runOneHook rt oc x j h ph i w = (r, w') \<Longrightarrow> up w' = up w" for x h ph i w r w'
    by (rule runOneHook_same[OF calmD(2,3,4,5)[OF assms]])
  show ?thesis by unfold_locales (use calmD[OF assms] h in \<open>auto simp: quiet_def\<close>)
qed

definition switches :: "'w runtime \<Rightarrow> ('w \<Rightarrow> apps) \<Rightarrow> string \<Rightarrow> bool" where
  "switches rt up c \<longleftrightarrow>
     (\<forall>x w. up (snd (rt_Stop rt x c w)) = (if fst (rt_Stop rt x c w) = None then (up w)(c := False) else up w)) \<and>
     (\<forall>x w. up (snd (rt_Start rt x c w)) = (up w)(c := True))"

lemma switchesD:
  assumes "switches rt up c"
  shows "rt_Stop rt x c w = (None, w') \<Longrightarrow> up w' = (up w)(c := False)" "rt_Stop rt x c w = (Some e, w') \<Longrightarrow> up w' = up w"
    "up (snd (rt_Start rt x c w)) = (up w)(c := True)"
proof -
  have "up (snd (rt_Stop rt x c w)) = (if fst (rt_Stop rt x c w) = None then (up w)(c := False) else up w)"
    using assms unfolding switches_def by blast
  then show "rt_Stop rt x c w = (None, w') \<Longrightarrow> up w' = (up w)(c := False)" "rt_Stop rt x c w = (Some e, w') \<Longrightarrow> up w' = up w"
    by simp_all
  show "up (snd (rt_Start rt x c w)) = (up w)(c := True)" using assms unfolding switches_def by blast
qed

text \<open>A state of the machine with task \<open>i\<close> elsewhere.\<close>

definition moved :: "sys \<Rightarrow> nat \<Rightarrow> apps ostate \<Rightarrow> pc \<Rightarrow> sys" where
  "moved s i st p = \<lparr>sy_st = st, sy_pc = (sy_pc s)(i := p)\<rparr>"

lemma moved_simps [simp]: "sy_st (moved s i st p) = st" "sy_pc (moved s i st p) = (sy_pc s)(i := p)"
  "moved (moved s i st p) i st' p' = moved s i st' p'"
  by (simp_all add: moved_def)

lemmas step_moved = step.intros[folded moved_def]

lemma apps_of_eqI:
  "up (os_world a) = up (os_world b) \<Longrightarrow> shared a = shared b \<Longrightarrow> apps_of up a = apps_of up b"
  by (simp add: apps_of_def shared_def)

lemma apps_of_lock:
  assumes "os_locks st2 = k # os_locks st" "os_slots st2 = (if conf_MaxParallel (o_cfg oc) \<le> 0 then os_slots st else os_slots st + 1)"
    and "os_refs st2 = os_refs st" "up (os_world st2) = up (os_world st)"
  shows "taken_slot oc (lock k (apps_of up st)) = apps_of up st2"
  using assms by (simp add: apps_of_def taken_slot_def lock_def)

lemma leave_apps_of:
  assumes "os_locks st2 = k # os_locks st" "os_slots st2 = (if conf_MaxParallel (o_cfg oc) \<le> 0 then os_slots st else os_slots st + 1)"
    and "os_refs st2 = os_refs st" "shared st' = shared st" "up (os_world st') = os_world q" "os_locks q = os_locks st2"
    and "os_slots q = os_slots st2" "os_refs q = os_refs st2" "\<not> os_cacheOK q"
  shows "leave oc k q = apps_of up st'"
  using assms by (simp add: leave_def unlock_def release_def apps_of_def shared_def)

lemma held_view:
  fixes A :: "apps ostate"
  shows "\<exists>q. cold_hold c (ocall (stop_app c)) A = (None, q) \<and> os_world q = (if os_refs A c = 0 then (os_world A)(c := False) else os_world A) \<and>
    cold_release c (\<lambda>st. snd (ocall (start_app c) st)) q = A\<lparr>os_world := (if os_refs A c = 0 then (os_world A)(c := True) else os_world A)\<rparr>"
  by (cases A) (auto simp: cold_hold_def cold_release_def ocall_def stop_app_def start_app_def Let_def fun_upd_idem)

text \<open>From its slot, a task enters the bracket, runs the mover there and is gone.\<close>

definition bracketed ::
  "'w runtime \<Rightarrow> orch \<Rightarrow> ctx \<Rightarrow> job \<Rightarrow> target \<Rightarrow> string list \<Rightarrow> ('w \<Rightarrow> apps) \<Rightarrow> task list \<Rightarrow> nat \<Rightarrow> mover_result \<times> error option \<Rightarrow> sys \<Rightarrow> sys \<Rightarrow> bool" where
  "bracketed rt oc y j t renv up ts i r s s' \<longleftrightarrow> (\<exists>sq w1 w2. step oc ts s sq \<and> sy_pc sq i = Quiesced \<and>
     run_mover_phase rt oc y j t renv w1 = (r, w2) \<and> up w1 = os_world (sy_st sq) \<and> up w2 = os_world (sy_st sq) \<and> step oc ts sq s')"

lemma hot_bracket:
  assumes "i < length ts" "\<not> tk_restore (ts ! i)" "\<not> tk_stop (ts ! i)" "run_mover_phase rt oc y j t renv w1 = (r, w2)" "up w2 = up w1" "os_world A = up w1"
  shows "bracketed rt oc y j t renv up ts i r (moved s i A HasSlot) (moved s i (leave oc (tk_key (ts ! i)) A) Gone)"
proof -
  let ?sq = "moved s i A Quiesced"
  have "step oc ts (moved s i A HasSlot) ?sq" using step_moved(6)[OF assms(1), where oc = oc and s = "moved s i A HasSlot"] assms(3) by simp
  moreover have "step oc ts ?sq (moved s i (leave oc (tk_key (ts ! i)) A) Gone)"
    using step_moved(7)[OF assms(1), where oc = oc and s = ?sq] assms(2,3) by simp
  ultimately show ?thesis unfolding bracketed_def using assms(4-6) by (intro exI[of _ ?sq] exI[of _ w1] exI[of _ w2]) simp
qed

lemma cold_bracket:
  assumes "i < length ts" "\<not> tk_restore (ts ! i)" "tk_stop (ts ! i)" "run_mover_phase rt oc y j t renv w1 = (r, w2)" "up w2 = up w1"
    and "up w1 = (if os_refs A (tk_container (ts ! i)) = 0 then (os_world A)(tk_container (ts ! i) := False) else os_world A)"
  shows "bracketed rt oc y j t renv up ts i r (moved s i A HasSlot) (moved s i (leave oc (tk_key (ts ! i))
    (A\<lparr>os_world := (if os_refs A (tk_container (ts ! i)) = 0 then (os_world A)(tk_container (ts ! i) := True) else os_world A)\<rparr>)) Gone)"
proof -
  let ?c = "tk_container (ts ! i)"
  obtain q where q: "cold_hold ?c (ocall (stop_app ?c)) A = (None, q)" "os_world q = (if os_refs A ?c = 0 then (os_world A)(?c := False) else os_world A)"
    "cold_release ?c (\<lambda>st. snd (ocall (start_app ?c) st)) q =
      A\<lparr>os_world := (if os_refs A ?c = 0 then (os_world A)(?c := True) else os_world A)\<rparr>" using held_view by blast
  let ?sq = "moved s i q Quiesced"
  have "step oc ts (moved s i A HasSlot) ?sq"
    using step_moved(5)[OF assms(1), where oc = oc and s = "moved s i A HasSlot" and st' = q] assms(3) q(1) by simp
  moreover have "step oc ts ?sq (moved s i (leave oc (tk_key (ts ! i))
      (A\<lparr>os_world := (if os_refs A ?c = 0 then (os_world A)(?c := True) else os_world A)\<rparr>)) Gone)"
    using step_moved(7)[OF assms(1), where oc = oc and s = ?sq] assms(2,3) q(3) by simp
  ultimately show ?thesis unfolding bracketed_def using assms(4-6) q(2) by (intro exI[of _ ?sq] exI[of _ w1] exI[of _ w2]) simp
qed

lemma quiesced_is_path:
  assumes sw: "switches rt up (job_Container j)" and mid: "\<And>a b r'. run_mover_phase rt oc y j t renv a = (r', b) \<Longrightarrow> up b = up a"
    and i: "i < length ts" "ts ! i = backup_task j t" and run: "run_quiesced rt oc y j t renv st2 = (r, st3)"
    and ret: "leave oc (tk_key (ts ! i)) ((apps_of up st2)\<lparr>os_world := up (os_world st3)\<rparr>) = A'"
  shows "(snd r \<noteq> None \<and> step oc ts (moved s i (apps_of up st2) HasSlot) (moved s i A' Gone)) \<or>
    bracketed rt oc y j t renv up ts i r (moved s i (apps_of up st2) HasSlot) (moved s i A' Gone)"
proof -
  let ?A = "apps_of up st2" and ?c = "job_Container j"
  have A: "os_world ?A = up (os_world st2)" "os_refs ?A = os_refs st2" "?A\<lparr>os_world := up (os_world st2)\<rparr> = ?A" by (simp_all add: apps_of_def)
  have tk: "tk_container (ts ! i) = ?c" "tk_stop (ts ! i) = spec_Stop (job_Spec j)" "\<not> tk_restore (ts ! i)" using i(2) by (simp_all add: backup_task_def)
  show ?thesis
  proof (cases "spec_Stop (job_Spec j) \<and> os_refs st2 ?c = 0")
    case False
    then have m: "run_mover_phase rt oc y j t renv (os_world st2) = (r, os_world st3)" using run_quiesced_shares[OF run] by auto
    from hot_bracket[OF i(1) tk(3) _ m mid[OF m], of ?A s] cold_bracket[OF i(1) tk(3) _ m mid[OF m], of ?A s] False ret mid[OF m]
    show ?thesis by (cases "spec_Stop (job_Spec j)") (simp_all add: A tk(1,2))
  next
    case True
    from run True[THEN conjunct1] True[THEN conjunct2] show ?thesis
    proof (cases rule: run_quiesced_stops)
      case (failed e)
      have "leave oc (tk_key (ts ! i)) ?A = A'" using ret switchesD(2)[OF sw failed(1)] A(3) by simp
      then have "step oc ts (moved s i ?A HasSlot) (moved s i A' Gone)"
        using step_moved(4)[OF i(1), where oc = oc and s = "moved s i ?A HasSlot"] by simp
      with failed(2) show ?thesis by simp
    next
      case (stopped w1 w2)
      note w = switchesD(1)[OF sw stopped(1)] mid[OF stopped(2)]
      have "up (os_world st3) = (up (os_world st2))(?c := True)"
        using stopped(3) switchesD(3)[OF sw, of "WithoutCancel y" w2] w by simp
      with cold_bracket[OF i(1) tk(3) _ stopped(2) w(2), of ?A s] True tk(1,2) A(1,2) w(1) ret show ?thesis by (simp add: fun_upd_def)
    qed
  qed
qed


section \<open>Restores\<close>

lemma RunRestore_stages:
  assumes "RunRestore rt oc x app jp t opts st = (e, st')"
  obtains (early) f st1 where "e \<noteq> None" "os_world st' = os_world st \<or> ensureCache rt oc x (lock (tgt_Name t @ ''|'' @ app) st) = (f, st1) \<and> os_world st' = os_world st1"
  | (body) renv st1 where "ensureCache rt oc x (lock (tgt_Name t @ ''|'' @ app) st) = (None, st1)"
      "restore_body rt oc x app jp t opts renv (os_world st1) = (e, os_world st')"
proof (cases "resticEnv oc t app")
  case (Inl f)
  with assms show thesis by (intro early) (auto simp: RunRestore_def Let_def unlock_def lock_def)
next
  case (Inr renv)
  let ?k = "tgt_Name t @ ''|'' @ app"
  obtain f st1 where c: "ensureCache rt oc x (lock ?k st) = (f, st1)" by fastforce
  show thesis
  proof (cases f)
    case (Some g)
    with assms Inr c show thesis by (intro early[of f st1]) (auto simp: RunRestore_def Let_def unlock_def)
  next
    case None
    with assms Inr c show thesis
      by (intro body[of st1 renv]) (auto simp: RunRestore_def Let_def unlock_def ocall_def split: prod.splits)
  qed
qed

text \<open>The body of a restore: refused or not stopped, or one mover, between a stop and a start where it asks for them.\<close>

lemma restore_body_cases:
  assumes "restore_body rt oc x app jp t opts renv w = (e, w')"
  obtains (failed) "e \<noteq> None" "w' = w \<or> (\<exists>c f. tk_stop (restore_task app jp t opts) \<and> c = tk_container (restore_task app jp t opts) \<and> rt_Stop rt x c w = (Some f, w'))"
  | (plain) "\<not> tk_stop (restore_task app jp t opts)" "restore_mover rt oc x app jp t opts renv w = (e, w')"
  | (stopped) c w1 w2 where "tk_stop (restore_task app jp t opts)" "c = tk_container (restore_task app jp t opts)"
      "rt_Stop rt x c w = (None, w1)" "restore_mover rt oc x app jp t opts renv w1 = (e, w2)" "w' = snd (rt_Start rt (WithoutCancel x) c w2)"
proof (cases "tk_stop (restore_task app jp t opts)")
  case False
  with assms plain failed show thesis by (auto simp: restore_body_def restore_task_def split: if_splits option.splits)
next
  case True
  then obtain j where j: "jp = Some j" "ro_Into opts = []" "ro_Stop opts" by (auto simp: restore_task_def)
  obtain f w1 where s: "rt_Stop rt x (job_Container j) w = (f, w1)" by fastforce
  obtain e2 w2 where m: "restore_mover rt oc x app jp t opts renv w1 = (e2, w2)" by fastforce
  have c: "job_Container j = tk_container (restore_task app jp t opts)" using j(1) by (simp add: restore_task_def)
  show thesis
  proof (cases f)
    case (Some g)
    with assms j s have "e = Some g" "w' = w1" by (simp_all add: restore_body_def)
    with failed True c s Some show thesis by blast
  next
    case None
    with assms j s m have "e = e2" "w' = snd (rt_Start rt (WithoutCancel x) (job_Container j) w2)" by (simp_all add: restore_body_def)
    with stopped[OF True c] s m None show thesis by blast
  qed
qed

lemma restore_bracket:
  assumes "i < length ts" "tk_restore (ts ! i)" "up w2 = up w1" "restore_mover rt oc x app jp t opts renv w1 = (e, w2)"
    and "up w1 = (if tk_stop (ts ! i) then (os_world A)(tk_container (ts ! i) := False) else os_world A)"
  shows "\<exists>sq w1 w2. step oc ts (moved s i A HasLock) sq \<and> sy_pc sq i = Quiesced \<and> restore_mover rt oc x app jp t opts renv w1 = (e, w2) \<and>
    up w1 = os_world (sy_st sq) \<and> up w2 = os_world (sy_st sq) \<and>
    step oc ts sq (moved s i (unlock (tk_key (ts ! i))
      (if tk_stop (ts ! i) then A\<lparr>os_world := (os_world A)(tk_container (ts ! i) := True)\<rparr> else A)) Gone)"
proof -
  let ?c = "tk_container (ts ! i)"
  let ?q = "if tk_stop (ts ! i) then A\<lparr>os_world := (os_world A)(?c := False)\<rparr> else A"
  let ?sq = "moved s i ?q Quiesced"
  have "step oc ts (moved s i A HasLock) ?sq"
    using step_moved(8)[OF assms(1), where oc = oc and s = "moved s i A HasLock"] assms(2) by (simp add: ocall_def stop_app_def cong: if_cong)
  moreover have "step oc ts ?sq (moved s i (unlock (tk_key (ts ! i))
      (if tk_stop (ts ! i) then A\<lparr>os_world := (os_world A)(?c := True)\<rparr> else A)) Gone)"
    using step_moved(9)[OF assms(1), where oc = oc and s = ?sq] assms(2) by (simp add: ocall_def start_app_def cong: if_cong)
  ultimately show ?thesis using assms(3-5) by (intro exI[of _ ?sq] exI[of _ w1] exI[of _ w2]) simp
qed

text \<open>
  A restore that finds its repository free is a path of the machine as well: it is refused or its stop fails, or its one mover runs in the bracket,
  with the apps as the machine has them there. It takes no slot and does not touch the counts.
\<close>

theorem restore_is_machine_path:
  assumes calm: "calm up rt" and sw: "tk_stop (restore_task app jp t opts) \<Longrightarrow> switches rt up (tk_container (restore_task app jp t opts))"
    and i: "i < length ts" "ts ! i = restore_task app jp t opts" "sy_pc s i = Waiting" "sy_st s = apps_of up st"
    and free: "tgt_Name t @ ''|'' @ app \<notin> set (os_locks st)" and run: "RunRestore rt oc x app jp t opts st = (e, st')"
  shows "(e \<noteq> None \<and> (step oc ts)\<^sup>*\<^sup>* s (moved s i (apps_of up st') Gone)) \<or>
    (\<exists>s1 sq renv w1 w2. step oc ts s s1 \<and> step oc ts s1 sq \<and> sy_pc sq i = Quiesced \<and> restore_mover rt oc x app jp t opts renv w1 = (e, w2) \<and>
       up w1 = os_world (sy_st sq) \<and> up w2 = os_world (sy_st sq) \<and> step oc ts sq (moved s i (apps_of up st') Gone))"
proof -
  let ?k = "tgt_Name t @ ''|'' @ app" and ?c = "tk_container (restore_task app jp t opts)"
  let ?A = "lock ?k (apps_of up st)"
  have tk: "tk_key (ts ! i) = ?k" "tk_restore (ts ! i)" using i(2) by (simp_all add: restore_task_def)
  have sh: "shared st' = shared st" using shared_RunRestore[of rt oc x app jp t opts st] run by simp
  have lk: "step oc ts s (moved s i ?A HasLock)" using step_moved(1)[OF i(1,3), where oc = oc] tk(1) free i(4) by (simp add: apps_of_def)
  have cache: "up (os_world st1) = up (os_world st)" if "ensureCache rt oc x (lock ?k st) = (f, st1)" for f st1
    using that calmD(6)[OF calm] by (auto simp: ensureCache_def ocall_def lock_def split: if_splits prod.splits option.splits)
  have gone: "(step oc ts)\<^sup>*\<^sup>* s (moved s i (apps_of up st') Gone)" if "up (os_world st') = up (os_world st)"
    using lk step_moved(3)[OF i(1), where oc = oc and s = "moved s i ?A HasLock"] apps_of_eqI[OF that sh] tk(1)
    by (simp add: unlock_def lock_def)
  have mover: "up b = up a" if "restore_mover rt oc x app jp t opts renv a = (r, b)" for a b r renv
    using that calmD(1)[OF calm] by (auto simp: restore_mover_def split: prod.splits)
  have ret: "unlock ?k (?A\<lparr>os_world := up (os_world st')\<rparr>) = apps_of up st'" "os_world ?A = up (os_world st)" "?A\<lparr>os_world := up (os_world st)\<rparr> = ?A"
    using sh by (simp_all add: apps_of_def unlock_def lock_def shared_def)
  from run show ?thesis
  proof (cases rule: RunRestore_stages)
    case (early f st1) with cache gone show ?thesis by metis
  next
    case (body renv st1)
    note w = cache[OF body(1)]
    note bracket = restore_bracket[where up = up and s = s, OF i(1) tk(2) mover]
    let ?path = "\<exists>sq w1 w2. step oc ts (moved s i ?A HasLock) sq \<and> sy_pc sq i = Quiesced \<and> restore_mover rt oc x app jp t opts renv w1 = (e, w2) \<and>
      up w1 = os_world (sy_st sq) \<and> up w2 = os_world (sy_st sq) \<and> step oc ts sq (moved s i (apps_of up st') Gone)"
    have "e \<noteq> None \<and> up (os_world st') = up (os_world st) \<or> ?path"
      using body(2)
    proof (cases rule: restore_body_cases)
      case failed then show ?thesis using w switchesD(2)[OF sw] by auto
    next
      case plain
      then have "unlock ?k ?A = apps_of up st'" using ret(1,3) mover[OF plain(2)] w by simp
      with bracket[OF plain(2) plain(2), of ?A] plain(1) i(2) w ret(2) tk(1) have ?path by simp
      then show ?thesis by blast
    next
      case (stopped c w1 w2)
      have u: "up w1 = (up (os_world st))(c := False)" "up (os_world st') = (up (os_world st))(c := True)"
        using switchesD[OF sw[OF stopped(1)]] stopped(2,3,5) mover[OF stopped(4)] w by simp_all
      have "unlock ?k (?A\<lparr>os_world := (os_world ?A)(c := True)\<rparr>) = apps_of up st'" unfolding ret(2) using ret(1) u(2) by simp
      with bracket[OF stopped(4) stopped(4), of ?A] stopped(1,2) i(2) u(1) ret(2) tk(1) have ?path by simp
      then show ?thesis by blast
    qed
    with lk gone show ?thesis by blast
  qed
qed

section \<open>The standalone runtime\<close>

text \<open>
  What the Docker daemon promises of the app containers \<open>A\<close>: a new container is none of them, a start brings up the container it names, a
  stop that succeeds takes it down, removing another container and every other call leave them as they are.
\<close>

definition docker_apps :: "'w docker_client \<Rightarrow> ('w \<Rightarrow> apps) \<Rightarrow> string set \<Rightarrow> bool" where
  "docker_apps cli up A \<longleftrightarrow>
     (\<forall>x g h n w r w'. ContainerCreate cli x g h n w = (r, w') \<longrightarrow> up w' = up w \<and> (\<forall>i. r = Inr i \<longrightarrow> i \<notin> A)) \<and>
     (\<forall>x i w. up (snd (ContainerStart cli x i w)) = (if i \<in> A then (up w)(i := True) else up w)) \<and>
     (\<forall>x i w. up (snd (ContainerStop cli x i w)) = (if i \<in> A \<and> fst (ContainerStop cli x i w) = None then (up w)(i := False) else up w)) \<and>
     (\<forall>x i w. i \<notin> A \<longrightarrow> up (snd (ContainerRemove cli x i w)) = up w) \<and>
     (\<forall>x i w. up (snd (ContainerWait cli x i w)) = up w) \<and> (\<forall>x i w. up (snd (ContainerLogs cli x i w)) = up w) \<and>
     (\<forall>x i w. up (snd (ContainerInspect cli x i w)) = up w) \<and>
     (\<forall>x c cmd en u w. up (snd (ContainerExecCreate cli x c cmd en u w)) = up w) \<and>
     (\<forall>x i w. up (snd (ContainerExecAttach cli x i w)) = up w) \<and> (\<forall>x i w. up (snd (ContainerExecInspect cli x i w)) = up w) \<and>
     (\<forall>x i w. up (snd (ImageInspect cli x i w)) = up w) \<and> (\<forall>x i w. up (snd (ImagePull cli x i w)) = up w) \<and>
     (\<forall>x n w. up (snd (VolumeCreate cli x n w)) = up w) \<and> (\<forall>x n w. up (snd (VolumeInspect cli x n w)) = up w) \<and>
     (\<forall>x w. up (snd (ContextErr cli x w)) = up w)"

lemma docker_appsD:
  assumes "docker_apps cli up A"
  shows "ContainerCreate cli x g h n w = (r1, w') \<Longrightarrow> up w' = up w \<and> (\<forall>i. r1 = Inr i \<longrightarrow> i \<notin> A)"
    "ContextErr cli x w = (r2, w') \<Longrightarrow> up w' = up w"
    "ContainerStart cli x i w = (r2, w') \<Longrightarrow> i \<notin> A \<Longrightarrow> up w' = up w" "i \<notin> A \<Longrightarrow> up (snd (ContainerRemove cli x i w)) = up w"
    "ContainerWait cli x i w = (r3, w') \<Longrightarrow> up w' = up w" "ContainerLogs cli x i w = (r4, w') \<Longrightarrow> up w' = up w"
    "ContainerInspect cli x i w = (r5, w') \<Longrightarrow> up w' = up w" "ContainerExecCreate cli x i cmd en u w = (r1, w') \<Longrightarrow> up w' = up w"
    "ContainerExecAttach cli x i w = (r4, w') \<Longrightarrow> up w' = up w" "ContainerExecInspect cli x i w = (r6, w') \<Longrightarrow> up w' = up w"
    "ImageInspect cli x i w = (r2, w') \<Longrightarrow> up w' = up w" "ImagePull cli x i w = (r2, w') \<Longrightarrow> up w' = up w"
    "VolumeCreate cli x i w = (r2, w') \<Longrightarrow> up w' = up w" "VolumeInspect cli x i w = (r7, w') \<Longrightarrow> up w' = up w"
  using assms unfolding docker_apps_def by (metis snd_conv)+

lemma docker_switches:
  assumes "docker_apps cli up A" "c \<in> A"
  shows "switches (docker_runtime cd quote srt cli slot now snaps) up c"
proof -
  have "up (snd (ContainerStart cli x c w)) = (up w)(c := True)"
    "up (snd (ContainerStop cli x c w)) = (if fst (ContainerStop cli x c w) = None then (up w)(c := False) else up w)" for x w
    using assms unfolding docker_apps_def by simp_all
  moreover have "snd (docker_Start cli x c w) = snd (ContainerStart cli x c w)" "snd (docker_Stop cli x c w) = snd (ContainerStop cli x c w)"
    "fst (docker_Stop cli x c w) = None \<longleftrightarrow> fst (ContainerStop cli x c w) = None" for x w
    by (simp_all add: docker_Start_def docker_Stop_def split: prod.splits option.splits)
  ultimately show ?thesis by (simp add: switches_def docker_runtime_def)
qed

lemma ensureImage_apps:
  assumes "docker_apps cli up A" "ensureImage m cli x i w = (r, w')"
  shows "up w' = up w"
  using assms(2) by (auto simp: ensureImage_def dest!: docker_appsD(11,12)[OF assms(1)] split: prod.splits option.splits)

lemma logs_apps:
  assumes "docker_apps cli up A" "logs cli x i w = (r, w')"
  shows "up w' = up w"
  using assms(2) by (auto simp: logs_def dest!: docker_appsD(6)[OF assms(1)] split: prod.splits sum.splits)

lemma Run_apps:
  assumes d: "docker_apps cli up A" and r: "Run cd cli x req w = (r, w')"
  shows "up w' = up w"
proof -
  have c: "run_created cd cli x req i u = (rk, v) \<Longrightarrow> i \<notin> A \<Longrightarrow> up v = up u" for i rk u v
    by (auto simp: run_created_def Let_def dest!: docker_appsD(3,5)[OF d] logs_apps[OF d] split: prod.splits option.splits wait_event.splits if_splits)
  from r show ?thesis
    by (auto simp: Run_def docker_appsD(4)[OF d] dest!: ensureImage_apps[OF d] docker_appsD(1)[OF d] c split: sum.splits prod.splits option.splits if_splits)
qed

lemma RunOneShot_apps:
  assumes d: "docker_apps cli up A" and r: "docker_RunOneShot cli x sp w = (r, w')"
  shows "up w' = up w"
proof -
  have c: "hook_created cli x sp i u = (rk, v) \<Longrightarrow> i \<notin> A \<Longrightarrow> up v = up u" for i rk u v
    by (auto simp: hook_created_def dest!: docker_appsD(3,5)[OF d] logs_apps[OF d] split: prod.splits option.splits wait_event.splits if_splits)
  from r show ?thesis
    by (auto simp: docker_RunOneShot_def docker_appsD(4)[OF d] dest!: ensureImage_apps[OF d] docker_appsD(1)[OF d] c split: sum.splits prod.splits option.splits if_splits)
qed

lemma Exec_apps:
  assumes d: "docker_apps cli up A" and r: "docker_Exec cli x c cmd en u w = (r, w')"
  shows "up w' = up w"
  using r by (auto simp: docker_Exec_def dest!: docker_appsD(2,8,9,10)[OF d] split: sum.splits prod.splits option.splits if_splits)

text \<open>The standalone runtime, with providers that leave the apps alone, is calm.\<close>

lemma docker_calm:
  assumes d: "docker_apps cli up A" and slot: "\<forall>x w. up (snd (slot x w)) = up w"
    and snaps: "\<forall>s\<in>set snaps. (\<forall>x srcs w. up (snd (sn_Resolve s x srcs w)) = up w) \<and> (\<forall>x app srcs w. up (snd (sn_Snapshot s x app srcs w)) = up w) \<and>
        (\<forall>x app srcs w ms cl w' y u. sn_Snapshot s x app srcs w = (Inr (ms, cl), w') \<longrightarrow> up (cl y u) = up u)"
  shows "calm up (docker_runtime cd quote srt cli slot now snaps)"
proof -
  have calls: "up (snd (Run cd cli x req w)) = up w" "up (snd (docker_RunOneShot cli x sp w)) = up w" "up (snd (docker_Exec cli x c cmd en u w)) = up w"
    for x req sp c cmd en u w
    using Run_apps[OF d] RunOneShot_apps[OF d] Exec_apps[OF d] by (metis prod.collapse)+
  have reads: "up (snd (ContainerInspect cli x c w)) = up w" "up (snd (VolumeInspect cli x c w)) = up w" "up (snd (VolumeCreate cli x c w)) = up w" for x c w
    using docker_appsD(7,13,14)[OF d] by (metis prod.collapse)+
  have "up (snd (docker_AppEnv cli x c w)) = up w" "up (snd (docker_AppProject cli x c w)) = up w" "up (snd (docker_VolumeHostPath quote cli x c w)) = up w"
    "up (snd (docker_EnsureCache cli x c w)) = up w" for x c w
    using reads[of x c w]
    by (auto simp: docker_AppEnv_def docker_AppProject_def docker_VolumeHostPath_def docker_EnsureCache_def split: prod.splits sum.splits option.splits)
  with calls slot snaps show ?thesis by (simp add: calm_def docker_runtime_def)
qed

text \<open>A daemon with the app \<^verbatim>\<open>db\<close>, whose containers always exit with success.\<close>

definition apps_docker :: "apps docker_client" where
  "apps_docker = \<lparr>
     ContainerCreate = (\<lambda>x g h n w. (Inr ''mover'', w)), ContainerStart = (\<lambda>x i w. (None, w(i := True))),
     ContainerStop = (\<lambda>x i w. (None, w(i := False))), ContainerWait = (\<lambda>x i w. (WaitStatus 0 None, w)),
     ContainerLogs = (\<lambda>x i w. (Inr \<lparr>log_frames = [], log_err = None\<rparr>, w)),
     ContainerRemove = (\<lambda>x i w. (None, w(i := False))), ContainerList = (\<lambda>x a f w. (Inr [], w)),
     ContainerInspect = (\<lambda>x i w. (Inl (External ''none''), w)),
     ContainerExecCreate = (\<lambda>x i c e u w. (Inr ''e1'', w)),
     ContainerExecAttach = (\<lambda>x i w. (Inr \<lparr>log_frames = [], log_err = None\<rparr>, w)),
     ContainerExecInspect = (\<lambda>x i w. (Inr 0, w)), ImageInspect = (\<lambda>x i w. (None, w)), ImagePull = (\<lambda>x i w. (None, w)),
     VolumeCreate = (\<lambda>x i w. (None, w)), VolumeInspect = (\<lambda>x i w. (Inl (External ''none''), w)),
     ContextErr = (\<lambda>x w. (None, w))\<rparr>"

definition db_up :: "apps \<Rightarrow> apps" where
  "db_up w = (\<lambda>c. c = ''db'' \<and> w c)"

lemma apps_docker_apps: "docker_apps apps_docker db_up {''db''}"
  by (auto simp: docker_apps_def apps_docker_def db_up_def fun_eq_iff)

definition apps_rt :: "apps runtime" where
  "apps_rt = docker_runtime demo_codec id id apps_docker (\<lambda>x w. (None, w)) (\<lambda>w. 0) []"


end
