(* ===== verification/Scheduler.thy ===== *)
theory Scheduler
  imports Sabon_Prelude
begin

text \<open>
  \<^verbatim>\<open>internal/scheduler\<close>: the table of active cron jobs and how \<^verbatim>\<open>Sync\<close> brings it to a desired set. The cron
  library (robfig/cron) is a parameter, \<open>cron_lib\<close>, over a state of its own; what a job runs is a value \<open>'r\<close>
  (the closure of the source). \<open>cron_ok\<close> states what the scheduler relies on. The result is a refinement: on the
  abstract state (which schedule, fingerprint and action is active under which key) \<^verbatim>\<open>Sync\<close> is \<open>sync_spec\<close>.
\<close>

section \<open>The scheduler\<close>

record 'r sjob =
  sj_Key :: string
  sj_Schedule :: string
  sj_Fingerprint :: string
  sj_Run :: 'r

record sentry =
  en_id :: int
  en_schedule :: string
  en_fingerprint :: string

text \<open>\<^verbatim>\<open>AddFunc\<close> and \<^verbatim>\<open>Remove\<close> of the cron library, over its state \<open>'c\<close>.\<close>

record ('c, 'r) cron_lib =
  cr_AddFunc :: "string \<Rightarrow> 'r \<Rightarrow> 'c \<Rightarrow> int res \<times> 'c"
  cr_Remove :: "int \<Rightarrow> 'c \<Rightarrow> 'c"

record 'c sched =
  sc_cron :: 'c
  sc_entries :: "(string, sentry) gomap"

definition sched_New :: "'c \<Rightarrow> 'c sched" where
  "sched_New c = \<lparr>sc_cron = c, sc_entries = []\<rparr>"

definition sched_want :: "'r sjob list \<Rightarrow> (string, 'r sjob) gomap" where
  "sched_want desired = fold (\<lambda>j m. AList.update (sj_Key j) j m) desired []"

text \<open>An entry whose job is gone or changed is removed.\<close>

definition sched_stale :: "(string, 'r sjob) gomap \<Rightarrow> string \<Rightarrow> sentry \<Rightarrow> bool" where
  "sched_stale want key e =
     (case map_of want key of
        None \<Rightarrow> True
      | Some j \<Rightarrow> sj_Schedule j \<noteq> en_schedule e \<or> sj_Fingerprint j \<noteq> en_fingerprint e)"

fun drop_stale ::
  "('c, 'r) cron_lib \<Rightarrow> (string, 'r sjob) gomap \<Rightarrow> (string, sentry) gomap \<Rightarrow> 'c sched \<Rightarrow> 'c sched" where
  "drop_stale lib want [] s = s"
| "drop_stale lib want ((key, e) # es) s =
     drop_stale lib want es
       (if sched_stale want key e
        then \<lparr>sc_cron = cr_Remove lib (en_id e) (sc_cron s), sc_entries = AList.delete key (sc_entries s)\<rparr>
        else s)"

definition add_entry :: "('c, 'r) cron_lib \<Rightarrow> string \<Rightarrow> 'r sjob \<Rightarrow> 'c sched \<Rightarrow> 'c sched" where
  "add_entry lib key j s =
     (if map_of (sc_entries s) key \<noteq> None then s
      else case cr_AddFunc lib (sj_Schedule j) (sj_Run j) (sc_cron s) of
        (Inl _, c) \<Rightarrow> s\<lparr>sc_cron := c\<rparr>
      | (Inr i, c) \<Rightarrow>
          \<lparr>sc_cron = c,
           sc_entries = AList.update key \<lparr>en_id = i, en_schedule = sj_Schedule j, en_fingerprint = sj_Fingerprint j\<rparr> (sc_entries s)\<rparr>)"

fun add_missing :: "('c, 'r) cron_lib \<Rightarrow> (string, 'r sjob) gomap \<Rightarrow> 'c sched \<Rightarrow> 'c sched" where
  "add_missing lib [] s = s"
| "add_missing lib ((key, j) # js) s = add_missing lib js (add_entry lib key j s)"

definition Sync :: "('c, 'r) cron_lib \<Rightarrow> 'r sjob list \<Rightarrow> 'c sched \<Rightarrow> 'c sched" where
  "Sync lib desired s =
     (let want = sched_want desired
      in add_missing lib want (drop_stale lib want (sc_entries s) s))"

definition sched_Len :: "'c sched \<Rightarrow> nat" where
  "sched_Len s = length (sc_entries s)"

section \<open>What it promises\<close>

text \<open>
  The cron library keeps a table of its entries: an addition with a valid expression gets a new id, an invalid
  one changes nothing, a removal removes its id.
\<close>

definition cron_ok :: "('c, 'r) cron_lib \<Rightarrow> ('c \<Rightarrow> int \<rightharpoonup> string \<times> 'r) \<Rightarrow> (string \<Rightarrow> bool) \<Rightarrow> bool" where
  "cron_ok lib tab valid \<longleftrightarrow>
     (\<forall>sp r c. case cr_AddFunc lib sp r c of
        (Inl _, c') \<Rightarrow> \<not> valid sp \<and> tab c' = tab c
      | (Inr i, c') \<Rightarrow> valid sp \<and> tab c i = None \<and> tab c' = (tab c)(i \<mapsto> (sp, r))) \<and>
     (\<forall>i c. tab (cr_Remove lib i c) = (tab c)(i := None))"

text \<open>The entries and the table of the cron are the same jobs: nothing else fires, and each entry's job fires.\<close>

definition sched_ok :: "('c \<Rightarrow> int \<rightharpoonup> string \<times> 'r) \<Rightarrow> 'c sched \<Rightarrow> bool" where
  "sched_ok tab s \<longleftrightarrow>
     distinct (map fst (sc_entries s)) \<and> distinct (map (en_id \<circ> snd) (sc_entries s)) \<and>
     dom (tab (sc_cron s)) = (en_id \<circ> snd) ` set (sc_entries s) \<and>
     (\<forall>(key, e) \<in> set (sc_entries s). \<exists>r. tab (sc_cron s) (en_id e) = Some (en_schedule e, r))"

text \<open>The abstract state: for each key the schedule, fingerprint and action that are active.\<close>

definition active :: "('c \<Rightarrow> int \<rightharpoonup> string \<times> 'r) \<Rightarrow> 'c sched \<Rightarrow> string \<rightharpoonup> string \<times> string \<times> 'r" where
  "active tab s key =
     (case map_of (sc_entries s) key of
        None \<Rightarrow> None
      | Some e \<Rightarrow> (case tab (sc_cron s) (en_id e) of None \<Rightarrow> None | Some (sp, r) \<Rightarrow> Some (sp, en_fingerprint e, r)))"

text \<open>
  The abstract synchronisation: a desired job that is active with the same schedule and fingerprint stays
  as it is; any other desired job with a valid schedule becomes active; nothing else is active.
\<close>

definition sync_spec ::
  "(string \<Rightarrow> bool) \<Rightarrow> (string \<rightharpoonup> 'r sjob) \<Rightarrow> (string \<rightharpoonup> string \<times> string \<times> 'r) \<Rightarrow> string \<rightharpoonup> string \<times> string \<times> 'r" where
  "sync_spec valid want act key =
     (case want key of
        None \<Rightarrow> None
      | Some j \<Rightarrow>
          (case act key of
             Some (sp, fp, r) \<Rightarrow>
               if sp = sj_Schedule j \<and> fp = sj_Fingerprint j then Some (sp, fp, r)
               else if valid (sj_Schedule j) then Some (sj_Schedule j, sj_Fingerprint j, sj_Run j) else None
           | None \<Rightarrow> if valid (sj_Schedule j) then Some (sj_Schedule j, sj_Fingerprint j, sj_Run j) else None))"

lemma cron_okD:
  assumes "cron_ok lib tab valid"
  shows "cr_AddFunc lib sp r c = (Inl e, c') \<Longrightarrow> \<not> valid sp \<and> tab c' = tab c"
    "cr_AddFunc lib sp r c = (Inr i, c') \<Longrightarrow> valid sp \<and> tab c i = None \<and> tab c' = (tab c)(i \<mapsto> (sp, r))"
    "tab (cr_Remove lib i c) = (tab c)(i := None)"
  using assms[unfolded cron_ok_def, THEN conjunct1, THEN spec, of sp, THEN spec, of r, THEN spec, of c]
    assms[unfolded cron_ok_def, THEN conjunct2, THEN spec, of i, THEN spec, of c] by simp_all

lemma sched_want_wf: "distinct (map fst (sched_want desired))"
proof -
  have "distinct (map fst m) \<Longrightarrow> distinct (map fst (fold (\<lambda>j m. AList.update (sj_Key j) j m) desired m))" for m :: "(string, 'a sjob) gomap"
    by (induction desired arbitrary: m) (auto simp: distinct_update)
  then show ?thesis by (simp add: sched_want_def)
qed

text \<open>Removing and adding an entry keeps the invariant.\<close>

lemma entry_unique:
  assumes "distinct (map (en_id \<circ> snd) es)" "(k, e) \<in> set es" "(k', e') \<in> set es" "en_id e = en_id e'"
  shows "k = k' \<and> e = e'"
  using inj_onD[of "en_id \<circ> snd" "set es" "(k, e)" "(k', e')"] assms by (simp add: distinct_map)

lemma sched_ok_remove:
  assumes "cron_ok lib tab valid" "sched_ok tab s" "map_of (sc_entries s) key = Some e"
  shows "sched_ok tab \<lparr>sc_cron = cr_Remove lib (en_id e) (sc_cron s), sc_entries = AList.delete key (sc_entries s)\<rparr>"
    and "active tab \<lparr>sc_cron = cr_Remove lib (en_id e) (sc_cron s), sc_entries = AList.delete key (sc_entries s)\<rparr> = (active tab s)(key := None)"
proof -
  let ?es = "sc_entries s" and ?es' = "AList.delete key (sc_entries s)"
  have d: "distinct (map fst ?es)" "distinct (map (en_id \<circ> snd) ?es)" and dom: "dom (tab (sc_cron s)) = (en_id \<circ> snd) ` set ?es"
    and ent: "\<And>k e. (k, e) \<in> set ?es \<Longrightarrow> \<exists>r. tab (sc_cron s) (en_id e) = Some (en_schedule e, r)"
    using assms(2) by (auto simp: sched_ok_def)
  have mem: "(key, e) \<in> set ?es" using assms(3) by (rule map_of_SomeD)
  have set': "set ?es' = {p \<in> set ?es. fst p \<noteq> key}" by (auto simp: AList.delete_eq)
  have neq: "en_id e' \<noteq> en_id e" if "(k, e') \<in> set ?es" "k \<noteq> key" for k e' using entry_unique[OF d(2) mem that(1)] that(2) by metis
  have ins: "set ?es = insert (key, e) (set ?es')"
    using mem d(1) unfolding set' by (auto dest: eq_key_imp_eq_value)
  have "en_id e \<notin> (en_id \<circ> snd) ` set ?es'"
  proof
    assume "en_id e \<in> (en_id \<circ> snd) ` set ?es'"
    then obtain k e' where "(k, e') \<in> set ?es'" "en_id e' = en_id e" by auto
    with neq[of k e'] show False unfolding set' by simp
  qed
  then have img: "(en_id \<circ> snd) ` set ?es' = (en_id \<circ> snd) ` set ?es - {en_id e}" by (subst ins) simp
  note rem = cron_okD(3)[OF assms(1), of "en_id e" "sc_cron s"]
  have "distinct (map fst ?es')" "distinct (map (en_id \<circ> snd) ?es')"
    using d by (simp_all add: AList.delete_eq distinct_map_filter_key)
  moreover have "dom (tab (cr_Remove lib (en_id e) (sc_cron s))) = (en_id \<circ> snd) ` set ?es'" unfolding rem img using dom by simp
  moreover have "\<exists>r. tab (cr_Remove lib (en_id e) (sc_cron s)) (en_id e') = Some (en_schedule e', r)" if "(k, e') \<in> set ?es'" for k e'
    using that ent[of k e'] neq[of k e'] unfolding set' rem by simp
  ultimately show "sched_ok tab \<lparr>sc_cron = cr_Remove lib (en_id e) (sc_cron s), sc_entries = ?es'\<rparr>"
    unfolding sched_ok_def by auto
  have "en_id e' \<noteq> en_id e" if "map_of ?es k = Some e'" "k \<noteq> key" for k e' using neq map_of_SomeD[OF that(1)] that(2) by blast
  then show "active tab \<lparr>sc_cron = cr_Remove lib (en_id e) (sc_cron s), sc_entries = ?es'\<rparr> = (active tab s)(key := None)"
    by (auto simp: active_def fun_eq_iff delete_conv cron_okD(3)[OF assms(1)] split: option.splits)
qed

lemma sched_ok_add:
  assumes "cron_ok lib tab valid" "sched_ok tab s" "map_of (sc_entries s) key = None"
    and "cr_AddFunc lib sp r (sc_cron s) = (Inr i, c)"
  shows "sched_ok tab \<lparr>sc_cron = c, sc_entries = AList.update key \<lparr>en_id = i, en_schedule = sp, en_fingerprint = fp\<rparr> (sc_entries s)\<rparr>"
    and "active tab \<lparr>sc_cron = c, sc_entries = AList.update key \<lparr>en_id = i, en_schedule = sp, en_fingerprint = fp\<rparr> (sc_entries s)\<rparr>
         = (active tab s)(key \<mapsto> (sp, fp, r))"
proof -
  let ?e = "\<lparr>en_id = i, en_schedule = sp, en_fingerprint = fp\<rparr>"
  note a = cron_okD(2)[OF assms(1,4)]
  have new: "AList.update key ?e (sc_entries s) = sc_entries s @ [(key, ?e)]"
    using assms(3) by (rule update_new)
  have dom: "dom (tab (sc_cron s)) = (en_id \<circ> snd) ` set (sc_entries s)" using assms(2) by (simp add: sched_ok_def)
  have fresh: "i \<notin> (en_id \<circ> snd) ` set (sc_entries s)" using a dom by auto
  show "sched_ok tab \<lparr>sc_cron = c, sc_entries = AList.update key ?e (sc_entries s)\<rparr>"
    using assms(2,3) a fresh unfolding new sched_ok_def by (auto simp: map_of_eq_None_iff)
  have "en_id e \<noteq> i" if "map_of (sc_entries s) k = Some e" for k e using fresh map_of_SomeD[OF that] by force
  then show "active tab \<lparr>sc_cron = c, sc_entries = AList.update key ?e (sc_entries s)\<rparr> = (active tab s)(key \<mapsto> (sp, fp, r))"
    using a by (auto simp: active_def fun_eq_iff update_conv split: option.splits)
qed
lemma active_Some:
  assumes "sched_ok tab s" "map_of (sc_entries s) k = Some e"
  shows "\<exists>r. active tab s k = Some (en_schedule e, en_fingerprint e, r)"
  using assms map_of_SomeD[OF assms(2)] by (fastforce simp: sched_ok_def active_def)

lemma active_None: "map_of (sc_entries s) k = None \<Longrightarrow> active tab s k = None"
  by (simp add: active_def)

lemma drop_stale_active:
  assumes "cron_ok lib tab valid"
  shows "sched_ok tab s \<Longrightarrow> distinct (map fst es) \<Longrightarrow> \<forall>k e. map_of es k = Some e \<longrightarrow> map_of (sc_entries s) k = Some e \<Longrightarrow>
    sched_ok tab (drop_stale lib want es s) \<and>
    (\<forall>k. map_of (sc_entries (drop_stale lib want es s)) k =
       (case map_of es k of Some e \<Rightarrow> if sched_stale want k e then None else Some e | None \<Rightarrow> map_of (sc_entries s) k)) \<and>
    (\<forall>k. active tab (drop_stale lib want es s) k =
       (case map_of es k of Some e \<Rightarrow> if sched_stale want k e then None else active tab s k | None \<Rightarrow> active tab s k))"
proof (induction es arbitrary: s)
  case (Cons p es)
  obtain key e where p: "p = (key, e)" by fastforce
  have ke: "map_of (sc_entries s) key = Some e" using Cons.prems(3) p by (metis map_of_Cons_code(2))
  have out: "map_of es key = None" using Cons.prems(2) p by (simp add: map_of_eq_None_iff)
  let ?s = "if sched_stale want key e
        then \<lparr>sc_cron = cr_Remove lib (en_id e) (sc_cron s), sc_entries = AList.delete key (sc_entries s)\<rparr> else s"
  have ok: "sched_ok tab ?s" using sched_ok_remove(1)[OF assms Cons.prems(1) ke] Cons.prems(1) by simp
  have act: "active tab ?s k = (if k = key \<and> sched_stale want key e then None else active tab s k)" for k
    using sched_ok_remove(2)[OF assms Cons.prems(1) ke] by simp
  have ent: "map_of (sc_entries ?s) k = (if k = key \<and> sched_stale want key e then None else map_of (sc_entries s) k)" for k
    by (simp add: delete_conv)
  have "\<forall>k e. map_of es k = Some e \<longrightarrow> map_of (sc_entries ?s) k = Some e"
    using Cons.prems(3) out p ent by (metis map_of_Cons_code(2) option.distinct(1))
  from Cons.IH[OF ok _ this] Cons.prems(2) p have ih: "sched_ok tab (drop_stale lib want es ?s)"
    "map_of (sc_entries (drop_stale lib want es ?s)) k =
       (case map_of es k of Some e \<Rightarrow> if sched_stale want k e then None else Some e | None \<Rightarrow> map_of (sc_entries ?s) k)"
    "active tab (drop_stale lib want es ?s) k =
       (case map_of es k of Some e \<Rightarrow> if sched_stale want k e then None else active tab ?s k | None \<Rightarrow> active tab ?s k)" for k
    by simp_all
  have eq: "drop_stale lib want (p # es) s = drop_stale lib want es ?s" by (simp add: p)
  show ?case unfolding eq
  proof (intro conjI allI)
    fix k
    show "map_of (sc_entries (drop_stale lib want es ?s)) k =
       (case map_of (p # es) k of Some e \<Rightarrow> if sched_stale want k e then None else Some e | None \<Rightarrow> map_of (sc_entries s) k)"
      unfolding ih(2) ent using out ke by (cases "k = key") (simp_all add: p split: option.splits)
    show "active tab (drop_stale lib want es ?s) k =
       (case map_of (p # es) k of Some e \<Rightarrow> if sched_stale want k e then None else active tab s k | None \<Rightarrow> active tab s k)"
      unfolding ih(3) act using out by (cases "k = key") (simp_all add: p split: option.splits)
  qed (rule ih(1))
qed simp

lemma add_entry_active:
  assumes "cron_ok lib tab valid" "sched_ok tab s"
  shows "sched_ok tab (add_entry lib key j s)"
    and "k \<noteq> key \<Longrightarrow> active tab (add_entry lib key j s) k = active tab s k \<and> map_of (sc_entries (add_entry lib key j s)) k = map_of (sc_entries s) k"
    and "active tab (add_entry lib key j s) key =
      (if map_of (sc_entries s) key \<noteq> None then active tab s key
       else if valid (sj_Schedule j) then Some (sj_Schedule j, sj_Fingerprint j, sj_Run j) else None)"
proof -
  let ?s = "add_entry lib key j s"
  have "sched_ok tab ?s \<and> (\<forall>k. k \<noteq> key \<longrightarrow> active tab ?s k = active tab s k \<and> map_of (sc_entries ?s) k = map_of (sc_entries s) k) \<and>
      active tab ?s key = (if map_of (sc_entries s) key \<noteq> None then active tab s key
        else if valid (sj_Schedule j) then Some (sj_Schedule j, sj_Fingerprint j, sj_Run j) else None)"
  proof (cases "map_of (sc_entries s) key")
    case (Some e) with assms(2) show ?thesis by (simp add: add_entry_def)
  next
    case None
    obtain r c where a: "cr_AddFunc lib (sj_Schedule j) (sj_Run j) (sc_cron s) = (r, c)" by fastforce
    show ?thesis
    proof (cases r)
      case (Inl e)
      with cron_okD(1)[OF assms(1)] a have "\<not> valid (sj_Schedule j)" "tab c = tab (sc_cron s)" by auto
      moreover from this have "active tab (s\<lparr>sc_cron := c\<rparr>) = active tab s" by (simp add: active_def fun_eq_iff split: option.split)
      ultimately show ?thesis using None a Inl assms(2) by (simp add: add_entry_def sched_ok_def active_None)
    next
      case (Inr i)
      note add = sched_ok_add[OF assms None a[unfolded Inr], of "sj_Fingerprint j"]
      from cron_okD(2)[OF assms(1)] a Inr have "valid (sj_Schedule j)" by blast
      with None a Inr add show ?thesis by (simp add: add_entry_def update_conv)
    qed
  qed
  then show "sched_ok tab ?s" "k \<noteq> key \<Longrightarrow> active tab ?s k = active tab s k \<and> map_of (sc_entries ?s) k = map_of (sc_entries s) k"
    "active tab ?s key = (if map_of (sc_entries s) key \<noteq> None then active tab s key
       else if valid (sj_Schedule j) then Some (sj_Schedule j, sj_Fingerprint j, sj_Run j) else None)" by blast+
qed

lemma add_missing_active:
  assumes "cron_ok lib tab valid"
  shows "sched_ok tab s \<Longrightarrow> distinct (map fst js) \<Longrightarrow>
    sched_ok tab (add_missing lib js s) \<and>
    (\<forall>k. active tab (add_missing lib js s) k =
       (case map_of js k of
          Some j \<Rightarrow> if map_of (sc_entries s) k \<noteq> None then active tab s k
                   else if valid (sj_Schedule j) then Some (sj_Schedule j, sj_Fingerprint j, sj_Run j) else None
        | None \<Rightarrow> active tab s k))"
proof (induction js arbitrary: s)
  case (Cons p js)
  obtain key j where p: "p = (key, j)" by fastforce
  have out: "map_of js key = None" using Cons.prems(2) p by (simp add: map_of_eq_None_iff)
  note one = add_entry_active[OF assms Cons.prems(1), where key = key and j = j]
  note ih = Cons.IH[OF one(1)]
  from ih Cons.prems(2) p have ok: "sched_ok tab (add_missing lib (p # js) s)" by simp
  have "active tab (add_missing lib (p # js) s) k =
       (case map_of (p # js) k of
          Some j \<Rightarrow> if map_of (sc_entries s) k \<noteq> None then active tab s k
                   else if valid (sj_Schedule j) then Some (sj_Schedule j, sj_Fingerprint j, sj_Run j) else None
        | None \<Rightarrow> active tab s k)" for k
    using ih Cons.prems(2) one(2)[of k] one(3) out by (cases "k = key") (simp_all add: p split: option.splits)
  with ok show ?case by blast
qed simp

lemma Sync_refines:
  assumes "cron_ok lib tab valid" "sched_ok tab s"
  shows "sched_ok tab (Sync lib desired s)"
    and "active tab (Sync lib desired s) = sync_spec valid (map_of (sched_want desired)) (active tab s)"
proof -
  let ?w = "sched_want desired" and ?d = "drop_stale lib (sched_want desired) (sc_entries s) s"
  have "distinct (map fst (sc_entries s))" using assms(2) by (simp add: sched_ok_def)
  from drop_stale_active[OF assms(1,2) this, of ?w] have d: "sched_ok tab ?d"
    "map_of (sc_entries ?d) k = (case map_of (sc_entries s) k of Some e \<Rightarrow> if sched_stale ?w k e then None else Some e | None \<Rightarrow> None)"
    "active tab ?d k = (case map_of (sc_entries s) k of Some e \<Rightarrow> if sched_stale ?w k e then None else active tab s k | None \<Rightarrow> None)" for k
    by (auto simp: active_None split: option.splits)
  from add_missing_active[OF assms(1) d(1) sched_want_wf]
  have a: "sched_ok tab (Sync lib desired s)" "active tab (Sync lib desired s) k = (case map_of ?w k of
          Some j \<Rightarrow> if map_of (sc_entries ?d) k \<noteq> None then active tab ?d k
                   else if valid (sj_Schedule j) then Some (sj_Schedule j, sj_Fingerprint j, sj_Run j) else None
        | None \<Rightarrow> active tab ?d k)" for k unfolding Sync_def Let_def by simp_all
  show "sched_ok tab (Sync lib desired s)" by (rule a(1))
  show "active tab (Sync lib desired s) = sync_spec valid (map_of ?w) (active tab s)"
  proof
    fix k
    show "active tab (Sync lib desired s) k = sync_spec valid (map_of ?w) (active tab s) k"
    proof (cases "map_of (sc_entries s) k")
      case None then show ?thesis by (simp add: a(2) d(2,3) sync_spec_def active_None split: option.splits)
    next
      case (Some e)
      obtain r where "active tab s k = Some (en_schedule e, en_fingerprint e, r)" using active_Some[OF assms(2) Some] by blast
      with Some show ?thesis by (auto simp: a(2) d(2,3) sync_spec_def sched_stale_def split: option.splits)
    qed
  qed
qed

text \<open>A cron for the examples: the table of its entries, an id above every other is free.\<close>

definition demo_cron :: "((int \<times> string \<times> 'r) list, 'r) cron_lib" where
  "demo_cron = \<lparr>
     cr_AddFunc = (\<lambda>sp r es. if sp = [] then (Inl (External ''empty spec string''), es)
                           else let i = 1 + foldr (max \<circ> fst) es 0 in (Inr i, (i, sp, r) # es)),
     cr_Remove = AList.delete\<rparr>"

lemma demo_cron_ok: "cron_ok (demo_cron :: (_, 'r) cron_lib) map_of (\<lambda>sp. sp \<noteq> [])"
proof -
  have le: "fst e \<le> foldr (max \<circ> fst) es (0 :: int)" if "e \<in> set es" for e and es :: "(int \<times> string \<times> 'r) list"
    using that by (induction es) auto
  have "map_of es (1 + foldr (max \<circ> fst) es 0) = None" for es :: "(int \<times> string \<times> 'r) list"
    using le[of _ es] by (force simp: map_of_eq_None_iff)
  then show ?thesis by (auto simp: cron_ok_def demo_cron_def Let_def delete_conv')
qed

text \<open>
  C6. \<^verbatim>\<open>Sync\<close> refines its specification: on the active schedules it is exactly the abstract synchronisation - a desired job that is
  active with the same schedule and fingerprint keeps its entry (and its action), every other desired job with a
  valid schedule is active with the desired action, and nothing else fires. The cron's table and the
  scheduler's entries stay the same jobs, before and after.
\<close>

theorem scheduler_sync_refines:
  assumes "cron_ok lib tab valid" "sched_ok tab s"
  shows "sched_ok tab (Sync lib desired s) \<and>
         active tab (Sync lib desired s) = sync_spec valid (map_of (sched_want desired)) (active tab s)"
  using Sync_refines[OF assms] by blast

theorem scheduler_sync_refines_witness:
  "let s = \<lparr>sc_cron = [(1, ''0 0 3 * * *'', ''old'')], sc_entries = [(''a|b'', \<lparr>en_id = 1, en_schedule = ''0 0 3 * * *'', en_fingerprint = ''f''\<rparr>)]\<rparr>;
       keep = \<lparr>sj_Key = ''a|b'', sj_Schedule = ''0 0 3 * * *'', sj_Fingerprint = ''f'', sj_Run = ''new''\<rparr>;
       add = \<lparr>sj_Key = ''c|d'', sj_Schedule = ''0 0 4 * * *'', sj_Fingerprint = ''f'', sj_Run = ''new''\<rparr>;
       s' = Sync demo_cron [keep, add] s
   in sched_ok map_of s' \<and> active map_of s' ''a|b'' = Some (''0 0 3 * * *'', ''f'', ''old'') \<and>
      active map_of s' ''c|d'' = Some (''0 0 4 * * *'', ''f'', ''new'')"
proof -
  let ?s = "\<lparr>sc_cron = [(1, ''0 0 3 * * *'', ''old'')], sc_entries = [(''a|b'', \<lparr>en_id = 1, en_schedule = ''0 0 3 * * *'', en_fingerprint = ''f''\<rparr>)]\<rparr>"
  have "sched_ok map_of ?s" by (auto simp: sched_ok_def dom_def)
  moreover have "active map_of ?s ''a|b'' = Some (''0 0 3 * * *'', ''f'', ''old'')" "active map_of ?s ''c|d'' = None" by (simp_all add: active_def)
  ultimately show ?thesis
    using scheduler_sync_refines[OF demo_cron_ok, of ?s] by (simp add: Let_def sync_spec_def sched_want_def)
qed

end
