(* ===== verification/Go_Float.thy ===== *)
theory Go_Float
  imports Go_Strings "HOL-Library.Word"
begin

text \<open>
  What the repository uses of Go's floating point: the conversion of an integer to \<^verbatim>\<open>float64\<close> and the \<^verbatim>\<open>%.1f\<close> format of a
  quotient by a power of two. Both are exact here: the values are natural numbers and their quotients.
\<close>

text \<open>
  \<^verbatim>\<open>float64(b)\<close> rounds to 53 significant bits, ties to even; the quotient by a power of two is exact; \<^verbatim>\<open>%.1f\<close> rounds
  the exact value to tenths, ties to even.
\<close>

definition round_half_even :: "nat \<Rightarrow> nat \<Rightarrow> nat" where
  "round_half_even n d =
     (let q = n div d; r = n mod d in if 2 * r > d \<or> 2 * r = d \<and> odd q then q + 1 else q)"

function f64_shift :: "nat \<Rightarrow> nat" where
  "f64_shift n = (if n < 2 ^ 53 then 0 else Suc (f64_shift (n div 2)))"
  by pat_completeness auto
termination by (relation "measure id") auto

definition f64_of_nat :: "nat \<Rightarrow> nat" where
  "f64_of_nat n = (let u = 2 ^ f64_shift n in round_half_even n u * u)"

definition show_tenths :: "nat \<Rightarrow> nat \<Rightarrow> string" where
  "show_tenths x d = (let t = round_half_even (10 * x) d in digits (t div 10) @ ''.'' @ digits (t mod 10))"

definition f64_of_int :: "int \<Rightarrow> int" where
  "f64_of_int i = sgn i * int (f64_of_nat (nat \<bar>i\<bar>))"

declare f64_shift.simps [simp del]

text \<open>Counts below 2^53 are exact.\<close>

lemma f64_of_nat_exact: "n < 2 ^ 53 \<Longrightarrow> f64_of_nat n = n"
  by (simp add: f64_of_nat_def f64_shift.simps round_half_even_def)

lemma f64_of_int_exact: "\<bar>i\<bar> < 2 ^ 53 \<Longrightarrow> f64_of_int i = i"
  by (simp add: f64_of_int_def f64_of_nat_exact nat_less_iff mult.commute[of "sgn i"] abs_mult_sgn)

end
