(* ===== verification/Metrics.thy ===== *)
theory Metrics
  imports Api Go_Float
begin

text \<open>
  \<^verbatim>\<open>internal/metrics\<close>: the series that sabon exports and the health endpoints. A vector of series is a map from its label
  values; a histogram keeps its observations. The \<^verbatim>\<open>/metrics\<close> exposition (prometheus) is a parameter.
\<close>

section \<open>The instruments\<close>

record metrics =
  mt_readyState :: bool
  mt_seen :: "string list"
  mt_buildInfo :: "string \<rightharpoonup> nat"
  mt_ready :: nat
  mt_managedJobs :: int
  mt_reconciles :: "string \<rightharpoonup> nat"
  mt_lastReconcile :: int
  mt_watchRestarts :: nat
  mt_deprecatedLbls :: "string \<rightharpoonup> nat"
  mt_backups :: "string \<times> string \<times> string \<rightharpoonup> nat"
  mt_backupDuration :: "string \<times> string \<rightharpoonup> duration list"
  mt_lastSuccess :: "string \<times> string \<rightharpoonup> int"
  mt_filesNew :: "string \<times> string \<rightharpoonup> int"
  mt_dataAdded :: "string \<times> string \<rightharpoonup> nat"
  mt_checks :: "string \<times> string \<times> string \<rightharpoonup> nat"
  mt_lastCheck :: "string \<times> string \<rightharpoonup> int"
  mt_prunes :: "string \<times> string \<times> string \<rightharpoonup> nat"
  mt_lastPrune :: "string \<times> string \<rightharpoonup> int"

definition metrics_New :: "string \<Rightarrow> metrics" where
  "metrics_New version = \<lparr>mt_readyState = False, mt_seen = [], mt_buildInfo = [version \<mapsto> 1], mt_ready = 0, mt_managedJobs = 0,
     mt_reconciles = Map.empty, mt_lastReconcile = 0, mt_watchRestarts = 0, mt_deprecatedLbls = Map.empty,
     mt_backups = Map.empty, mt_backupDuration = Map.empty, mt_lastSuccess = Map.empty, mt_filesNew = Map.empty,
     mt_dataAdded = Map.empty, mt_checks = Map.empty, mt_lastCheck = Map.empty, mt_prunes = Map.empty,
     mt_lastPrune = Map.empty\<rparr>"

definition result_label :: "bool \<Rightarrow> string" where
  "result_label ok = (if ok then ''success'' else ''error'')"

definition b2f :: "bool \<Rightarrow> nat" where
  "b2f b = (if b then 1 else 0)"

text \<open>\<^verbatim>\<open>WithLabelValues(k).Inc()\<close>: a series that does not exist yet starts at 0.\<close>

definition inc :: "'k \<Rightarrow> ('k \<rightharpoonup> nat) \<Rightarrow> 'k \<rightharpoonup> nat" where
  "inc k m = m(k \<mapsto> Suc (case m k of None \<Rightarrow> 0 | Some n \<Rightarrow> n))"

definition observe :: "'k \<Rightarrow> 'v \<Rightarrow> ('k \<rightharpoonup> 'v list) \<Rightarrow> 'k \<rightharpoonup> 'v list" where
  "observe k v m = m(k \<mapsto> (case m k of None \<Rightarrow> [] | Some vs \<Rightarrow> vs) @ [v])"

section \<open>Recording\<close>

definition ObserveReconcile :: "int \<Rightarrow> bool \<Rightarrow> metrics \<Rightarrow> metrics" where
  "ObserveReconcile now ok m =
     m\<lparr>mt_reconciles := inc (result_label ok) (mt_reconciles m), mt_lastReconcile := now, mt_ready := b2f ok,
       mt_readyState := (if ok then True else mt_readyState m)\<rparr>"

definition SetManagedJobs :: "nat \<Rightarrow> metrics \<Rightarrow> metrics" where
  "SetManagedJobs n m = m\<lparr>mt_managedJobs := f64_of_int (int n)\<rparr>"

definition ObserveWatchRestart :: "metrics \<Rightarrow> metrics" where
  "ObserveWatchRestart m = m\<lparr>mt_watchRestarts := Suc (mt_watchRestarts m)\<rparr>"

definition ObserveDeprecatedLabel :: "string \<Rightarrow> metrics \<Rightarrow> metrics" where
  "ObserveDeprecatedLabel l m = m\<lparr>mt_deprecatedLbls := inc l (mt_deprecatedLbls m)\<rparr>"

definition markSeen :: "string \<Rightarrow> metrics \<Rightarrow> metrics" where
  "markSeen app m = m\<lparr>mt_seen := List.insert app (mt_seen m)\<rparr>"

definition ObserveBackup ::
  "int \<Rightarrow> string \<Rightarrow> string \<Rightarrow> bool \<Rightarrow> duration \<Rightarrow> int \<Rightarrow> 64 word \<Rightarrow> metrics \<Rightarrow> metrics" where
  "ObserveBackup now app target ok dur filesNew dataAdded m =
     (let m = markSeen app m;
          m = m\<lparr>mt_backups := inc (app, target, result_label ok) (mt_backups m),
                mt_backupDuration := observe (app, target) dur (mt_backupDuration m)\<rparr>
      in if ok
         then m\<lparr>mt_lastSuccess := (mt_lastSuccess m)((app, target) \<mapsto> now),
                mt_filesNew := (mt_filesNew m)((app, target) \<mapsto> f64_of_int filesNew),
                mt_dataAdded := (mt_dataAdded m)((app, target) \<mapsto> f64_of_nat (unat dataAdded))\<rparr>
         else m)"

definition ObserveCheck :: "int \<Rightarrow> string \<Rightarrow> string \<Rightarrow> bool \<Rightarrow> metrics \<Rightarrow> metrics" where
  "ObserveCheck now app target ok m =
     (let m = markSeen app m;
          m = m\<lparr>mt_checks := inc (app, target, result_label ok) (mt_checks m)\<rparr>
      in if ok then m\<lparr>mt_lastCheck := (mt_lastCheck m)((app, target) \<mapsto> now)\<rparr> else m)"

definition ObservePrune :: "int \<Rightarrow> string \<Rightarrow> string \<Rightarrow> bool \<Rightarrow> metrics \<Rightarrow> metrics" where
  "ObservePrune now app target ok m =
     (let m = markSeen app m;
          m = m\<lparr>mt_prunes := inc (app, target, result_label ok) (mt_prunes m)\<rparr>
      in if ok then m\<lparr>mt_lastPrune := (mt_lastPrune m)((app, target) \<mapsto> now)\<rparr> else m)"

section \<open>Forgetting apps\<close>

definition DeletePartialMatch :: "string \<Rightarrow> (string \<times> 'k \<rightharpoonup> 'v) \<Rightarrow> string \<times> 'k \<rightharpoonup> 'v" where
  "DeletePartialMatch app m = (\<lambda>k. if fst k = app then None else m k)"

definition forget_app :: "string \<Rightarrow> metrics \<Rightarrow> metrics" where
  "forget_app app m =
     m\<lparr>mt_backups := DeletePartialMatch app (mt_backups m),
       mt_backupDuration := DeletePartialMatch app (mt_backupDuration m),
       mt_lastSuccess := DeletePartialMatch app (mt_lastSuccess m),
       mt_filesNew := DeletePartialMatch app (mt_filesNew m),
       mt_dataAdded := DeletePartialMatch app (mt_dataAdded m),
       mt_checks := DeletePartialMatch app (mt_checks m),
       mt_lastCheck := DeletePartialMatch app (mt_lastCheck m),
       mt_prunes := DeletePartialMatch app (mt_prunes m),
       mt_lastPrune := DeletePartialMatch app (mt_lastPrune m),
       mt_seen := removeAll app (mt_seen m)\<rparr>"

definition ForgetAbsent :: "(string \<Rightarrow> bool) \<Rightarrow> metrics \<Rightarrow> metrics" where
  "ForgetAbsent act m = fold (\<lambda>app m. if act app then m else forget_app app m) (mt_seen m) m"

section \<open>The health endpoints\<close>

text \<open>The answer to a request for a path, as status and body; a path without a handler is the multiplexer's 404.\<close>

definition http_error_body :: "string \<Rightarrow> string" where
  "http_error_body msg = msg @ [CHR 0x0A]"

definition health_handler :: "(metrics \<Rightarrow> string) \<Rightarrow> bool \<Rightarrow> metrics \<Rightarrow> string \<Rightarrow> nat \<times> string" where
  "health_handler expose withMetrics m path =
     (if withMetrics \<and> path = ''/metrics'' then (200, expose m)
      else if path = ''/healthz'' then (200, ''ok'')
      else if path = ''/readyz'' then (if mt_readyState m then (200, ''ok'') else (503, http_error_body ''not ready''))
      else (404, http_error_body ''404 page not found''))"

text \<open>A blank address serves nothing.\<close>

definition metrics_serve :: "(metrics \<Rightarrow> string) \<Rightarrow> string \<Rightarrow> bool \<Rightarrow> metrics \<Rightarrow> string \<Rightarrow> (nat \<times> string) option" where
  "metrics_serve expose addr withMetrics m path =
     (if addr = [] then None else Some (health_handler expose withMetrics m path))"

definition metrics_Serve :: "(metrics \<Rightarrow> string) \<Rightarrow> string \<Rightarrow> metrics \<Rightarrow> string \<Rightarrow> (nat \<times> string) option" where
  "metrics_Serve expose addr m path = metrics_serve expose addr True m path"

definition ServeHealth :: "string \<Rightarrow> metrics \<Rightarrow> string \<Rightarrow> (nat \<times> string) option" where
  "ServeHealth addr m path = metrics_serve (\<lambda>_. []) addr False m path"

section \<open>Cardinality and readiness\<close>

text \<open>The calls that change the metrics, in any order.\<close>

datatype metric_op =
    OReconcile int bool
  | OManaged nat
  | OWatchRestart
  | ODeprecated string
  | OBackup int string string bool duration int "64 word"
  | OCheck int string string bool
  | OPrune int string string bool
  | OForget "string list"

fun metric_step :: "metric_op \<Rightarrow> metrics \<Rightarrow> metrics" where
  "metric_step (OReconcile now ok) m = ObserveReconcile now ok m"
| "metric_step (OManaged n) m = SetManagedJobs n m"
| "metric_step OWatchRestart m = ObserveWatchRestart m"
| "metric_step (ODeprecated l) m = ObserveDeprecatedLabel l m"
| "metric_step (OBackup now app target ok dur n b) m = ObserveBackup now app target ok dur n b m"
| "metric_step (OCheck now app target ok) m = ObserveCheck now app target ok m"
| "metric_step (OPrune now app target ok) m = ObservePrune now app target ok m"
| "metric_step (OForget apps) m = ForgetAbsent (\<lambda>a. a \<in> set apps) m"

definition series_apps :: "metrics \<Rightarrow> string set" where
  "series_apps m =
     fst ` dom (mt_backups m) \<union> fst ` dom (mt_backupDuration m) \<union> fst ` dom (mt_lastSuccess m) \<union>
     fst ` dom (mt_filesNew m) \<union> fst ` dom (mt_dataAdded m) \<union> fst ` dom (mt_checks m) \<union>
     fst ` dom (mt_lastCheck m) \<union> fst ` dom (mt_prunes m) \<union> fst ` dom (mt_lastPrune m)"

lemma dom_inc [simp]: "dom (inc k m) = insert k (dom m)"
  by (simp add: inc_def)

lemma dom_observe [simp]: "dom (observe k v m) = insert k (dom m)"
  by (simp add: observe_def)

text \<open>A vector restricted to the apps in a set, and the metrics with every vector that has an \<^verbatim>\<open>app\<close> label restricted.\<close>

definition for_apps :: "string set \<Rightarrow> (string \<times> 'k \<rightharpoonup> 'v) \<Rightarrow> string \<times> 'k \<rightharpoonup> 'v" where
  "for_apps A m = m |` {k. fst k \<in> A}"

definition only_apps :: "string set \<Rightarrow> metrics \<Rightarrow> metrics" where
  "only_apps A m =
     m\<lparr>mt_backups := for_apps A (mt_backups m), mt_backupDuration := for_apps A (mt_backupDuration m),
       mt_lastSuccess := for_apps A (mt_lastSuccess m), mt_filesNew := for_apps A (mt_filesNew m),
       mt_dataAdded := for_apps A (mt_dataAdded m), mt_checks := for_apps A (mt_checks m),
       mt_lastCheck := for_apps A (mt_lastCheck m), mt_prunes := for_apps A (mt_prunes m),
       mt_lastPrune := for_apps A (mt_lastPrune m), mt_seen := filter (\<lambda>a. a \<in> A) (mt_seen m)\<rparr>"

lemma DeletePartialMatch_for_apps: "DeletePartialMatch app m = for_apps (- {app}) m"
  by (auto simp: DeletePartialMatch_def for_apps_def restrict_map_def fun_eq_iff)

lemma for_apps_Int [simp]: "for_apps A (for_apps B m) = for_apps (B \<inter> A) m"
  by (simp add: for_apps_def Collect_conj_eq)

lemma for_apps_UNIV [simp]: "for_apps UNIV m = m"
  by (simp add: for_apps_def restrict_map_def)

lemma for_apps_cong:
  assumes "fst ` dom m \<inter> A = fst ` dom m \<inter> B"
  shows "for_apps A m = for_apps B m"
proof
  fix k
  have "fst k \<in> A \<longleftrightarrow> fst k \<in> B" if "m k \<noteq> None" using assms that by blast
  then show "for_apps A m k = for_apps B m k" by (cases "m k") (simp_all add: for_apps_def restrict_map_def)
qed

lemma dom_for_apps [simp]: "dom (for_apps A m) = {k \<in> dom m. fst k \<in> A}"
  by (auto simp: for_apps_def)

lemma forget_app_only: "forget_app app m = only_apps (- {app}) m"
proof -
  have "removeAll app as = filter (\<lambda>a. a \<in> - {app}) as" for as by (induction as) auto
  then show ?thesis by (simp only: forget_app_def only_apps_def DeletePartialMatch_for_apps)
qed

lemma only_apps_Int: "only_apps A (only_apps B m) = only_apps (B \<inter> A) m"
  by (simp add: only_apps_def conj_commute)

lemma only_apps_UNIV: "only_apps UNIV m = m"
  by (simp add: only_apps_def)

lemma ForgetAbsent_only: "ForgetAbsent act m = only_apps (- {a \<in> set (mt_seen m). \<not> act a}) m"
proof -
  have "fold (\<lambda>app m. if act app then m else forget_app app m) as m = only_apps (- {a \<in> set as. \<not> act a}) m" for as m
  proof (induction as arbitrary: m)
    case Nil show ?case by (simp add: only_apps_UNIV)
  next
    case (Cons a as)
    have "- {a} \<inter> - {x \<in> set as. \<not> act x} = - {x \<in> insert a (set as). \<not> act x}" if "\<not> act a" using that by auto
    moreover have "{x \<in> insert a (set as). \<not> act x} = {x \<in> set as. \<not> act x}" if "act a" using that by auto
    ultimately show ?case by (simp add: Cons.IH forget_app_only only_apps_Int)
  qed
  then show ?thesis by (simp add: ForgetAbsent_def)
qed

text \<open>Every series with an app has its app in \<^verbatim>\<open>seen\<close>; so forgetting the absent apps leaves no other series.\<close>

definition seen_ok :: "metrics \<Rightarrow> bool" where
  "seen_ok m \<longleftrightarrow> series_apps m \<subseteq> set (mt_seen m)"

lemma series_only_apps: "series_apps (only_apps A m) = series_apps m \<inter> A"
  by (auto simp: series_apps_def only_apps_def image_iff)

lemma seen_ok_only: "seen_ok m \<Longrightarrow> seen_ok (only_apps A m)"
  by (auto simp: seen_ok_def series_only_apps) (auto simp: only_apps_def)

lemma seen_ok_step: "seen_ok m \<Longrightarrow> seen_ok (metric_step op m)"
proof (cases op)
  case (OForget apps)
  assume "seen_ok m" with OForget show ?thesis by (simp add: ForgetAbsent_only seen_ok_only)
qed (simp_all add: seen_ok_def series_apps_def subset_insertI2 ObserveReconcile_def SetManagedJobs_def ObserveWatchRestart_def
    ObserveDeprecatedLabel_def ObserveBackup_def ObserveCheck_def ObservePrune_def markSeen_def Let_def)

lemma seen_ok_run: "seen_ok m \<Longrightarrow> seen_ok (fold metric_step ops m)"
  by (induction ops arbitrary: m) (simp_all add: seen_ok_step)

lemma seen_ok_New: "seen_ok (metrics_New v)"
  by (simp add: seen_ok_def series_apps_def metrics_New_def)

lemma ForgetAbsent_exact:
  assumes "seen_ok m"
  shows "series_apps (ForgetAbsent act m) = {a \<in> series_apps m. act a}"
    "mt_backups (ForgetAbsent act m) = for_apps {a. act a} (mt_backups m)"
    "mt_lastSuccess (ForgetAbsent act m) = for_apps {a. act a} (mt_lastSuccess m)"
    "mt_lastCheck (ForgetAbsent act m) = for_apps {a. act a} (mt_lastCheck m)"
    "mt_lastPrune (ForgetAbsent act m) = for_apps {a. act a} (mt_lastPrune m)"
proof -
  let ?A = "- {a \<in> set (mt_seen m). \<not> act a}"
  have s: "S \<subseteq> series_apps m \<Longrightarrow> S \<inter> ?A = S \<inter> {a. act a}" for S using assms by (auto simp: seen_ok_def)
  show "series_apps (ForgetAbsent act m) = {a \<in> series_apps m. act a}"
    using s[of "series_apps m"] by (simp add: ForgetAbsent_only series_only_apps) blast
  have p: "mt_backups (only_apps ?A m) = for_apps ?A (mt_backups m)" "mt_lastSuccess (only_apps ?A m) = for_apps ?A (mt_lastSuccess m)"
    "mt_lastCheck (only_apps ?A m) = for_apps ?A (mt_lastCheck m)" "mt_lastPrune (only_apps ?A m) = for_apps ?A (mt_lastPrune m)"
    by (simp_all add: only_apps_def)
  show "mt_backups (ForgetAbsent act m) = for_apps {a. act a} (mt_backups m)"
    "mt_lastSuccess (ForgetAbsent act m) = for_apps {a. act a} (mt_lastSuccess m)"
    "mt_lastCheck (ForgetAbsent act m) = for_apps {a. act a} (mt_lastCheck m)"
    "mt_lastPrune (ForgetAbsent act m) = for_apps {a. act a} (mt_lastPrune m)"
    unfolding ForgetAbsent_only p by (rule for_apps_cong, rule s, simp add: series_apps_def subset_iff)+
qed

lemma readyState_step: "mt_readyState (metric_step op m) = (mt_readyState m \<or> (\<exists>now. op = OReconcile now True))"
  by (cases op) (auto simp: ObserveReconcile_def SetManagedJobs_def ObserveWatchRestart_def ObserveDeprecatedLabel_def
    ObserveBackup_def ObserveCheck_def ObservePrune_def markSeen_def Let_def ForgetAbsent_only only_apps_def)

lemma readyState_run: "mt_readyState (fold metric_step ops m) = (mt_readyState m \<or> (\<exists>now. OReconcile now True \<in> set ops))"
  by (induction ops arbitrary: m) (auto simp: readyState_step)

text \<open>
  Whatever was recorded before, in any order, forgetting the absent apps leaves exactly the series of the active apps:
  no series of another app survives, and the counters and last-success times of an active app are untouched. And the readiness
  endpoint answers 200 exactly when some reconcile has succeeded so far, 503 otherwise.
\<close>

theorem metrics_forget_exactly_absent:
  fixes ops :: "metric_op list" and version :: string
  defines "m \<equiv> fold metric_step ops (metrics_New version)"
  shows "series_apps (ForgetAbsent act m) = {a \<in> series_apps m. act a} \<and>
         mt_backups (ForgetAbsent act m) = mt_backups m |` {k. act (fst k)} \<and>
         mt_lastSuccess (ForgetAbsent act m) = mt_lastSuccess m |` {k. act (fst k)} \<and>
         ServeHealth '':8081'' m ''/readyz''
           = Some (if \<exists>now. OReconcile now True \<in> set ops then (200, ''ok'') else (503, http_error_body ''not ready''))"
proof -
  have "seen_ok m" unfolding m_def by (rule seen_ok_run[OF seen_ok_New])
  moreover have "mt_readyState m = (\<exists>now. OReconcile now True \<in> set ops)"
    by (simp add: m_def readyState_run) (simp add: metrics_New_def)
  ultimately show ?thesis
    by (simp add: ForgetAbsent_exact for_apps_def ServeHealth_def metrics_serve_def health_handler_def)
qed

end
