(* ===== verification/Notify.thy ===== *)
theory Notify
  imports Api Go_Float
begin

text \<open>
  \<^verbatim>\<open>internal/notify\<close>: when a notification is sent, with which text, and how a byte count is rendered. The template engine
  and the sender library (shoutrrr) are parameters, \<open>notify_lib\<close>.
\<close>

section \<open>The notifier\<close>

record ndata =
  nd_Event :: string
  nd_App :: string
  nd_Target :: string
  nd_Instance :: string
  nd_OK :: bool
  nd_Duration :: duration
  nd_SnapshotID :: string
  nd_FilesNew :: int
  nd_DataAdded :: "64 word"
  nd_Error :: string

definition empty_ndata :: ndata where
  "empty_ndata = \<lparr>nd_Event = [], nd_App = [], nd_Target = [], nd_Instance = [], nd_OK = False, nd_Duration = 0,
     nd_SnapshotID = [], nd_FilesNew = 0, nd_DataAdded = 0, nd_Error = []\<rparr>"

text \<open>A parsed template is what its \<^verbatim>\<open>Execute\<close> writes, or the error; a sender delivers one message with a title.\<close>

type_synonym tmpl = "ndata \<Rightarrow> string res"

type_synonym 'w sender = "string \<Rightarrow> string \<Rightarrow> 'w \<Rightarrow> error option list \<times> 'w"

record 'w notify_lib =
  nl_CreateSender :: "string list \<Rightarrow> 'w sender res"
  nl_Parse :: "string \<Rightarrow> tmpl res"

record 'w notifier =
  nt_sr :: "'w sender"
  nt_title :: tmpl
  nt_body :: tmpl

definition dquote :: string where
  "dquote = [CHR 0x22]"

definition arrow :: string where
  "arrow = [CHR 0xE2, CHR 0x86, CHR 0x92]"

definition newline :: string where
  "newline = [CHR 0x0A]"

definition DefaultTitleTemplate :: string where
  "DefaultTitleTemplate =
     ''sabon: {{ .App }} '' @ arrow @ '' {{ .Target }}'' @ newline @
     ''{{- if ne .Event '' @ dquote @ ''backup'' @ dquote @ '' }} {{ .Event }}{{ end }}'' @ newline @
     ''{{- if .OK }} ok{{ else }} FAILED{{ end -}}'' @ newline"

definition DefaultBodyTemplate :: string where
  "DefaultBodyTemplate =
     ''{{- if eq .Event '' @ dquote @ ''backup'' @ dquote @ '' -}}'' @ newline @
     ''Backup of {{ .App }} to {{ .Target }} {{ if .OK }}succeeded in {{ .Duration }} (snapshot {{ .SnapshotID | short }}, '' @
     ''{{ .FilesNew }} new files, {{ .DataAdded | bytes }}).{{ else }}failed after {{ .Duration }}: {{ .Error }}{{ end }}'' @ newline @
     ''{{- else -}}'' @ newline @
     ''restic {{ .Event }} of {{ .App }} ({{ .Target }}) '' @
     ''{{ if .OK }}ok in {{ .Duration }}{{ else }}FAILED after {{ .Duration }}: {{ .Error }}{{ end }}'' @ newline @
     ''{{- end -}}'' @ newline"

text \<open>No URLs give no notifier: \<open>Inr None\<close>.\<close>

definition notify_New :: "'w notify_lib \<Rightarrow> string list \<Rightarrow> string \<Rightarrow> string \<Rightarrow> 'w notifier option res" where
  "notify_New lib urls titleTmpl bodyTmpl =
     (if urls = [] then Inr None
      else case nl_CreateSender lib urls of
        Inl e \<Rightarrow> Inl (Wrapf ''notify: %w'' [] e)
      | Inr sr \<Rightarrow>
          (case nl_Parse lib (if titleTmpl = [] then DefaultTitleTemplate else titleTmpl) of
             Inl e \<Rightarrow> Inl (Wrapf ''notify: SABON_NOTIFY_TITLE_TEMPLATE: %w'' [] e)
           | Inr title \<Rightarrow>
               (case nl_Parse lib (if bodyTmpl = [] then DefaultBodyTemplate else bodyTmpl) of
                  Inl e \<Rightarrow> Inl (Wrapf ''notify: SABON_NOTIFY_TEMPLATE: %w'' [] e)
                | Inr body \<Rightarrow> Inr (Some \<lparr>nt_sr = sr, nt_title = title, nt_body = body\<rparr>))))"

definition Notifier_Enabled :: "'w notifier option \<Rightarrow> bool" where
  "Notifier_Enabled n \<longleftrightarrow> n \<noteq> None"

definition render :: "tmpl \<Rightarrow> ndata \<Rightarrow> string \<Rightarrow> string" where
  "render t d fallback = (case t d of Inl _ \<Rightarrow> fallback | Inr s \<Rightarrow> s)"

definition title_fallback :: "ndata \<Rightarrow> string" where
  "title_fallback d = ''sabon: '' @ nd_App d @ '' '' @ arrow @ '' '' @ nd_Target d"

definition body_fallback :: "ndata \<Rightarrow> string" where
  "body_fallback d = ''sabon '' @ nd_Event d @ '' of '' @ nd_App d @ '' '' @ arrow @ '' '' @ nd_Target d @ '': ok='' @
     (if nd_OK d then ''true'' else ''false'') @ '' '' @ nd_Error d"

text \<open>The errors that the services return are collected, an absent one is skipped.\<close>

definition Notifier_Send :: "'w notifier option \<Rightarrow> ndata \<Rightarrow> 'w \<Rightarrow> error option \<times> 'w" where
  "Notifier_Send n d w =
     (case n of
        None \<Rightarrow> (None, w)
      | Some n \<Rightarrow>
          (case nt_sr n (render (nt_body n) d (body_fallback d)) (render (nt_title n) d (title_fallback d)) w of
             (es, w) \<Rightarrow> (errors_Join (List.map_filter id es), w)))"

section \<open>The template functions\<close>

definition short :: "string \<Rightarrow> string" where
  "short s = (if length s > 8 then take 8 s else s)"

function human_loop :: "64 word \<Rightarrow> 64 word \<Rightarrow> nat \<Rightarrow> 64 word \<times> nat" where
  "human_loop n d e = (if 1024 \<le> n then human_loop (n div 1024) (d * 1024) (Suc e) else (d, e))"
  by pat_completeness auto
termination
proof (relation "measure (\<lambda>(n, d, e). unat n)", goal_cases)
  case (2 n d e)
  then have "unat (1024 :: 64 word) \<le> unat n" by (simp only: word_le_nat_alt)
  then have "0 < unat n" by simp
  then show ?case by (simp add: unat_div)
qed simp

declare human_loop.simps [simp del]

text \<open>The index into \<^verbatim>\<open>"KMGTPE"\<close> panics when it is out of range: that is \<open>None\<close>.\<close>

definition humanBytes :: "64 word \<Rightarrow> string option" where
  "humanBytes b =
     (if b < 1024 then Some (digits (unat b) @ '' B'')
      else case human_loop (b div 1024) 1024 0 of
        (d, e) \<Rightarrow>
          if e < length ''KMGTPE'' then Some (show_tenths (f64_of_nat (unat b)) (unat d) @ '' '' @ [''KMGTPE'' ! e] @ ''iB'')
          else None)"

section \<open>Sizes are shown with a unit that exists and a divisor that does not wrap\<close>

lemma unat64_bound: "unat b < 18446744073709551616" for b :: "64 word"
  using unsigned_less[of b] by simp

lemma human_loop_exact:
  fixes b :: "64 word"
  assumes "unat n = unat b div unat d" "unat d = 1024 ^ Suc e" "unat d \<le> unat b" "human_loop n d e = (d', e')"
  shows "unat d' = 1024 ^ Suc e' \<and> unat d' \<le> unat b \<and> unat b < 1024 * unat d'"
  using assms
proof (induction n d e rule: human_loop.induct)
  case (1 n d e)
  show ?case
  proof (cases "1024 \<le> n")
    case True
    then have "unat (1024 :: 64 word) \<le> unat n" by (simp only: word_le_nat_alt)
    with "1.prems"(1) have "1024 \<le> unat b div unat d" by simp
    moreover have "0 < unat d" using "1.prems"(2) by simp
    ultimately have le: "unat d * 1024 \<le> unat b" by (simp add: less_eq_div_iff_mult_less_eq mult.commute)
    with unat64_bound[of b] have d: "unat (d * 1024) = unat d * 1024" using le by (simp add: unat_word_ariths)
    show ?thesis
    proof (rule "1.IH"[OF True])
      show "unat (n div 1024) = unat b div unat (d * 1024)" using "1.prems"(1) by (simp add: d unat_div div_mult2_eq)
      show "unat (d * 1024) = 1024 ^ Suc (Suc e)" "unat (d * 1024) \<le> unat b" using d le "1.prems"(2) by simp_all
      show "human_loop (n div 1024) (d * 1024) (Suc e) = (d', e')" using True "1.prems"(4) by (subst (asm) human_loop.simps) simp
    qed
  next
    case False
    then have "d' = d" "e' = e" using "1.prems"(4) by (simp_all add: human_loop.simps[of n d e])
    moreover have "unat b div unat d < 1024" using False "1.prems"(1) by (simp add: word_le_nat_alt not_le)
    ultimately show ?thesis using "1.prems"(2,3) by (simp add: div_less_iff_less_mult mult.commute)
  qed
qed

text \<open>
  C38. Rendering a byte count never panics and its arithmetic never wraps: for every 64-bit count of at least 1024 the loop ends with
  a divisor that is exactly the power of 1024 of its unit (a multiplication that wrapped would give another number), the
  unit index is inside \<^verbatim>\<open>"KMGTPE"\<close>, the count lies between the divisor and 1024 times it, and the size is rendered with that unit.
\<close>

theorem human_bytes_in_range:
  assumes "1024 \<le> b" "human_loop (b div 1024) 1024 0 = (d, e)"
  shows "unat d = 1024 ^ Suc e \<and> e < 6 \<and> unat d \<le> unat b \<and> unat b < 1024 * unat d \<and>
         humanBytes b = Some (show_tenths (f64_of_nat (unat b)) (unat d) @ '' '' @ [''KMGTPE'' ! e] @ ''iB'')"
proof -
  have "unat (1024 :: 64 word) \<le> unat b" using assms(1) by (simp only: word_le_nat_alt)
  then have ge: "1024 \<le> unat b" by simp
  have ex: "unat d = 1024 ^ Suc e \<and> unat d \<le> unat b \<and> unat b < 1024 * unat d"
    by (rule human_loop_exact[OF _ _ _ assms(2)]) (use ge in \<open>simp_all add: unat_div\<close>)
  have "(2 :: nat) ^ (10 * Suc e) = 1024 ^ Suc e" by (simp only: power_mult) simp
  also have "\<dots> < 2 ^ 64" using ex unat64_bound[of b] by simp
  finally have "10 * Suc e < 64" by (simp only: power_strict_increasing_iff)
  then have e: "e < 6" by simp
  with ex assms show ?thesis by (simp add: humanBytes_def not_less)
qed

theorem human_bytes_in_range_witness:
  "humanBytes 12582912 = Some ''12.0 MiB'' \<and> human_loop (12582912 div 1024) 1024 0 = (1048576, 1)"
proof -
  have l: "human_loop (12582912 div 1024) 1024 0 = (1048576, 1)" by (simp add: human_loop.simps)
  from human_bytes_in_range[OF _ l] show ?thesis
    using l by (simp add: show_tenths_def f64_of_nat_def f64_shift.simps round_half_even_def digits.simps char_of_def bit_0)
qed

end
