(* ===== verification/Reconcile.thy ===== *)
theory Reconcile
  imports Docker_Engine Scheduler Metrics Notify
begin

text \<open>
  \<^verbatim>\<open>internal/reconcile\<close>: from the discovered jobs to the schedule, and the runs with their metrics and notifications. What a
  scheduled closure does is a value, \<open>run_action\<close>, which \<open>fire\<close> executes. The discoverer, the cron library, the sender of
  notifications and the encoder of the fingerprint are parameters. The results: after a reconcile the schedule is exactly the
  plans; a filter selects exactly the matching plans; an API backup does what the command does; every run is counted and
  a failure alerts.
\<close>

section \<open>State\<close>

record plan =
  pl_job :: job
  pl_target :: target
  pl_schedule :: string

datatype run_action =
    BackupAction job target
  | CheckAction string target
  | PruneAction string target

text \<open>The run history is an operation of the engine.\<close>

record 'w run_history =
  rh_ListRuns :: "ctx \<Rightarrow> string \<Rightarrow> string \<Rightarrow> 'w \<Rightarrow> run_info list res \<times> 'w"
  rh_GetRun :: "ctx \<Rightarrow> string \<Rightarrow> 'w \<Rightarrow> run_info option res \<times> 'w"
  rh_RunLogs :: "ctx \<Rightarrow> string \<Rightarrow> 'w \<Rightarrow> (string \<times> error option) \<times> 'w"

text \<open>
  \<open>rc_marshal\<close> is the JSON encoding that the fingerprint takes, \<open>rc_Error\<close> the text of an error, \<open>rc_sleep\<close> the wait of a
  random time below its bound or until the context ends.
\<close>

record ('w, 'c) reconciler =
  rc_ctx :: ctx
  rc_List :: "ctx \<Rightarrow> 'w \<Rightarrow> job list res \<times> 'w"
  rc_rt :: "'w runtime"
  rc_orch :: orch
  rc_runs :: "'w run_history"
  rc_cfg :: config
  rc_cron :: "('c, run_action) cron_lib"
  rc_notifier :: "'w notifier option"
  rc_marshal :: "source list \<Rightarrow> spec \<Rightarrow> target \<Rightarrow> string"
  rc_Error :: "error \<Rightarrow> string"
  rc_sleep :: "ctx \<Rightarrow> duration \<Rightarrow> 'w \<Rightarrow> 'w"

record ('w, 'c) rstate =
  rst_orch :: "'w ostate"
  rst_sched :: "'c sched"
  rst_metrics :: metrics

definition reconcile_New :: "'w \<Rightarrow> 'c \<Rightarrow> string \<Rightarrow> ('w, 'c) rstate" where
  "reconcile_New w c version = \<lparr>rst_orch = orch_New w, rst_sched = sched_New c, rst_metrics = metrics_New version\<rparr>"

definition rcall :: "('w \<Rightarrow> 'a \<times> 'w) \<Rightarrow> ('w, 'c) rstate \<Rightarrow> 'a \<times> ('w, 'c) rstate" where
  "rcall f st = (case ocall f (rst_orch st) of (r, o1) \<Rightarrow> (r, st\<lparr>rst_orch := o1\<rparr>))"

definition rclock :: "('w, 'c) reconciler \<Rightarrow> ('w, 'c) rstate \<Rightarrow> int" where
  "rclock rc st = rt_now (rc_rt rc) (os_world (rst_orch st))"

section \<open>Plans\<close>

definition targetsFor :: "('w, 'c) reconciler \<Rightarrow> job \<Rightarrow> target list" where
  "targetsFor rc j =
     (if spec_Targets (job_Spec j) = [] then conf_Targets (rc_cfg rc)
      else List.map_filter (Config_Target (rc_cfg rc)) (TargetNames (job_Spec j)))"

definition plan_for :: "job \<Rightarrow> target \<Rightarrow> plan" where
  "plan_for j t =
     \<lparr>pl_job = j, pl_target = t,
      pl_schedule =
        (case TargetOverride (job_Spec j) (tgt_Name t) of
           Some ts \<Rightarrow> if ts_Schedule ts \<noteq> [] then ts_Schedule ts else tgt_Schedule t
         | None \<Rightarrow> tgt_Schedule t)\<rparr>"

definition plans :: "('w, 'c) reconciler \<Rightarrow> job list \<Rightarrow> plan list" where
  "plans rc jobs = concat (map (\<lambda>j. map (plan_for j) (targetsFor rc j)) jobs)"

definition jobFingerprint :: "('w, 'c) reconciler \<Rightarrow> job \<Rightarrow> target \<Rightarrow> string" where
  "jobFingerprint rc j t = rc_marshal rc (job_Sources j) (job_Spec j) t"

section \<open>Reconciling\<close>

definition plan_app :: "plan \<Rightarrow> string" where
  "plan_app p = job_App (pl_job p)"

definition plan_tgt :: "plan \<Rightarrow> string" where
  "plan_tgt p = tgt_Name (pl_target p)"

definition backup_key :: "string \<Rightarrow> string \<Rightarrow> string" where
  "backup_key app tgt = app @ ''|'' @ tgt"

definition check_key :: "string \<Rightarrow> string \<Rightarrow> string" where
  "check_key app tgt = app @ ''|'' @ tgt @ ''|check''"

definition prune_key :: "string \<Rightarrow> string \<Rightarrow> string" where
  "prune_key app tgt = app @ ''|'' @ tgt @ ''|prune''"

definition backup_sjob :: "('w, 'c) reconciler \<Rightarrow> plan \<Rightarrow> run_action sjob" where
  "backup_sjob rc p =
     \<lparr>sj_Key = backup_key (plan_app p) (plan_tgt p), sj_Schedule = pl_schedule p,
      sj_Fingerprint = jobFingerprint rc (pl_job p) (pl_target p), sj_Run = BackupAction (pl_job p) (pl_target p)\<rparr>"

definition check_sjob :: "plan \<Rightarrow> run_action sjob" where
  "check_sjob p =
     \<lparr>sj_Key = check_key (plan_app p) (plan_tgt p), sj_Schedule = tgt_Check (pl_target p), sj_Fingerprint = [],
      sj_Run = CheckAction (plan_app p) (pl_target p)\<rparr>"

definition prune_sjob :: "plan \<Rightarrow> run_action sjob" where
  "prune_sjob p =
     \<lparr>sj_Key = prune_key (plan_app p) (plan_tgt p), sj_Schedule = tgt_Prune (pl_target p), sj_Fingerprint = [],
      sj_Run = PruneAction (plan_app p) (pl_target p)\<rparr>"

text \<open>The loop over the plans: the desired jobs so far and the backup keys seen.\<close>

fun desired_loop :: "('w, 'c) reconciler \<Rightarrow> plan list \<Rightarrow> string list \<Rightarrow> run_action sjob list \<Rightarrow> run_action sjob list" where
  "desired_loop rc [] sn desired = desired"
| "desired_loop rc (p # ps) sn desired =
     (let key = backup_key (plan_app p) (plan_tgt p);
          fresh = pl_schedule p \<noteq> [] \<and> key \<notin> set sn
      in desired_loop rc ps (if fresh then key # sn else sn)
           (desired
            @ (if fresh then [backup_sjob rc p] else [])
            @ (if tgt_Check (pl_target p) \<noteq> [] then [check_sjob p] else [])
            @ (if tgt_Prune (pl_target p) \<noteq> [] then [prune_sjob p] else [])))"

definition Reconcile :: "('w, 'c) reconciler \<Rightarrow> ('w, 'c) rstate \<Rightarrow> error option \<times> ('w, 'c) rstate" where
  "Reconcile rc st =
     (case rcall (rc_List rc (rc_ctx rc)) st of
        (Inl e, st) \<Rightarrow> (Some e, st\<lparr>rst_metrics := ObserveReconcile (rclock rc st) False (rst_metrics st)\<rparr>)
      | (Inr jobs, st) \<Rightarrow>
          (let m = SetManagedJobs (length jobs) (rst_metrics st);
               sch = Sync (rc_cron rc) (desired_loop rc (plans rc jobs) [] []) (rst_sched st);
               m = ForgetAbsent (\<lambda>a. a \<in> set (map job_App jobs)) m
           in (None, st\<lparr>rst_sched := sch, rst_metrics := ObserveReconcile (rclock rc st) True m\<rparr>)))"

section \<open>Runs\<close>

definition jitter :: "('w, 'c) reconciler \<Rightarrow> ctx \<Rightarrow> ('w, 'c) rstate \<Rightarrow> ('w, 'c) rstate" where
  "jitter rc x st =
     (if conf_ScheduleJitter (rc_cfg rc) \<le> 0 then st
      else snd (rcall (\<lambda>w. ((), rc_sleep rc x (conf_ScheduleJitter (rc_cfg rc)) w)) st))"

definition sendNotify :: "('w, 'c) reconciler \<Rightarrow> ndata \<Rightarrow> ('w, 'c) rstate \<Rightarrow> ('w, 'c) rstate" where
  "sendNotify rc d st =
     (if \<not> Notifier_Enabled (rc_notifier rc) then st
      else let d = d\<lparr>nd_Instance := conf_Instance (rc_cfg rc)\<rparr>
        in if nd_OK d \<and> (nd_Event d \<noteq> ''backup'' \<or> conf_NotifyOn (rc_cfg rc) \<noteq> ''always'') then st
           else snd (rcall (Notifier_Send (rc_notifier rc) d) st))"

text \<open>\<^verbatim>\<open>Duration.Round\<close> to a multiple of \<open>m\<close>, halves away from zero.\<close>

definition duration_Round :: "duration \<Rightarrow> duration \<Rightarrow> duration" where
  "duration_Round d m =
     (if m \<le> 0 then d
      else if d < 0 then (let r = (- d) mod m in if 2 * r < m then d + r else d - m + r)
      else (let r = d mod m in if 2 * r < m then d - r else d + m - r))"

definition event_data :: "string \<Rightarrow> string \<Rightarrow> string \<Rightarrow> duration \<Rightarrow> ndata" where
  "event_data event app tgt dur =
     empty_ndata\<lparr>nd_Event := event, nd_App := app, nd_Target := tgt, nd_Duration := duration_Round dur second\<rparr>"

definition runOnce ::
  "('w, 'c) reconciler \<Rightarrow> ctx \<Rightarrow> job \<Rightarrow> target \<Rightarrow> ('w, 'c) rstate \<Rightarrow> error option \<times> ('w, 'c) rstate" where
  "runOnce rc x j t st =
     (case RunTarget (rc_rt rc) (rc_orch rc) x j t (rst_orch st) of
        ((res, err), o1) \<Rightarrow>
          (let start = rclock rc st;
               st = st\<lparr>rst_orch := o1\<rparr>;
               now = rclock rc st;
               dur = now - start;
               d = event_data ''backup'' (job_App j) (tgt_Name t) dur;
               st = st\<lparr>rst_metrics := ObserveBackup now (job_App j) (tgt_Name t) (err = None) dur
                        (mr_FilesNew res) (mr_DataAddedBytes res) (rst_metrics st)\<rparr>
           in case err of
                Some e \<Rightarrow> (Some e, sendNotify rc (d\<lparr>nd_Error := rc_Error rc e\<rparr>) st)
              | None \<Rightarrow>
                  (None, sendNotify rc (d\<lparr>nd_OK := True, nd_SnapshotID := mr_SnapshotID res, nd_FilesNew := mr_FilesNew res,
                     nd_DataAdded := mr_DataAddedBytes res\<rparr>) st)))"

definition runCheck ::
  "('w, 'c) reconciler \<Rightarrow> ctx \<Rightarrow> string \<Rightarrow> target \<Rightarrow> ('w, 'c) rstate \<Rightarrow> error option \<times> ('w, 'c) rstate" where
  "runCheck rc x app t st =
     (case RunCheck (rc_rt rc) (rc_orch rc) x app t False (rst_orch st) of
        (err, o1) \<Rightarrow>
          (let start = rclock rc st;
               st = st\<lparr>rst_orch := o1\<rparr>;
               now = rclock rc st;
               st = st\<lparr>rst_metrics := ObserveCheck now app (tgt_Name t) (err = None) (rst_metrics st)\<rparr>
           in case err of
                Some e \<Rightarrow> (Some e, sendNotify rc ((event_data ''check'' app (tgt_Name t) (now - start))\<lparr>nd_Error := rc_Error rc e\<rparr>) st)
              | None \<Rightarrow> (None, st)))"

definition runPrune ::
  "('w, 'c) reconciler \<Rightarrow> ctx \<Rightarrow> string \<Rightarrow> target \<Rightarrow> ('w, 'c) rstate \<Rightarrow> error option \<times> ('w, 'c) rstate" where
  "runPrune rc x app t st =
     (case RunPrune (rc_rt rc) (rc_orch rc) x app t False (rst_orch st) of
        (err, o1) \<Rightarrow>
          (let start = rclock rc st;
               st = st\<lparr>rst_orch := o1\<rparr>;
               now = rclock rc st;
               st = st\<lparr>rst_metrics := ObservePrune now app (tgt_Name t) (err = None) (rst_metrics st)\<rparr>
           in case err of
                Some e \<Rightarrow> (Some e, sendNotify rc ((event_data ''prune'' app (tgt_Name t) (now - start))\<lparr>nd_Error := rc_Error rc e\<rparr>) st)
              | None \<Rightarrow> (None, st)))"

text \<open>What a scheduled closure does; its error is dropped.\<close>

definition fire :: "('w, 'c) reconciler \<Rightarrow> run_action \<Rightarrow> ('w, 'c) rstate \<Rightarrow> ('w, 'c) rstate" where
  "fire rc a st =
     (let st = jitter rc (rc_ctx rc) st
      in snd (case a of
           BackupAction j t \<Rightarrow> runOnce rc (rc_ctx rc) j t st
         | CheckAction app t \<Rightarrow> runCheck rc (rc_ctx rc) app t st
         | PruneAction app t \<Rightarrow> runPrune rc (rc_ctx rc) app t st))"

text \<open>The loop of the synchronous runs: every element is run, the errors are joined.\<close>

fun run_each :: "('a \<Rightarrow> 's \<Rightarrow> error option \<times> 's) \<Rightarrow> 'a list \<Rightarrow> error list \<Rightarrow> 's \<Rightarrow> error option \<times> 's" where
  "run_each f [] errs st = (errors_Join errs, st)"
| "run_each f (a # as) errs st =
     (case f a st of
        (Some e, st) \<Rightarrow> run_each f as (errs @ [e]) st
      | (None, st) \<Rightarrow> run_each f as errs st)"

section \<open>Selecting runs\<close>

fun filter_loop :: "plan list \<Rightarrow> string \<Rightarrow> string \<Rightarrow> plan list \<Rightarrow> bool \<Rightarrow> plan list \<times> bool" where
  "filter_loop [] app tgt out appSeen = (out, appSeen)"
| "filter_loop (p # ps) app tgt out appSeen =
     (if app \<noteq> [] \<and> plan_app p \<noteq> app then filter_loop ps app tgt out appSeen
      else filter_loop ps app tgt (if tgt = [] \<or> plan_tgt p = tgt then out @ [p] else out) True)"

definition filterPlans :: "plan list \<Rightarrow> string \<Rightarrow> string \<Rightarrow> plan list res" where
  "filterPlans ps app tgt =
     (case filter_loop ps app tgt [] False of
        (out, appSeen) \<Rightarrow>
          if out \<noteq> [] \<or> app = [] \<and> tgt = [] then Inr out
          else if app \<noteq> [] \<and> \<not> appSeen then Inl (Errorf ''no backup job for app %q'' [app])
          else if app \<noteq> [] then Inl (Errorf ''app %q does not back up to target %q'' [app, tgt])
          else Inl (Errorf ''no app backs up to target %q'' [tgt]))"

definition RunMatching ::
  "('w, 'c) reconciler \<Rightarrow> ctx \<Rightarrow> string \<Rightarrow> string \<Rightarrow> ('w, 'c) rstate \<Rightarrow> error option \<times> ('w, 'c) rstate" where
  "RunMatching rc x appFilter targetFilter st =
     (case rcall (rc_List rc x) st of
        (Inl e, st) \<Rightarrow> (Some e, st)
      | (Inr jobs, st) \<Rightarrow>
          (case filterPlans (plans rc jobs) appFilter targetFilter of
             Inl e \<Rightarrow> (Some e, st)
           | Inr ps \<Rightarrow> run_each (\<lambda>p. runOnce rc x (pl_job p) (pl_target p)) ps [] st))"

definition RunAll ::
  "('w, 'c) reconciler \<Rightarrow> ctx \<Rightarrow> string \<Rightarrow> ('w, 'c) rstate \<Rightarrow> error option \<times> ('w, 'c) rstate" where
  "RunAll rc x appFilter st = RunMatching rc x appFilter [] st"

fun find_job :: "job list \<Rightarrow> string \<Rightarrow> job option" where
  "find_job [] app = None"
| "find_job (j # js) app = (if job_App j = app then Some j else find_job js app)"

definition reconcile_resolve ::
  "('w, 'c) reconciler \<Rightarrow> ctx \<Rightarrow> string \<Rightarrow> string \<Rightarrow> ('w, 'c) rstate \<Rightarrow> (job \<times> target list) res \<times> ('w, 'c) rstate" where
  "reconcile_resolve rc x app targetName st =
     (case rcall (rc_List rc x) st of
        (Inl e, st) \<Rightarrow> (Inl e, st)
      | (Inr jobs, st) \<Rightarrow>
          (case find_job jobs app of
             None \<Rightarrow> (Inl (Errorf ''no backup job for app %q'' [app]), st)
           | Some j \<Rightarrow>
               if targetName = [] then (Inr (j, targetsFor rc j), st)
               else case find_target (targetsFor rc j) targetName of
                 Some t \<Rightarrow> (Inr (j, [t]), st)
               | None \<Rightarrow> (Inl (Errorf ''app %q does not back up to target %q'' [app, targetName]), st)))"

section \<open>The operations of the control API\<close>

definition ConfigTargets :: "('w, 'c) reconciler \<Rightarrow> target list" where
  "ConfigTargets rc = conf_Targets (rc_cfg rc)"

definition Jobs :: "('w, 'c) reconciler \<Rightarrow> ctx \<Rightarrow> ('w, 'c) rstate \<Rightarrow> job list res \<times> ('w, 'c) rstate" where
  "Jobs rc x st = rcall (rc_List rc x) st"

definition reconcile_Backup ::
  "('w, 'c) reconciler \<Rightarrow> ctx \<Rightarrow> string \<Rightarrow> string \<Rightarrow> ('w, 'c) rstate \<Rightarrow> error option \<times> ('w, 'c) rstate" where
  "reconcile_Backup rc x app targetName st =
     (case reconcile_resolve rc x app targetName st of
        (Inl e, st) \<Rightarrow> (Some e, st)
      | (Inr (j, ts), st) \<Rightarrow> run_each (runOnce rc x j) ts [] st)"

definition reconcile_Check ::
  "('w, 'c) reconciler \<Rightarrow> ctx \<Rightarrow> string \<Rightarrow> string \<Rightarrow> ('w, 'c) rstate \<Rightarrow> error option \<times> ('w, 'c) rstate" where
  "reconcile_Check rc x app targetName st =
     (case reconcile_resolve rc x app targetName st of
        (Inl e, st) \<Rightarrow> (Some e, st)
      | (Inr (j, ts), st) \<Rightarrow> run_each (runCheck rc x app) ts [] st)"

definition reconcile_Prune ::
  "('w, 'c) reconciler \<Rightarrow> ctx \<Rightarrow> string \<Rightarrow> string \<Rightarrow> ('w, 'c) rstate \<Rightarrow> error option \<times> ('w, 'c) rstate" where
  "reconcile_Prune rc x app targetName st =
     (case reconcile_resolve rc x app targetName st of
        (Inl e, st) \<Rightarrow> (Some e, st)
      | (Inr (j, ts), st) \<Rightarrow> run_each (runPrune rc x app) ts [] st)"

definition lift_orch :: "('w ostate \<Rightarrow> 'a \<times> 'w ostate) \<Rightarrow> ('w, 'c) rstate \<Rightarrow> 'a \<times> ('w, 'c) rstate" where
  "lift_orch f st = (case f (rst_orch st) of (r, o1) \<Rightarrow> (r, st\<lparr>rst_orch := o1\<rparr>))"

text \<open>\<^verbatim>\<open>targets[0]\<close> of an empty list would panic; a target name is required, so the list has one element.\<close>

definition reconcile_Snapshots ::
  "('w, 'c) reconciler \<Rightarrow> ctx \<Rightarrow> string \<Rightarrow> string \<Rightarrow> ('w, 'c) rstate \<Rightarrow> error option \<times> ('w, 'c) rstate" where
  "reconcile_Snapshots rc x app targetName st =
     (if targetName = [] then (Some (Errorf ''target is required'' []), st)
      else case reconcile_resolve rc x app targetName st of
        (Inl e, st) \<Rightarrow> (Some e, st)
      | (Inr (j, []), st) \<Rightarrow> (Some nil_deref, st)
      | (Inr (j, t # _), st) \<Rightarrow> lift_orch (RunSnapshots (rc_rt rc) (rc_orch rc) x app t) st)"

definition reconcile_Restore ::
  "('w, 'c) reconciler \<Rightarrow> ctx \<Rightarrow> string \<Rightarrow> string \<Rightarrow> restore_options \<Rightarrow> ('w, 'c) rstate \<Rightarrow> error option \<times> ('w, 'c) rstate" where
  "reconcile_Restore rc x app targetName opts st =
     (if targetName = [] then (Some (Errorf ''target is required'' []), st)
      else case reconcile_resolve rc x app targetName st of
        (Inl e, st) \<Rightarrow> (Some e, st)
      | (Inr (j, []), st) \<Rightarrow> (Some nil_deref, st)
      | (Inr (j, t # _), st) \<Rightarrow>
          lift_orch (RunRestore (rc_rt rc) (rc_orch rc) x app (if ro_Into opts = [] then Some j else None) t opts) st)"

definition orch_ListRuns :: "'w run_history \<Rightarrow> ctx \<Rightarrow> string \<Rightarrow> string \<Rightarrow> 'w \<Rightarrow> run_info list res \<times> 'w" where
  "orch_ListRuns rh x app tgt w = rh_ListRuns rh x app tgt w"

definition orch_GetRun :: "'w run_history \<Rightarrow> ctx \<Rightarrow> string \<Rightarrow> 'w \<Rightarrow> run_info option res \<times> 'w" where
  "orch_GetRun rh x i w = rh_GetRun rh x i w"

definition orch_RunLogs :: "'w run_history \<Rightarrow> ctx \<Rightarrow> string \<Rightarrow> 'w \<Rightarrow> (string \<times> error option) \<times> 'w" where
  "orch_RunLogs rh x i w = rh_RunLogs rh x i w"

definition reconcile_ListRuns ::
  "('w, 'c) reconciler \<Rightarrow> ctx \<Rightarrow> string \<Rightarrow> string \<Rightarrow> ('w, 'c) rstate \<Rightarrow> run_info list res \<times> ('w, 'c) rstate" where
  "reconcile_ListRuns rc x app tgt st = rcall (orch_ListRuns (rc_runs rc) x app tgt) st"

definition reconcile_GetRun ::
  "('w, 'c) reconciler \<Rightarrow> ctx \<Rightarrow> string \<Rightarrow> ('w, 'c) rstate \<Rightarrow> run_info option res \<times> ('w, 'c) rstate" where
  "reconcile_GetRun rc x i st = rcall (orch_GetRun (rc_runs rc) x i) st"

definition reconcile_RunLogs ::
  "('w, 'c) reconciler \<Rightarrow> ctx \<Rightarrow> string \<Rightarrow> ('w, 'c) rstate \<Rightarrow> (string \<times> error option) \<times> ('w, 'c) rstate" where
  "reconcile_RunLogs rc x i st = rcall (orch_RunLogs (rc_runs rc) x i) st"

section \<open>The schedule after a reconcile\<close>

definition nobar :: "string \<Rightarrow> bool" where
  "nobar s \<longleftrightarrow> CHR ''|'' \<notin> set s"

text \<open>Keys of names without a bar are distinct.\<close>

lemma key_inject:
  assumes "nobar a" "nobar a'" "nobar t" "nobar t'"
  shows "backup_key a t = backup_key a' t' \<longleftrightarrow> a = a' \<and> t = t'"
    "check_key a t = check_key a' t' \<longleftrightarrow> a = a' \<and> t = t'"
    "prune_key a t = prune_key a' t' \<longleftrightarrow> a = a' \<and> t = t'"
    "backup_key a t \<noteq> check_key a' t'" "backup_key a t \<noteq> prune_key a' t'" "check_key a t \<noteq> prune_key a' t'"
    "check_key a t \<noteq> backup_key a' t'" "prune_key a t \<noteq> backup_key a' t'" "prune_key a t \<noteq> check_key a' t'"
proof -
  have bar: "u \<noteq> v @ ''|'' @ w" if "nobar u" for u v w using that by (auto simp: nobar_def)
  show "backup_key a t = backup_key a' t' \<longleftrightarrow> a = a' \<and> t = t'" "check_key a t = check_key a' t' \<longleftrightarrow> a = a' \<and> t = t'"
    "prune_key a t = prune_key a' t' \<longleftrightarrow> a = a' \<and> t = t'"
    using assms by (simp_all add: nobar_def backup_key_def check_key_def prune_key_def append_Cons_eq_iff)
  have neq: "backup_key a t \<noteq> check_key a' t'" "backup_key a t \<noteq> prune_key a' t'" "check_key a t \<noteq> prune_key a' t'"
    if "nobar a" "nobar a'" "nobar t" "nobar t'" for a a' t t'
    using that bar[of t t' "''check''"] bar[of t t' "''prune''"]
    by (auto simp: nobar_def backup_key_def check_key_def prune_key_def append_Cons_eq_iff)
  show "backup_key a t \<noteq> check_key a' t'" "backup_key a t \<noteq> prune_key a' t'" "check_key a t \<noteq> prune_key a' t'"
    "check_key a t \<noteq> backup_key a' t'" "prune_key a t \<noteq> backup_key a' t'" "prune_key a t \<noteq> check_key a' t'"
    using neq[OF assms] neq[OF assms(2,1,4,3)] by simp_all
qed

text \<open>The map of desired jobs holds the last job of each key.\<close>

lemma sched_want_last: "map_of (sched_want ds) k = (case filter (\<lambda>j. sj_Key j = k) ds of [] \<Rightarrow> None | js \<Rightarrow> Some (last js))"
proof -
  have "map_of (fold (\<lambda>j m. AList.update (sj_Key j) j m) ds m) k
      = (case filter (\<lambda>j. sj_Key j = k) ds of [] \<Rightarrow> map_of m k | js \<Rightarrow> Some (last js))" for m
    by (induction ds arbitrary: m) (auto simp: update_conv split: list.splits)
  then show ?thesis by (simp add: sched_want_def split: list.split)
qed

definition due_backup :: "string \<Rightarrow> string \<Rightarrow> plan \<Rightarrow> bool" where
  "due_backup a t p \<longleftrightarrow> plan_app p = a \<and> plan_tgt p = t \<and> pl_schedule p \<noteq> []"

lemma desired_loop_append: "desired_loop rc ps sn d = d @ desired_loop rc ps sn []"
proof (induction ps arbitrary: sn d)
  case (Cons p ps)
  show ?case unfolding desired_loop.simps Let_def by (subst (1 2) Cons.IH) simp
qed simp

lemma desired_backup:
  assumes "\<forall>p\<in>set ps. nobar (plan_app p) \<and> nobar (plan_tgt p)" "nobar a" "nobar t"
  shows "filter (\<lambda>j. sj_Key j = backup_key a t) (desired_loop rc ps sn []) =
    (if backup_key a t \<in> set sn then [] else case find (due_backup a t) ps of None \<Rightarrow> [] | Some p \<Rightarrow> [backup_sjob rc p])"
  using assms(1)
proof (induction ps arbitrary: sn)
  case (Cons p ps)
  then have n: "nobar (plan_app p)" "nobar (plan_tgt p)" by simp_all
  note k = key_inject[OF n(1) assms(2) n(2) assms(3)]
  from Cons show ?case
    by (simp add: Let_def desired_loop_append[of rc ps _ "_ @ _"] backup_sjob_def check_sjob_def prune_sjob_def k key_inject(1)[OF assms(2) n(1) assms(3) n(2)] due_backup_def[of a t p]
        desired_loop_append[of rc ps _ "[_]"])
qed simp

lemma desired_check:
  assumes "\<forall>p\<in>set ps. nobar (plan_app p) \<and> nobar (plan_tgt p)" "nobar a" "nobar t"
  shows "filter (\<lambda>j. sj_Key j = check_key a t) (desired_loop rc ps sn []) =
      map check_sjob (filter (\<lambda>p. plan_app p = a \<and> plan_tgt p = t \<and> tgt_Check (pl_target p) \<noteq> []) ps)"
    and "filter (\<lambda>j. sj_Key j = prune_key a t) (desired_loop rc ps sn []) =
      map prune_sjob (filter (\<lambda>p. plan_app p = a \<and> plan_tgt p = t \<and> tgt_Prune (pl_target p) \<noteq> []) ps)"
proof -
  note d = Let_def desired_loop_append[of rc _ _ "_ @ _"] desired_loop_append[of rc _ _ "[_]"] backup_sjob_def check_sjob_def prune_sjob_def
  show "filter (\<lambda>j. sj_Key j = check_key a t) (desired_loop rc ps sn []) =
      map check_sjob (filter (\<lambda>p. plan_app p = a \<and> plan_tgt p = t \<and> tgt_Check (pl_target p) \<noteq> []) ps)"
    using assms(1)
  proof (induction ps arbitrary: sn)
    case (Cons p ps)
    with key_inject[of "plan_app p" a "plan_tgt p" t] assms(2,3) show ?case by (simp add: d)
  qed simp
  show "filter (\<lambda>j. sj_Key j = prune_key a t) (desired_loop rc ps sn []) =
      map prune_sjob (filter (\<lambda>p. plan_app p = a \<and> plan_tgt p = t \<and> tgt_Prune (pl_target p) \<noteq> []) ps)"
    using assms(1)
  proof (induction ps arbitrary: sn)
    case (Cons p ps)
    with key_inject[of "plan_app p" a "plan_tgt p" t] assms(2,3) show ?case by (simp add: d)
  qed simp
qed
lemma plans_names:
  assumes "\<forall>j\<in>set jobs. nobar (job_App j)" "\<forall>t\<in>set (conf_Targets (rc_cfg rc)). nobar (tgt_Name t)" "p \<in> set (plans rc jobs)"
  shows "nobar (plan_app p) \<and> nobar (plan_tgt p)"
    and "pl_target p \<in> set (conf_Targets (rc_cfg rc))"
proof -
  have found: "find_target ts n = Some t \<Longrightarrow> t \<in> set ts" for ts n t by (induction ts) (auto split: if_splits)
  have "t \<in> set (conf_Targets (rc_cfg rc))" if "t \<in> set (targetsFor rc j)" for j t
    using that found by (auto simp: targetsFor_def List.map_filter_def Config_Target_def split: if_splits)
  then show "pl_target p \<in> set (conf_Targets (rc_cfg rc))" "nobar (plan_app p) \<and> nobar (plan_tgt p)"
    using assms by (auto simp: plans_def plan_for_def plan_app_def plan_tgt_def)
qed

text \<open>Only valid expressions are active: the cron library accepted each.\<close>

definition sched_valid :: "('c \<Rightarrow> int \<rightharpoonup> string \<times> 'r) \<Rightarrow> (string \<Rightarrow> bool) \<Rightarrow> 'c sched \<Rightarrow> bool" where
  "sched_valid tab valid s \<longleftrightarrow> (\<forall>k sp fp r. active tab s k = Some (sp, fp, r) \<longrightarrow> valid sp)"

lemma sync_spec_None: "want k = None \<Longrightarrow> sync_spec valid want act k = None"
  by (simp add: sync_spec_def)

lemma sync_spec_Some:
  assumes "want k = Some j" "sched_valid tab valid s"
  shows "valid (sj_Schedule j) \<Longrightarrow> \<exists>r. sync_spec valid want (active tab s) k = Some (sj_Schedule j, sj_Fingerprint j, r) \<and>
           (r = sj_Run j \<or> active tab s k = Some (sj_Schedule j, sj_Fingerprint j, r))"
    "\<not> valid (sj_Schedule j) \<Longrightarrow> sync_spec valid want (active tab s) k = None"
proof -
  have old: "active tab s k = Some (sp, fp, r) \<Longrightarrow> valid sp" for sp fp r using assms(2) unfolding sched_valid_def by blast
  show "valid (sj_Schedule j) \<Longrightarrow> \<exists>r. sync_spec valid want (active tab s) k = Some (sj_Schedule j, sj_Fingerprint j, r) \<and>
           (r = sj_Run j \<or> active tab s k = Some (sj_Schedule j, sj_Fingerprint j, r))"
    "\<not> valid (sj_Schedule j) \<Longrightarrow> sync_spec valid want (active tab s) k = None"
    using assms(1) old by (auto simp: sync_spec_def split: option.splits)
qed

lemma Sync_valid:
  assumes "cron_ok lib tab valid" "sched_ok tab s" "sched_valid tab valid s"
  shows "sched_valid tab valid (Sync lib desired s)"
  using assms(3) unfolding sched_valid_def Sync_refines(2)[OF assms(1,2)]
  by (auto simp: sync_spec_def split: option.splits if_splits)

lemma Reconcile_ok:
  assumes "rc_List rc (rc_ctx rc) (os_world (rst_orch st)) = (Inr jobs, w)" "Reconcile rc st = (e, st')"
  shows "e = None" "rst_sched st' = Sync (rc_cron rc) (desired_loop rc (plans rc jobs) [] []) (rst_sched st)"
  using assms by (auto simp: Reconcile_def rcall_def ocall_def Let_def)

lemma Reconcile_error:
  assumes "rc_List rc (rc_ctx rc) (os_world (rst_orch st)) = (Inl err, w)" "Reconcile rc st = (e, st')"
  shows "e = Some err" "rst_sched st' = rst_sched st"
  using assms by (auto simp: Reconcile_def rcall_def ocall_def Let_def)

text \<open>One kind of tool job: present with the schedule of its target, or absent.\<close>

lemma tool_active:
  assumes "cron_ok lib tab valid" "sched_ok tab s" "sched_valid tab valid s"
    and key: "filter (\<lambda>j. sj_Key j = k) ds = map mk qs" and mk: "\<And>p. p \<in> set qs \<Longrightarrow> sj_Schedule (mk p) = f p \<and> sj_Fingerprint (mk p) = []"
    and same: "\<And>p q. p \<in> set qs \<Longrightarrow> q \<in> set qs \<Longrightarrow> f p = f q"
  shows "(\<exists>r. active tab (Sync lib ds s) k = Some (sp, [], r)) \<longleftrightarrow> (\<exists>p\<in>set qs. f p = sp \<and> valid sp)"
proof (cases "qs = []")
  case True
  with key have "map_of (sched_want ds) k = None" by (simp add: sched_want_last)
  with True show ?thesis by (simp add: Sync_refines(2)[OF assms(1,2)] sync_spec_None)
next
  case False
  then have q: "last qs \<in> set qs" by simp
  have want: "map_of (sched_want ds) k = Some (mk (last qs))"
    using False key by (cases qs) (simp_all add: sched_want_last last_map)
  note w = sync_spec_Some[of "map_of (sched_want ds)", OF want assms(3), folded Sync_refines(2)[OF assms(1,2)]]
  have mk: "sj_Schedule (mk (last qs)) = f (last qs)" "sj_Fingerprint (mk (last qs)) = []" using mk[OF q] by simp_all
  have "(\<exists>r. active tab (Sync lib ds s) k = Some (sp, [], r)) \<longleftrightarrow> f (last qs) = sp \<and> valid sp"
  proof (cases "valid (f (last qs))")
    case True
    with w(1) mk obtain r where "active tab (Sync lib ds s) k = Some (f (last qs), [], r)" by auto
    with True show ?thesis by auto
  next
    case False
    with w(2) mk have "active tab (Sync lib ds s) k = None" by simp
    with False show ?thesis by auto
  qed
  with same[OF q] q show ?thesis by metis
qed

text \<open>The backup job of one key: present with the schedule and fingerprint of its plan, or absent.\<close>

lemma planned_backup_active:
  assumes "cron_ok lib tab valid" "sched_ok tab s" "sched_valid tab valid s"
    and key: "filter (\<lambda>j. sj_Key j = k) ds = (case q of None \<Rightarrow> [] | Some p \<Rightarrow> [backup_sjob rc p])"
  shows "case q of
      None \<Rightarrow> active tab (Sync lib ds s) k = None
    | Some p \<Rightarrow>
        if valid (pl_schedule p)
        then \<exists>r. active tab (Sync lib ds s) k = Some (pl_schedule p, jobFingerprint rc (pl_job p) (pl_target p), r) \<and>
               (r = BackupAction (pl_job p) (pl_target p) \<or>
                active tab s k = Some (pl_schedule p, jobFingerprint rc (pl_job p) (pl_target p), r))
        else active tab (Sync lib ds s) k = None"
proof (cases q)
  case None
  with key have "map_of (sched_want ds) k = None" by (simp add: sched_want_last)
  with None show ?thesis by (simp add: Sync_refines(2)[OF assms(1,2)] sync_spec_None)
next
  case (Some p)
  with key have "map_of (sched_want ds) k = Some (backup_sjob rc p)" by (simp add: sched_want_last)
  note w = sync_spec_Some[of "map_of (sched_want ds)", OF this assms(3), folded Sync_refines(2)[OF assms(1,2)], unfolded backup_sjob_def, simplified]
  show ?thesis using w(1) w(2) unfolding Some option.case by (cases "valid (pl_schedule p)") simp_all
qed


text \<open>A reconciler for the examples: one app with a nightly backup and a weekly check.\<close>

definition demo_plan_target :: target where
  "demo_plan_target = demo_target\<lparr>tgt_Schedule := ''0 0 3 * * *'', tgt_Check := ''0 0 5 * * 0''\<rparr>"

definition demo_rc :: "(unit, (int \<times> string \<times> run_action) list) reconciler" where
  "demo_rc = \<lparr>rc_ctx = Caller, rc_List = (\<lambda>x w. (Inr [demo_job], w)), rc_rt = demo_rt, rc_orch = demo_oc,
     rc_runs = \<lparr>rh_ListRuns = (\<lambda>x a t w. (Inr [], w)), rh_GetRun = (\<lambda>x i w. (Inr None, w)), rh_RunLogs = (\<lambda>x i w. (([], None), w))\<rparr>,
     rc_cfg = (o_cfg demo_oc)\<lparr>conf_Targets := [demo_plan_target]\<rparr>, rc_cron = demo_cron, rc_notifier = None,
     rc_marshal = (\<lambda>ss sp t. ''fp''), rc_Error = (\<lambda>e. ''error''), rc_sleep = (\<lambda>x d w. w)\<rparr>"

lemma demo_rc_simps:
  "rc_cron demo_rc = demo_cron" "rc_List demo_rc x w = (Inr [demo_job], w)" "conf_Targets (rc_cfg demo_rc) = [demo_plan_target]"
  "tgt_Name demo_plan_target = ''nas''" "tgt_Check demo_plan_target = ''0 0 5 * * 0''" "tgt_Schedule demo_plan_target = ''0 0 3 * * *''"
  "job_App demo_job = ''shop''" "jobFingerprint demo_rc j t = ''fp''" "rc_notifier demo_rc = None"
  by (simp_all add: demo_rc_def demo_plan_target_def demo_target_def demo_job_def jobFingerprint_def)

lemma demo_plans: "plans demo_rc [demo_job] = [\<lparr>pl_job = demo_job, pl_target = demo_plan_target, pl_schedule = ''0 0 3 * * *''\<rparr>]"
proof -
  have "spec_Targets (job_Spec demo_job) = []" by (simp add: demo_job_def empty_spec_def)
  then show ?thesis by (simp add: plans_def targetsFor_def plan_for_def TargetOverride_def demo_rc_simps)
qed

lemma sched_New_ok: "sched_ok tab (sched_New c)" "sched_valid tab valid (sched_New c)" if "tab c = Map.empty"
  using that by (simp_all add: sched_ok_def sched_valid_def sched_New_def active_def)

lemma demo_reconciled: "Reconcile demo_rc st = (None, snd (Reconcile demo_rc st))"
  by (simp add: Reconcile_def rcall_def ocall_def demo_rc_simps Let_def)


text \<open>
  C39. The fingerprint leaves out where the app runs: when a service moves to another node and nothing else of its job
  changes, a reconcile keeps the entry registered for the old node, so the scheduled backup still runs the job with the
  old node (and the mover is pinned there), although discovery now reports the new one.
\<close>

theorem reconcile_keeps_stale_node:
  assumes "cron_ok (rc_cron rc) tab valid" "sched_ok tab (rst_sched st)"
    and "rc_List rc (rc_ctx rc) (os_world (rst_orch st)) = (Inr jobs, w)" "Reconcile rc st = (e, st')"
    and "\<forall>j\<in>set jobs. nobar (job_App j)" "\<forall>t\<in>set (conf_Targets (rc_cfg rc)). nobar (tgt_Name t)" "nobar a" "nobar t"
    and "find (due_backup a t) (plans rc jobs) = Some p"
    and "active tab (rst_sched st) (backup_key a t) =
      Some (pl_schedule p, jobFingerprint rc ((pl_job p)\<lparr>job_Node := old\<rparr>) (pl_target p), BackupAction ((pl_job p)\<lparr>job_Node := old\<rparr>) (pl_target p))"
  shows "active tab (rst_sched st') (backup_key a t) =
      Some (pl_schedule p, jobFingerprint rc (pl_job p) (pl_target p), BackupAction ((pl_job p)\<lparr>job_Node := old\<rparr>) (pl_target p))"
proof -
  have names: "\<forall>p\<in>set (plans rc jobs). nobar (plan_app p) \<and> nobar (plan_tgt p)" using plans_names(1)[OF assms(5,6)] by blast
  have "map_of (sched_want (desired_loop rc (plans rc jobs) [] [])) (backup_key a t) = Some (backup_sjob rc p)"
    using desired_backup[OF names assms(7,8), of rc "[]"] assms(9) by (simp add: sched_want_last)
  with assms(10) show ?thesis
    by (simp add: Reconcile_ok(2)[OF assms(3,4)] Sync_refines(2)[OF assms(1,2)] sync_spec_def backup_sjob_def jobFingerprint_def)
qed

theorem reconcile_keeps_stale_node_witness:
  "let st = (reconcile_New () [] ''dev'')\<lparr>rst_sched := \<lparr>sc_cron = [(1, ''0 0 3 * * *'', BackupAction (demo_job\<lparr>job_Node := ''n1''\<rparr>) demo_plan_target)],
       sc_entries = [(''shop|nas'', \<lparr>en_id = 1, en_schedule = ''0 0 3 * * *'', en_fingerprint = ''fp''\<rparr>)]\<rparr>\<rparr>
   in active map_of (rst_sched (snd (Reconcile demo_rc st))) ''shop|nas''
        = Some (''0 0 3 * * *'', ''fp'', BackupAction (demo_job\<lparr>job_Node := ''n1''\<rparr>) demo_plan_target)"
proof -
  let ?s = "\<lparr>sc_cron = [(1, ''0 0 3 * * *'', BackupAction (demo_job\<lparr>job_Node := ''n1''\<rparr>) demo_plan_target)],
       sc_entries = [(''shop|nas'', \<lparr>en_id = 1, en_schedule = ''0 0 3 * * *'', en_fingerprint = ''fp''\<rparr>)]\<rparr>"
  let ?st = "(reconcile_New () [] ''dev'')\<lparr>rst_sched := ?s\<rparr>"
  let ?p = "\<lparr>pl_job = demo_job, pl_target = demo_plan_target, pl_schedule = ''0 0 3 * * *''\<rparr>"
  have s: "sched_ok map_of (rst_sched ?st)" by (auto simp: sched_ok_def dom_def)
  have l: "rc_List demo_rc (rc_ctx demo_rc) (os_world (rst_orch ?st)) = (Inr [demo_job], os_world (rst_orch ?st))"
    by (simp add: demo_rc_simps)
  have n: "nobar ''shop''" "nobar ''nas''" by (simp_all add: nobar_def)
  have f: "find (due_backup ''shop'' ''nas'') (plans demo_rc [demo_job]) = Some ?p"
    by (simp add: demo_plans due_backup_def plan_app_def plan_tgt_def demo_rc_simps)
  have a: "active map_of (rst_sched ?st) (backup_key ''shop'' ''nas'') = Some (pl_schedule ?p,
      jobFingerprint demo_rc ((pl_job ?p)\<lparr>job_Node := ''n1''\<rparr>) (pl_target ?p), BackupAction ((pl_job ?p)\<lparr>job_Node := ''n1''\<rparr>) (pl_target ?p))"
    by (simp add: active_def backup_key_def demo_rc_simps)
  from reconcile_keeps_stale_node[OF _ s l demo_reconciled _ _ n f a] demo_cron_ok show ?thesis
    by (simp add: demo_rc_simps n backup_key_def)
qed
section \<open>Selected runs\<close>

lemma filter_loop_eq:
  "filter_loop ps app tgt out sn =
     (out @ filter (\<lambda>p. (app = [] \<or> plan_app p = app) \<and> (tgt = [] \<or> plan_tgt p = tgt)) ps,
      sn \<or> (\<exists>p\<in>set ps. app = [] \<or> plan_app p = app))"
  by (induction ps app tgt out sn rule: filter_loop.induct) auto

lemma filterPlans_app:
  assumes "app \<noteq> []"
  shows "filterPlans ps app tgt =
     (let mine = filter (\<lambda>p. plan_app p = app) ps; sel = filter (\<lambda>p. tgt = [] \<or> plan_tgt p = tgt) mine
      in if sel \<noteq> [] then Inr sel
         else if mine = [] then Inl (Errorf ''no backup job for app %q'' [app])
         else Inl (Errorf ''app %q does not back up to target %q'' [app, tgt]))"
  using assms by (auto simp: filterPlans_def filter_loop_eq Let_def filter_empty_conv conj_commute)

lemma run_each_map: "run_each f (map g xs) errs st = run_each (\<lambda>x. f (g x)) xs errs st"
  by (induction xs arbitrary: errs st) (auto split: option.splits prod.splits)

lemma plan_for_simps [simp]:
  "plan_app (plan_for j t) = job_App j" "plan_tgt (plan_for j t) = tgt_Name t" "pl_job (plan_for j t) = j" "pl_target (plan_for j t) = t"
  by (simp_all add: plan_for_def plan_app_def plan_tgt_def)

lemma find_job_None: "app \<notin> job_App ` set jobs \<Longrightarrow> find_job jobs app = None"
  by (induction jobs) auto

lemma plans_of_app:
  assumes "distinct (map job_App jobs)"
  shows "filter (\<lambda>p. plan_app p = app) (plans rc jobs) =
     (case find_job jobs app of None \<Rightarrow> [] | Some j \<Rightarrow> map (plan_for j) (targetsFor rc j))"
proof -
  have other: "filter (\<lambda>p. plan_app p = app) (plans rc js) = []" if "app \<notin> set (map job_App js)" for js
    using that by (auto simp: plans_def filter_empty_conv)
  have same: "filter (\<lambda>p. plan_app p = app) (map (plan_for j) ts) = (if job_App j = app then map (plan_for j) ts else [])" for j ts
    by (induction ts) auto
  show ?thesis using assms
  proof (induction jobs)
    case (Cons j js)
    have "plans rc (j # js) = map (plan_for j) (targetsFor rc j) @ plans rc js" by (simp add: plans_def)
    with Cons show ?case by (auto simp: same other find_job_None)
  qed (simp add: plans_def)
qed

lemma plans_of_target:
  assumes "distinct (map tgt_Name ts)"
  shows "filter (\<lambda>p. plan_tgt p = tgt) (map (plan_for j) ts) = (case find_target ts tgt of None \<Rightarrow> [] | Some t \<Rightarrow> [plan_for j t])"
  using assms by (induction ts) (auto simp: find_target_None[THEN iffD2])

lemma find_job_Some: "find_job jobs app = Some j \<Longrightarrow> j \<in> set jobs \<and> job_App j = app"
  by (induction jobs) (auto split: if_splits)

text \<open>
  A backup requested over the control API is the backup of the command: for an app that discovery finds under one job, whose
  targets exist and have distinct names, both run the same backups in the same order with the same joined error and the same
  effects, and refuse an unknown app or a target the app does not use with the same error.
\<close>

theorem api_backup_is_command_backup:
  assumes "rc_List rc x (os_world (rst_orch st)) = (Inr jobs, w)" "distinct (map job_App jobs)" "app \<noteq> []"
    and "\<forall>j\<in>set jobs. targetsFor rc j \<noteq> [] \<and> distinct (map tgt_Name (targetsFor rc j))"
  shows "reconcile_Backup rc x app tgt st = RunMatching rc x app tgt st"
proof (cases "find_job jobs app")
  case None
  with assms(1,3) plans_of_app[OF assms(2), of app rc] show ?thesis
    by (simp add: reconcile_Backup_def reconcile_resolve_def RunMatching_def rcall_def ocall_def filterPlans_app)
next
  case (Some j)
  have t: "targetsFor rc j \<noteq> []" "distinct (map tgt_Name (targetsFor rc j))" using assms(4) find_job_Some[OF Some] by blast+
  have p: "filter (\<lambda>p. plan_app p = app) (plans rc jobs) = map (plan_for j) (targetsFor rc j)"
    using plans_of_app[OF assms(2), of app rc] Some by simp
  show ?thesis
  proof (cases "tgt = []")
    case True
    with assms(1,3) p t(1) Some show ?thesis
      by (simp add: reconcile_Backup_def reconcile_resolve_def RunMatching_def rcall_def ocall_def filterPlans_app run_each_map)
  next
    case False
    with assms(1,3) p t(1) Some plans_of_target[OF t(2), of tgt j] show ?thesis
      by (cases "find_target (targetsFor rc j) tgt")
        (simp_all add: reconcile_Backup_def reconcile_resolve_def RunMatching_def rcall_def ocall_def filterPlans_app split: prod.split option.split)
  qed
qed

theorem api_backup_is_command_backup_witness:
  "reconcile_Backup demo_rc Caller ''shop'' ''nas'' (reconcile_New () [] ''dev'') = RunMatching demo_rc Caller ''shop'' ''nas'' (reconcile_New () [] ''dev'')"
proof (rule api_backup_is_command_backup)
  have "spec_Targets (job_Spec demo_job) = []" by (simp add: demo_job_def empty_spec_def)
  then show "\<forall>j\<in>set [demo_job]. targetsFor demo_rc j \<noteq> [] \<and> distinct (map tgt_Name (targetsFor demo_rc j))"
    by (simp add: targetsFor_def demo_rc_simps)
qed (simp_all add: demo_rc_simps)

section \<open>What a run records\<close>

lemma sendNotify_other: "rst_sched (sendNotify rc d st) = rst_sched st" "rst_metrics (sendNotify rc d st) = rst_metrics st"
  by (simp_all add: sendNotify_def rcall_def ocall_def Let_def split: prod.split)

lemma sendNotify_world:
  "rst_orch (sendNotify rc d st) = (rst_orch st)\<lparr>os_world :=
     (case rc_notifier rc of
        None \<Rightarrow> os_world (rst_orch st)
      | Some n \<Rightarrow>
          let d = d\<lparr>nd_Instance := conf_Instance (rc_cfg rc)\<rparr>
          in if nd_OK d \<and> (nd_Event d \<noteq> ''backup'' \<or> conf_NotifyOn (rc_cfg rc) \<noteq> ''always'') then os_world (rst_orch st)
             else snd (nt_sr n (render (nt_body n) d (body_fallback d)) (render (nt_title n) d (title_fallback d)) (os_world (rst_orch st))))\<rparr>"
  by (auto simp: sendNotify_def Notifier_Enabled_def Notifier_Send_def rcall_def ocall_def Let_def split: option.split prod.split)

text \<open>
  C22. Every backup run is accounted for: its error is the orchestrator's; the counter of its app, target and result goes up
  by one and no other series of that counter changes; the time of the last success moves exactly on success; and the
  alert is delivered once through the configured sender - always for a failure, with the text of the error, and for a success only
  when notifications are set to always - whether or not the templates render.
\<close>

theorem run_outcome_recorded:
  assumes "RunTarget (rc_rt rc) (rc_orch rc) x j t (rst_orch st) = ((res, err), o1)"
    and "runOnce rc x j t st = (e, st')"
  shows "e = err \<and> rst_sched st' = rst_sched st \<and>
    mt_backups (rst_metrics st') = inc (job_App j, tgt_Name t, if err = None then ''success'' else ''error'') (mt_backups (rst_metrics st)) \<and>
    mt_lastSuccess (rst_metrics st') =
      (if err = None then (mt_lastSuccess (rst_metrics st))((job_App j, tgt_Name t) \<mapsto> rt_now (rc_rt rc) (os_world o1))
       else mt_lastSuccess (rst_metrics st)) \<and>
    (\<exists>d. nd_Event d = ''backup'' \<and> nd_App d = job_App j \<and> nd_Target d = tgt_Name t \<and> nd_Instance d = conf_Instance (rc_cfg rc) \<and>
       nd_OK d = (err = None) \<and> nd_Error d = (case err of None \<Rightarrow> [] | Some er \<Rightarrow> rc_Error rc er) \<and>
       rst_orch st' = o1\<lparr>os_world :=
         (case rc_notifier rc of
            None \<Rightarrow> os_world o1
          | Some n \<Rightarrow>
              if err = None \<and> conf_NotifyOn (rc_cfg rc) \<noteq> ''always'' then os_world o1
              else snd (nt_sr n (render (nt_body n) d (body_fallback d)) (render (nt_title n) d (title_fallback d)) (os_world o1)))\<rparr>)"
proof -
  define dur where "dur = rt_now (rc_rt rc) (os_world o1) - rclock rc st"
  define d where "d = (event_data ''backup'' (job_App j) (tgt_Name t) dur)\<lparr>nd_Instance := conf_Instance (rc_cfg rc)\<rparr>"
  note defs = runOnce_def Let_def rclock_def ObserveBackup_def markSeen_def result_label_def sendNotify_other sendNotify_world
    event_data_def empty_ndata_def d_def dur_def
  show ?thesis
  proof (cases err)
    case (Some er)
    let ?d = "d\<lparr>nd_Error := rc_Error rc er\<rparr>"
    show ?thesis using assms Some by (auto simp: defs intro!: exI[of _ ?d] split: option.split)
  next
    case None
    let ?d = "d\<lparr>nd_OK := True, nd_SnapshotID := mr_SnapshotID res, nd_FilesNew := mr_FilesNew res, nd_DataAdded := mr_DataAddedBytes res\<rparr>"
    show ?thesis using assms None by (auto simp: defs intro!: exI[of _ ?d] split: option.split)
  qed
qed

theorem run_outcome_recorded_witness:
  "mt_backups (rst_metrics (snd (runOnce demo_rc Caller demo_job demo_target (reconcile_New () [] ''dev'')))) (''shop'', ''nas'', ''success'') = Some 1"
proof -
  let ?st = "reconcile_New () [] ''dev'' :: (unit, (int \<times> string \<times> run_action) list) rstate"
  have ok: "snd (fst (RunTarget demo_rt demo_oc Caller demo_job demo_target (orch_New ()))) = None" by code_simp
  obtain res err o1 where r: "RunTarget (rc_rt demo_rc) (rc_orch demo_rc) Caller demo_job demo_target (rst_orch ?st) = ((res, err), o1)"
    by (metis prod.exhaust)
  moreover from r ok have "err = None" by (simp add: demo_rc_def reconcile_New_def)
  ultimately show ?thesis
    using run_outcome_recorded[OF r surjective_pairing]
    by (simp add: demo_rc_simps demo_target_def reconcile_New_def metrics_New_def inc_def)
qed

end
