(* ===== verification/Remote_Api.thy ===== *)
theory Remote_Api
  imports Reconcile
begin

text \<open>
  \<^verbatim>\<open>internal/remote/api/v1\<close>: the control API over the operations of the reconciler. A request is its method, the unescaped
  segments of its path, its query, its \<^verbatim>\<open>Authorization\<close> header and its body; an answer is a status with a body. What a POST starts
  in the background is a value, \<open>op\<close>, that \<open>run_op\<close> executes. The JSON of the answers and the restic output of
  a snapshot list are not modelled.
\<close>

section \<open>Requests and answers\<close>

record http_request =
  hr_Method :: string
  hr_Path :: "string list"
  hr_Query :: "(string, string) gomap"
  hr_Authorization :: string
  hr_Body :: string

record target_view =
  tv_Name :: string
  tv_Backend :: backend
  tv_Path :: string
  tv_Repo :: string
  tv_Schedule :: string
  tv_Check :: string
  tv_Prune :: string
  tv_Retention :: retention

record source_view =
  sv_Name :: string
  sv_Type :: mount_type
  sv_Ref :: string

record job_view =
  jv_App :: string
  jv_Container :: string
  jv_Snapshot :: string
  jv_Targets :: "string list"
  jv_Tags :: "string list"
  jv_Stop :: bool
  jv_Sources :: "source_view list"

datatype http_body =
    BError string
  | BConfig "target_view list"
  | BJobs "job_view list"
  | BSnapshots string string
  | BRuns "run_info list"
  | BRun run_info
  | BText string
  | BAccepted string string string

record restore_json =
  rb_Target :: string
  rb_Snapshot :: string
  rb_Into :: string
  rb_Stop :: bool
  rb_Include :: "string list"

datatype op =
    OpBackup string string
  | OpCheck string string
  | OpPrune string string
  | OpRestore string string restore_options

text \<open>
  \<open>srv_decode\<close> decodes a restore body: an error, \<open>None\<close> at the end of an empty body, or the body. \<open>srv_ctx\<close> is the long-lived
  context of the operations.
\<close>

record server =
  srv_token :: string
  srv_decode :: "string \<Rightarrow> restore_json option res"
  srv_ctx :: ctx

definition empty_restore_json :: restore_json where
  "empty_restore_json = \<lparr>rb_Target = [], rb_Snapshot = [], rb_Into = [], rb_Stop = False, rb_Include = []\<rparr>"

definition query_get :: "http_request \<Rightarrow> string \<Rightarrow> string" where
  "query_get r k = lookup_str (hr_Query r) k"

section \<open>Views\<close>

definition targetView :: "target \<Rightarrow> target_view" where
  "targetView t = \<lparr>tv_Name = tgt_Name t, tv_Backend = Target_Backend t, tv_Path = tgt_Path t, tv_Repo = tgt_Repo t,
     tv_Schedule = tgt_Schedule t, tv_Check = tgt_Check t, tv_Prune = tgt_Prune t, tv_Retention = tgt_Retention t\<rparr>"

definition targetViews :: "target list \<Rightarrow> target_view list" where
  "targetViews ts = map targetView ts"

definition sourceView :: "source \<Rightarrow> source_view" where
  "sourceView s = \<lparr>sv_Name = src_Name s, sv_Type = src_Type s, sv_Ref = src_Ref s\<rparr>"

definition jobView :: "job \<Rightarrow> job_view" where
  "jobView j = \<lparr>jv_App = job_App j, jv_Container = job_Container j, jv_Snapshot = spec_Snapshot (job_Spec j),
     jv_Targets = TargetNames (job_Spec j), jv_Tags = spec_Tags (job_Spec j), jv_Stop = spec_Stop (job_Spec j),
     jv_Sources = map sourceView (job_Sources j)\<rparr>"

definition jobViews :: "job list \<Rightarrow> job_view list" where
  "jobViews js = map jobView js"

section \<open>Handlers\<close>

type_synonym ('w, 'c) answer = "(nat \<times> http_body \<times> op option) \<times> ('w, 'c) rstate"

definition getConfig :: "('w, 'c) reconciler \<Rightarrow> ('w, 'c) rstate \<Rightarrow> ('w, 'c) answer" where
  "getConfig rc st = ((200, BConfig (targetViews (ConfigTargets rc)), None), st)"

definition getJobs :: "('w, 'c) reconciler \<Rightarrow> ctx \<Rightarrow> ('w, 'c) rstate \<Rightarrow> ('w, 'c) answer" where
  "getJobs rc x st =
     (case Jobs rc x st of
        (Inl e, st) \<Rightarrow> ((500, BError (rc_Error rc e), None), st)
      | (Inr jobs, st) \<Rightarrow> ((200, BJobs (jobViews jobs), None), st))"

definition getSnapshots :: "('w, 'c) reconciler \<Rightarrow> ctx \<Rightarrow> string \<Rightarrow> string \<Rightarrow> ('w, 'c) rstate \<Rightarrow> ('w, 'c) answer" where
  "getSnapshots rc x app tgt st =
     (case reconcile_Snapshots rc x app tgt st of
        (Some e, st) \<Rightarrow> ((400, BError (rc_Error rc e), None), st)
      | (None, st) \<Rightarrow> ((200, BSnapshots app tgt, None), st))"

definition getRuns :: "('w, 'c) reconciler \<Rightarrow> ctx \<Rightarrow> string \<Rightarrow> string \<Rightarrow> ('w, 'c) rstate \<Rightarrow> ('w, 'c) answer" where
  "getRuns rc x app tgt st =
     (case reconcile_ListRuns rc x app tgt st of
        (Inl e, st) \<Rightarrow> ((500, BError (rc_Error rc e), None), st)
      | (Inr runs, st) \<Rightarrow> ((200, BRuns runs, None), st))"

definition getRun :: "('w, 'c) reconciler \<Rightarrow> ctx \<Rightarrow> string \<Rightarrow> ('w, 'c) rstate \<Rightarrow> ('w, 'c) answer" where
  "getRun rc x i st =
     (case reconcile_GetRun rc x i st of
        (Inl e, st) \<Rightarrow> ((500, BError (rc_Error rc e), None), st)
      | (Inr None, st) \<Rightarrow> ((404, BError ''run not found'', None), st)
      | (Inr (Some run), st) \<Rightarrow> ((200, BRun run, None), st))"

definition getRunLogs :: "('w, 'c) reconciler \<Rightarrow> ctx \<Rightarrow> string \<Rightarrow> ('w, 'c) rstate \<Rightarrow> ('w, 'c) answer" where
  "getRunLogs rc x i st =
     (case reconcile_GetRun rc x i st of
        (Inl e, st) \<Rightarrow> ((500, BError (rc_Error rc e), None), st)
      | (Inr None, st) \<Rightarrow> ((404, BError ''run not found'', None), st)
      | (Inr (Some run), st) \<Rightarrow>
          (case reconcile_RunLogs rc x i st of ((out, _), st) \<Rightarrow> ((200, BText out, None), st)))"

text \<open>A trigger answers at once and leaves the operation to the background.\<close>

definition trigger :: "string \<Rightarrow> string \<Rightarrow> string \<Rightarrow> op \<Rightarrow> ('w, 'c) rstate \<Rightarrow> ('w, 'c) answer" where
  "trigger name app tgt o1 st = ((202, BAccepted name app tgt, Some o1), st)"

definition postBackup :: "string \<Rightarrow> string \<Rightarrow> ('w, 'c) rstate \<Rightarrow> ('w, 'c) answer" where
  "postBackup app tgt st = trigger ''backup'' app tgt (OpBackup app tgt) st"

definition postCheck :: "string \<Rightarrow> string \<Rightarrow> ('w, 'c) rstate \<Rightarrow> ('w, 'c) answer" where
  "postCheck app tgt st = trigger ''check'' app tgt (OpCheck app tgt) st"

definition postPrune :: "string \<Rightarrow> string \<Rightarrow> ('w, 'c) rstate \<Rightarrow> ('w, 'c) answer" where
  "postPrune app tgt st = trigger ''prune'' app tgt (OpPrune app tgt) st"

definition postRestore :: "server \<Rightarrow> string \<Rightarrow> string \<Rightarrow> ('w, 'c) rstate \<Rightarrow> ('w, 'c) answer" where
  "postRestore srv app body st =
     (case srv_decode srv body of
        Inl _ \<Rightarrow> ((400, BError ''invalid JSON body'', None), st)
      | Inr b \<Rightarrow>
          (let b = (case b of Some b \<Rightarrow> b | None \<Rightarrow> empty_restore_json)
           in if rb_Target b = [] then ((400, BError ''target is required'', None), st)
              else trigger ''restore'' app (rb_Target b)
                (OpRestore app (rb_Target b)
                  \<lparr>ro_Snapshot = rb_Snapshot b, ro_Into = rb_Into b, ro_Stop = rb_Stop b, ro_Include = rb_Include b\<rparr>) st))"

definition run_op :: "('w, 'c) reconciler \<Rightarrow> server \<Rightarrow> op \<Rightarrow> ('w, 'c) rstate \<Rightarrow> ('w, 'c) rstate" where
  "run_op rc srv o1 st =
     snd (case o1 of
       OpBackup app tgt \<Rightarrow> reconcile_Backup rc (srv_ctx srv) app tgt st
     | OpCheck app tgt \<Rightarrow> reconcile_Check rc (srv_ctx srv) app tgt st
     | OpPrune app tgt \<Rightarrow> reconcile_Prune rc (srv_ctx srv) app tgt st
     | OpRestore app tgt opts \<Rightarrow> reconcile_Restore rc (srv_ctx srv) app tgt opts st)"

section \<open>Routing and authentication\<close>

text \<open>A GET pattern also matches HEAD; a path that only another method has is 405. A wildcard matches one non-empty segment.\<close>

definition is_get :: "http_request \<Rightarrow> bool" where
  "is_get r \<longleftrightarrow> hr_Method r = ''GET'' \<or> hr_Method r = ''HEAD''"

definition method_not_allowed :: "('w, 'c) rstate \<Rightarrow> ('w, 'c) answer" where
  "method_not_allowed st = ((405, BText ''Method Not Allowed'', None), st)"

definition not_found :: "('w, 'c) rstate \<Rightarrow> ('w, 'c) answer" where
  "not_found st = ((404, BText ''404 page not found'', None), st)"

definition on_get :: "http_request \<Rightarrow> ('w, 'c) answer \<Rightarrow> ('w, 'c) rstate \<Rightarrow> ('w, 'c) answer" where
  "on_get r a st = (if is_get r then a else method_not_allowed st)"

definition on_post :: "http_request \<Rightarrow> ('w, 'c) answer \<Rightarrow> ('w, 'c) rstate \<Rightarrow> ('w, 'c) answer" where
  "on_post r a st = (if hr_Method r = ''POST'' then a else method_not_allowed st)"

definition app_route :: "('w, 'c) reconciler \<Rightarrow> server \<Rightarrow> ctx \<Rightarrow> http_request \<Rightarrow> string \<Rightarrow> string \<Rightarrow> ('w, 'c) rstate \<Rightarrow> ('w, 'c) answer" where
  "app_route rc srv x r app action st =
     (let tgt = query_get r ''target''
      in if action = ''snapshots'' then on_get r (getSnapshots rc x app tgt st) st
         else if action = ''backup'' then on_post r (postBackup app tgt st) st
         else if action = ''check'' then on_post r (postCheck app tgt st) st
         else if action = ''prune'' then on_post r (postPrune app tgt st) st
         else if action = ''restore'' then on_post r (postRestore srv app (hr_Body r) st) st
         else not_found st)"

definition route :: "('w, 'c) reconciler \<Rightarrow> server \<Rightarrow> ctx \<Rightarrow> http_request \<Rightarrow> ('w, 'c) rstate \<Rightarrow> ('w, 'c) answer" where
  "route rc srv x r st =
     (case hr_Path r of
        [a, v, p] \<Rightarrow>
          if (a, v) \<noteq> (''api'', ''v1'') then not_found st
          else if p = ''config'' then on_get r (getConfig rc st) st
          else if p = ''jobs'' then on_get r (getJobs rc x st) st
          else if p = ''runs'' then on_get r (getRuns rc x (query_get r ''app'') (query_get r ''target'') st) st
          else not_found st
      | [a, v, p, i] \<Rightarrow>
          if (a, v) = (''api'', ''v1'') \<and> p = ''runs'' \<and> i \<noteq> [] then on_get r (getRun rc x i st) st else not_found st
      | [a, v, p, i, q] \<Rightarrow>
          if (a, v) \<noteq> (''api'', ''v1'') \<or> i = [] then not_found st
          else if p = ''runs'' \<and> q = ''logs'' then on_get r (getRunLogs rc x i st) st
          else if p = ''apps'' then app_route rc srv x r i q st
          else not_found st
      | _ \<Rightarrow> not_found st)"

definition authorized :: "server \<Rightarrow> http_request \<Rightarrow> bool" where
  "authorized srv r \<longleftrightarrow>
     (if length (srv_token srv) > 0
      then case CutPrefix (hr_Authorization r) ''Bearer '' of Some tok \<Rightarrow> tok = srv_token srv | None \<Rightarrow> False
      else True)"

definition Handler :: "('w, 'c) reconciler \<Rightarrow> server \<Rightarrow> ctx \<Rightarrow> http_request \<Rightarrow> ('w, 'c) rstate \<Rightarrow> ('w, 'c) answer" where
  "Handler rc srv x r st =
     (if authorized srv r then route rc srv x r st else ((401, BError ''unauthorized'', None), st))"

definition api_Serve :: "string \<Rightarrow> ('w, 'c) reconciler \<Rightarrow> server \<Rightarrow> ctx \<Rightarrow> http_request \<Rightarrow> ('w, 'c) rstate \<Rightarrow> ('w, 'c) answer option" where
  "api_Serve addr rc srv x r st = (if addr = [] then None else Some (Handler rc srv x r st))"

section \<open>What the API guarantees\<close>

lemma answer_simps: "on_get r a st = (if is_get r then a else method_not_allowed st)" "on_post r a st = (if hr_Method r = ''POST'' then a else method_not_allowed st)"
  by (simp_all add: on_get_def on_post_def)

text \<open>Only a POST to one of the four operations of an app leaves something to do.\<close>

lemma get_handlers_no_op:
  "snd (snd (fst (getConfig rc st))) = None" "snd (snd (fst (getJobs rc x st))) = None" "snd (snd (fst (getSnapshots rc x a t st))) = None"
  "snd (snd (fst (getRuns rc x a t st))) = None" "snd (snd (fst (getRun rc x i st))) = None" "snd (snd (fst (getRunLogs rc x i st))) = None"
  "snd (snd (fst (method_not_allowed st))) = None" "snd (snd (fst (not_found st))) = None"
  by (simp_all add: getConfig_def getJobs_def getSnapshots_def getRuns_def getRun_def getRunLogs_def method_not_allowed_def not_found_def
      split: prod.split sum.split option.split)

definition op_by_post :: "http_request \<Rightarrow> ('w, 'c) rstate \<Rightarrow> ('w, 'c) answer \<Rightarrow> bool" where
  "op_by_post r st a \<longleftrightarrow> (snd (snd (fst a)) \<noteq> None \<longrightarrow> hr_Method r = ''POST'' \<and> snd a = st \<and> fst (fst a) = 202)"

lemma op_by_post_quiet: "snd (snd (fst a)) = None \<Longrightarrow> op_by_post r st a"
  by (simp add: op_by_post_def)

lemma op_by_post_handlers:
  "op_by_post r st (on_get r (getConfig rc st) st)" "op_by_post r st (on_get r (getJobs rc x st) st)"
  "op_by_post r st (on_get r (getSnapshots rc x a t st) st)" "op_by_post r st (on_get r (getRuns rc x a t st) st)"
  "op_by_post r st (on_get r (getRun rc x i st) st)" "op_by_post r st (on_get r (getRunLogs rc x i st) st)" "op_by_post r st (not_found st)"
  by (simp_all add: answer_simps op_by_post_quiet get_handlers_no_op)

lemma op_by_post_app: "op_by_post r st (app_route rc srv x r i q st)"
  by (simp add: app_route_def Let_def op_by_post_handlers)
    (auto simp: op_by_post_def answer_simps method_not_allowed_def postBackup_def postCheck_def postPrune_def postRestore_def trigger_def Let_def split: sum.splits)

lemma op_by_post_route: "op_by_post r st (route rc srv x r st)"
  unfolding route_def by (simp add: op_by_post_handlers op_by_post_app split: list.split)



text \<open>The secrets of a target, replaced by others.\<close>

definition with_secrets :: "string \<Rightarrow> string \<Rightarrow> string \<Rightarrow> (string, string) gomap \<Rightarrow> string list \<Rightarrow> target \<Rightarrow> target" where
  "with_secrets penv pfile cfile en args t =
     t\<lparr>tgt_PasswordEnv := penv, tgt_PasswordFile := pfile, tgt_CredentialsFile := cfile, tgt_Env := en, tgt_ResticArgs := args\<rparr>"

text \<open>
  The configuration that the API shows does not depend on the secrets of a target: replacing the password variable and file, the credentials file, the
  environment and the restic flags of every configured target leaves the configuration answer as it is.
\<close>

theorem api_config_hides_secrets:
  "getConfig (rc\<lparr>rc_cfg := (rc_cfg rc)\<lparr>conf_Targets := map (with_secrets penv pfile cfile en args) (conf_Targets (rc_cfg rc))\<rparr>\<rparr>) st = getConfig rc st"
  by (simp add: getConfig_def ConfigTargets_def targetViews_def targetView_def with_secrets_def Target_Backend_def)

text \<open>
  The run log of the API is not limited to movers: with the standalone engine, a request for the logs of any container
  id that the daemon knows is answered with the output of that container, whatever its labels say.
\<close>

theorem api_run_logs_any_container:
  assumes "rc_runs rc = \<lparr>rh_ListRuns = docker_ListRuns srt tp cli, rh_GetRun = docker_GetRun nf tp cli, rh_RunLogs = docker_RunLogs cli\<rparr>"
    and "authorized srv r" "hr_Method r = ''GET''" "hr_Path r = [''api'', ''v1'', ''runs'', i, ''logs'']" "i \<noteq> []"
    and "ContainerInspect cli x i (os_world (rst_orch st)) = (Inr c, w1)" "ContainerLogs cli x i w1 = (Inr s, w2)"
  shows "fst (Handler rc srv x r st) = (200, BText (all_frames s), None)"
proof -
  obtain ri where "docker_inspectRun tp cli x i (os_world (rst_orch st)) = (Inr ri, w1)"
    using assms(6) by (simp add: docker_inspectRun_def Let_def)
  then show ?thesis
    using assms by (simp add: Handler_def route_def answer_simps is_get_def getRunLogs_def reconcile_GetRun_def reconcile_RunLogs_def
      orch_GetRun_def orch_RunLogs_def rcall_def ocall_def docker_GetRun_def docker_RunLogs_def)
qed

definition other_cli :: "unit docker_client" where
  "other_cli = (demo_docker (WaitStatus 0 None) [])\<lparr>
     ContainerInspect := (\<lambda>x i w. (Inr \<lparr>cj_ID = i, cj_Image = [], cj_Config = Some (empty_config\<lparr>cfg_Labels := [(''app'', ''db'')]\<rparr>),
       cj_Running = Some True, cj_ExitCode = 0, cj_StartedAt = [], cj_FinishedAt = [], cj_Mounts = []\<rparr>, w)),
     ContainerLogs := (\<lambda>x i w. (Inr \<lparr>log_frames = [(True, ''password=hunter2'')], log_err = None\<rparr>, w))\<rparr>"

definition other_rc :: "(unit, (int \<times> string \<times> run_action) list) reconciler" where
  "other_rc = demo_rc\<lparr>rc_runs := \<lparr>rh_ListRuns = docker_ListRuns id (\<lambda>s. Inr 0) other_cli,
     rh_GetRun = docker_GetRun (\<lambda>e. True) (\<lambda>s. Inr 0) other_cli, rh_RunLogs = docker_RunLogs other_cli\<rparr>\<rparr>"

theorem api_run_logs_any_container_witness:
  "fst (Handler other_rc \<lparr>srv_token = ''s3cret'', srv_decode = (\<lambda>b. Inr None), srv_ctx = Background\<rparr> Caller
     \<lparr>hr_Method = ''GET'', hr_Path = [''api'', ''v1'', ''runs'', ''db'', ''logs''], hr_Query = [], hr_Authorization = ''Bearer s3cret'', hr_Body = []\<rparr>
     (reconcile_New () [] ''dev'')) = (200, BText ''password=hunter2'', None)"
proof -
  let ?srv = "\<lparr>srv_token = ''s3cret'', srv_decode = (\<lambda>b. Inr None), srv_ctx = Background\<rparr>"
  let ?r = "\<lparr>hr_Method = ''GET'', hr_Path = [''api'', ''v1'', ''runs'', ''db'', ''logs''], hr_Query = [], hr_Authorization = ''Bearer s3cret'', hr_Body = []\<rparr>"
  let ?w = "os_world (rst_orch (reconcile_New () [] ''dev'' :: (unit, (int \<times> string \<times> run_action) list) rstate))"
  have runs: "rc_runs other_rc = \<lparr>rh_ListRuns = docker_ListRuns id (\<lambda>s. Inr 0) other_cli,
      rh_GetRun = docker_GetRun (\<lambda>e. True) (\<lambda>s. Inr 0) other_cli, rh_RunLogs = docker_RunLogs other_cli\<rparr>" by (simp add: other_rc_def)
  have auth: "authorized ?srv ?r" by (simp add: authorized_def CutPrefix_def)
  obtain c where insp: "ContainerInspect other_cli Caller ''db'' ?w = (Inr c, ?w)" by (simp add: other_cli_def)
  have log: "ContainerLogs other_cli Caller ''db'' ?w = (Inr \<lparr>log_frames = [(True, ''password=hunter2'')], log_err = None\<rparr>, ?w)"
    by (simp add: other_cli_def)
  show ?thesis
    using api_run_logs_any_container[OF runs auth _ _ _ insp log] by (simp add: all_frames_def)
qed

end
