(* ===== verification/Command.thy ===== *)
theory Command
  imports Remote_Api
begin

text \<open>
  \<^verbatim>\<open>cmd/sabon\<close>: which images and which runtime a process uses, the one-shot commands and the daemon's loop. A command starts from
  \<open>boot\<close>: the configuration that loads (or the error), the Docker client (or the error), the runtime of each mode. What is
  printed is not modelled, nor is the JSON schema command. The daemon is a step relation over the signal channel, the debounce timer
  and the reconciler's state.
\<close>

section \<open>Images\<close>

text \<open>\<^verbatim>\<open>strings.LastIndex\<close> as the integer of the source: -1 when absent.\<close>

definition last_index :: "string \<Rightarrow> char \<Rightarrow> int" where
  "last_index s c = (case LastIndex s c of Some i \<Rightarrow> int i | None \<Rightarrow> -1)"

definition orchestratorImageRepo :: string where
  "orchestratorImageRepo = ''ghcr.io/davidborzek/sabon''"

definition moverImageRepo :: string where
  "moverImageRepo = orchestratorImageRepo @ ''/mover''"

text \<open>Repository and tag of a reference without its digest.\<close>

definition split_ref :: "string \<Rightarrow> string \<times> string" where
  "split_ref name =
     (let i = last_index name (CHR '':'')
      in if i > last_index name (CHR ''/'') then (take (nat i) name, drop (nat i + 1) name) else (name, []))"

definition migratedMoverImage :: "string \<Rightarrow> string \<Rightarrow> (string \<times> bool) res" where
  "migratedMoverImage version ref =
     (case Cut ref ''@'' of
        (name, digest, _) \<Rightarrow>
          (case split_ref name of
             (repo, tag) \<Rightarrow>
               if repo \<noteq> orchestratorImageRepo then Inr (ref, False)
               else if tag \<noteq> [] then Inr (moverImageRepo @ '':'' @ tag, True)
               else if digest \<noteq> [] then
                 (if version = ''dev''
                  then Inl (Errorf ''SABON_MOVER_IMAGE %q names the orchestrator image by digest; set it to a mover image'' [ref])
                  else Inr (moverImageRepo @ '':'' @ version, True))
               else Inr (moverImageRepo @ '':latest'', True)))"

definition moverImage :: "string \<Rightarrow> config \<Rightarrow> string res" where
  "moverImage version cfg =
     (if conf_MoverImage cfg \<noteq> [] then Inr (conf_MoverImage cfg)
      else if version = ''dev'' then Inl (Errorf ''no mover image for a dev build; set SABON_MOVER_IMAGE'' [])
      else Inr (moverImageRepo @ '':'' @ version))"

definition zfsSnapshotterImage :: "string \<Rightarrow> config \<Rightarrow> string" where
  "zfsSnapshotterImage version cfg =
     (if conf_SnapshotZFSImage cfg \<noteq> [] then conf_SnapshotZFSImage cfg
      else if version = ''dev'' then []
      else ''ghcr.io/davidborzek/sabon/zfs-snapshotter:'' @ version)"

text \<open>The inspection of the own container only decides about a warning.\<close>

definition resolveImage ::
  "string \<Rightarrow> 'w docker_client \<Rightarrow> string res \<Rightarrow> ctx \<Rightarrow> config \<Rightarrow> 'w \<Rightarrow> string res \<times> 'w" where
  "resolveImage version cli hostname x cfg w =
     (case (if conf_MoverImage cfg \<noteq> [] then migratedMoverImage version (conf_MoverImage cfg) else Inr ([], False)) of
        Inl e \<Rightarrow> (Inl e, w)
      | Inr (img, True) \<Rightarrow> (Inr img, w)
      | Inr (_, False) \<Rightarrow>
          (case moverImage version cfg of
             Inl e \<Rightarrow> (Inl e, w)
           | Inr img \<Rightarrow> (Inr img, snd (DetectSelfImage cli x hostname w))))"

section \<open>The runtime\<close>

definition detectRuntime :: "(ctx \<Rightarrow> 'w \<Rightarrow> bool res \<times> 'w) \<Rightarrow> ctx \<Rightarrow> string \<Rightarrow> 'w \<Rightarrow> string res \<times> 'w" where
  "detectRuntime info x override w =
     (if override = ''standalone'' \<or> override = ''swarm'' then (Inr override, w)
      else if override = [] \<or> override = ''auto'' then
        (case info x w of
           (Inl e, w) \<Rightarrow> (Inl (Wrapf ''detect runtime (docker info): %w'' [] e), w)
         | (Inr control, w) \<Rightarrow> (Inr (if control then ''swarm'' else ''standalone''), w))
      else (Inl (Errorf ''SABON_RUNTIME must be \"auto\", \"standalone\" or \"swarm\", got %q'' [override]), w))"

record 'w app_runtime =
  ar_rt :: "'w runtime"
  ar_disc :: "ctx \<Rightarrow> 'w \<Rightarrow> job list res \<times> 'w"
  ar_runs :: "'w run_history"
  ar_recover :: "(ctx \<Rightarrow> 'w \<Rightarrow> (nat \<times> error option) \<times> 'w) option"

record ('w, 'c) boot =
  bo_version :: string
  bo_Load :: "config res"
  bo_client :: "'w docker_client res"
  bo_hostname :: "string res"
  bo_info :: "ctx \<Rightarrow> 'w \<Rightarrow> bool res \<times> 'w"
  bo_standalone :: "config \<Rightarrow> 'w app_runtime"
  bo_swarm :: "config \<Rightarrow> 'w app_runtime"
  bo_getenv :: "string \<Rightarrow> string"
  bo_regular :: "string \<Rightarrow> bool"
  bo_ParseDuration :: "string \<Rightarrow> duration res"
  bo_notify :: "'w notify_lib"
  bo_cron :: "('c, run_action) cron_lib"
  bo_marshal :: "source list \<Rightarrow> spec \<Rightarrow> target \<Rightarrow> string"
  bo_Error :: "error \<Rightarrow> string"
  bo_sleep :: "ctx \<Rightarrow> duration \<Rightarrow> 'w \<Rightarrow> 'w"

text \<open>The standalone runtime takes the resolved snapshotter image into the configuration; Swarm has no snapshot providers.\<close>

definition newRuntime :: "('w, 'c) boot \<Rightarrow> ctx \<Rightarrow> config \<Rightarrow> 'w \<Rightarrow> (config \<times> 'w app_runtime) res \<times> 'w" where
  "newRuntime bo x cfg w =
     (case detectRuntime (bo_info bo) x (conf_Runtime cfg) w of
        (Inl e, w) \<Rightarrow> (Inl e, w)
      | (Inr mode, w) \<Rightarrow>
          if mode = ''swarm'' then (Inr (cfg, bo_swarm bo cfg), w)
          else let cfg = cfg\<lparr>conf_SnapshotZFSImage := zfsSnapshotterImage (bo_version bo) cfg\<rparr>
            in (Inr (cfg, bo_standalone bo cfg), w))"

definition newOrchestrator :: "('w, 'c) boot \<Rightarrow> config \<Rightarrow> string \<Rightarrow> orch" where
  "newOrchestrator bo cfg img =
     \<lparr>o_cfg = cfg, o_image = img, o_getenv = bo_getenv bo, o_regular = bo_regular bo, o_ParseDuration = bo_ParseDuration bo\<rparr>"

definition recoverQuiesced :: "'w app_runtime \<Rightarrow> ctx \<Rightarrow> 'w \<Rightarrow> 'w" where
  "recoverQuiesced ar x w = (case ar_recover ar of None \<Rightarrow> w | Some f \<Rightarrow> snd (f x w))"

section \<open>The one-shot commands\<close>

text \<open>What the commands share after the configuration and the client: image, runtime, orchestrator.\<close>

definition assemble ::
  "('w, 'c) boot \<Rightarrow> 'w docker_client \<Rightarrow> ctx \<Rightarrow> config \<Rightarrow> 'w \<Rightarrow> (config \<times> orch \<times> 'w app_runtime) res \<times> 'w" where
  "assemble bo cli x cfg w =
     (case resolveImage (bo_version bo) cli (bo_hostname bo) x cfg w of
        (Inl e, w) \<Rightarrow> (Inl e, w)
      | (Inr img, w) \<Rightarrow>
          (case newRuntime bo x cfg w of
             (Inl e, w) \<Rightarrow> (Inl e, w)
           | (Inr (cfg, ar), w) \<Rightarrow> (Inr (cfg, newOrchestrator bo cfg img, ar), w)))"

definition select_targets :: "config \<Rightarrow> string \<Rightarrow> target list res" where
  "select_targets cfg name =
     (if name = [] then Inr (conf_Targets cfg)
      else case Config_Target cfg name of
        Some t \<Rightarrow> Inr [t]
      | None \<Rightarrow> Inl (Errorf ''unknown target %q'' [name]))"

fun tool_each :: "(target \<Rightarrow> 's \<Rightarrow> error option \<times> 's) \<Rightarrow> target list \<Rightarrow> bool \<Rightarrow> 's \<Rightarrow> bool \<times> 's" where
  "tool_each f [] failed st = (failed, st)"
| "tool_each f (t # ts) failed st = (case f t st of (e, st) \<Rightarrow> tool_each f ts (failed \<or> e \<noteq> None) st)"

definition tool_command ::
  "('w, 'c) boot \<Rightarrow> ctx \<Rightarrow> string \<Rightarrow> ('w runtime \<Rightarrow> orch \<Rightarrow> target \<Rightarrow> 'w ostate \<Rightarrow> error option \<times> 'w ostate) \<Rightarrow> string \<Rightarrow> 'w
   \<Rightarrow> error option \<times> 'w" where
  "tool_command bo x name f failure w =
     (case bo_Load bo of
        Inl e \<Rightarrow> (Some e, w)
      | Inr cfg \<Rightarrow>
          (case bo_client bo of
             Inl e \<Rightarrow> (Some e, w)
           | Inr cli \<Rightarrow>
               (case assemble bo cli x cfg w of
                  (Inl e, w) \<Rightarrow> (Some e, w)
                | (Inr (cfg, oc, ar), w) \<Rightarrow>
                    (case select_targets cfg name of
                       Inl e \<Rightarrow> (Some e, w)
                     | Inr ts \<Rightarrow>
                         (case tool_each (f (ar_rt ar) oc) ts False (orch_New w) of
                            (failed, st) \<Rightarrow> (if failed then Some (Errorf failure []) else None, os_world st))))))"

definition runSnapshots :: "('w, 'c) boot \<Rightarrow> ctx \<Rightarrow> string \<Rightarrow> string \<Rightarrow> 'w \<Rightarrow> error option \<times> 'w" where
  "runSnapshots bo x app name w =
     tool_command bo x name (\<lambda>rt oc t. RunSnapshots rt oc x app t) ''one or more snapshot listings failed'' w"

definition runCheckCmd :: "('w, 'c) boot \<Rightarrow> ctx \<Rightarrow> string \<Rightarrow> string \<Rightarrow> 'w \<Rightarrow> error option \<times> 'w" where
  "runCheckCmd bo x app name w =
     tool_command bo x name (\<lambda>rt oc t. RunCheck rt oc x app t True) ''one or more checks failed'' w"

definition runPruneCmd :: "('w, 'c) boot \<Rightarrow> ctx \<Rightarrow> string \<Rightarrow> string \<Rightarrow> 'w \<Rightarrow> error option \<times> 'w" where
  "runPruneCmd bo x app name w =
     tool_command bo x name (\<lambda>rt oc t. RunPrune rt oc x app t True) ''one or more prunes failed'' w"

record restore_flags =
  rf_app :: string
  rf_target :: string
  rf_snapshot :: string
  rf_into :: string
  rf_in_place :: bool
  rf_stop :: bool
  rf_include :: "string list"

definition restore_job :: "'w app_runtime \<Rightarrow> ctx \<Rightarrow> restore_flags \<Rightarrow> 'w \<Rightarrow> job option res \<times> 'w" where
  "restore_job ar x fl w =
     (if \<not> rf_in_place fl then (Inr None, w)
      else case ar_disc ar x w of
        (Inl e, w) \<Rightarrow> (Inl e, w)
      | (Inr jobs, w) \<Rightarrow>
          (case find_job jobs (rf_app fl) of
             Some j \<Rightarrow> (Inr (Some j), w)
           | None \<Rightarrow>
               (Inl (Errorf ''no live container found for app %q (needed for --in-place; use --into <dir> instead)'' [rf_app fl]), w)))"

definition runRestoreCmd :: "('w, 'c) boot \<Rightarrow> ctx \<Rightarrow> restore_flags \<Rightarrow> 'w \<Rightarrow> error option \<times> 'w" where
  "runRestoreCmd bo x fl w =
     (case bo_Load bo of
        Inl e \<Rightarrow> (Some e, w)
      | Inr cfg \<Rightarrow>
          (case bo_client bo of
             Inl e \<Rightarrow> (Some e, w)
           | Inr cli \<Rightarrow>
               if (rf_into fl = []) = (\<not> rf_in_place fl) then
                 (Some (Errorf ''specify exactly one of --into <dir> or --in-place'' []), w)
               else case Config_Target cfg (rf_target fl) of
                 None \<Rightarrow> (Some (Errorf ''unknown target %q'' [rf_target fl]), w)
               | Some t \<Rightarrow>
                   (case assemble bo cli x cfg w of
                      (Inl e, w) \<Rightarrow> (Some e, w)
                    | (Inr (cfg, oc, ar), w) \<Rightarrow>
                        (case restore_job ar x fl w of
                           (Inl e, w) \<Rightarrow> (Some e, w)
                         | (Inr jp, w) \<Rightarrow>
                             (case RunRestore (ar_rt ar) oc x (rf_app fl) jp t
                                     \<lparr>ro_Snapshot = rf_snapshot fl, ro_Into = rf_into fl, ro_Stop = rf_stop fl, ro_Include = rf_include fl\<rparr> (orch_New w) of
                                (e, st) \<Rightarrow> (e, os_world st))))))"

text \<open>The reconciler that \<^verbatim>\<open>runBackupOnce\<close> and \<^verbatim>\<open>runDaemon\<close> build.\<close>

definition build_reconciler :: "('w, 'c) boot \<Rightarrow> ctx \<Rightarrow> config \<Rightarrow> orch \<Rightarrow> 'w app_runtime \<Rightarrow> 'w notifier option \<Rightarrow> ('w, 'c) reconciler" where
  "build_reconciler bo x cfg oc ar nt =
     \<lparr>rc_ctx = x, rc_List = ar_disc ar, rc_rt = ar_rt ar, rc_orch = oc, rc_runs = ar_runs ar, rc_cfg = cfg, rc_cron = bo_cron bo,
      rc_notifier = nt, rc_marshal = bo_marshal bo, rc_Error = bo_Error bo, rc_sleep = bo_sleep bo\<rparr>"

definition reap_all :: "'w app_runtime \<Rightarrow> orch \<Rightarrow> ctx \<Rightarrow> 'w \<Rightarrow> 'w" where
  "reap_all ar oc x w = snd (ReapSnapshotter (ar_rt ar) oc x (snd (orch_Reap (ar_rt ar) oc x w)))"

definition runBackupOnce :: "('w, 'c) boot \<Rightarrow> 'c \<Rightarrow> ctx \<Rightarrow> string \<Rightarrow> string \<Rightarrow> 'w \<Rightarrow> error option \<times> 'w" where
  "runBackupOnce bo c x app tgt w =
     (case bo_Load bo of
        Inl e \<Rightarrow> (Some e, w)
      | Inr cfg \<Rightarrow>
          (case bo_client bo of
             Inl e \<Rightarrow> (Some e, w)
           | Inr cli \<Rightarrow>
               (case assemble bo cli x cfg w of
                  (Inl e, w) \<Rightarrow> (Some e, w)
                | (Inr (cfg, oc, ar), w) \<Rightarrow>
                    (let w = reap_all ar oc x w
                     in case notify_New (bo_notify bo) (conf_NotifyURLs cfg) (conf_NotifyTitleTemplate cfg) (conf_NotifyTemplate cfg) of
                          Inl e \<Rightarrow> (Some e, w)
                        | Inr nt \<Rightarrow>
                            (case RunMatching (build_reconciler bo x cfg oc ar nt) x app tgt (reconcile_New w c (bo_version bo)) of
                               (e, st) \<Rightarrow> (e, os_world (rst_orch st)))))))"

definition singleAttachHint :: "(string \<Rightarrow> string) \<Rightarrow> string \<Rightarrow> bool \<Rightarrow> string" where
  "singleAttachHint quote driver stop =
     (if driver = [] \<or> driver = ''local'' \<or> stop then []
      else ''driver '' @ quote driver @ '' may be single-attach; set stop: true if the mover can'' @ [CHR 0x27] @ ''t mount it'')"

section \<open>The daemon\<close>

text \<open>Until the loop starts: reap, recover, the first reconcile.\<close>

definition daemon_start :: "('w, 'c) boot \<Rightarrow> 'c \<Rightarrow> ctx \<Rightarrow> 'w \<Rightarrow> (('w, 'c) reconciler \<times> ('w, 'c) rstate) res \<times> 'w" where
  "daemon_start bo c x w =
     (case bo_Load bo of
        Inl e \<Rightarrow> (Inl e, w)
      | Inr cfg \<Rightarrow>
          (case bo_client bo of
             Inl e \<Rightarrow> (Inl e, w)
           | Inr cli \<Rightarrow>
               (case assemble bo cli x cfg w of
                  (Inl e, w) \<Rightarrow> (Inl e, w)
                | (Inr (cfg, oc, ar), w) \<Rightarrow>
                    (let w = recoverQuiesced ar x (reap_all ar oc x w)
                     in case notify_New (bo_notify bo) (conf_NotifyURLs cfg) (conf_NotifyTitleTemplate cfg) (conf_NotifyTemplate cfg) of
                          Inl e \<Rightarrow> (Inl e, w)
                        | Inr nt \<Rightarrow>
                            (let rc = build_reconciler bo x cfg oc ar nt;
                                 st = snd (Reconcile rc (reconcile_New w c (bo_version bo)))
                             in (Inr (rc, st), os_world (rst_orch st)))))))"

text \<open>\<^verbatim>\<open>Signal\<close> on a channel with a buffer of \<open>cap\<close> that holds \<open>n\<close>: a full channel drops the signal.\<close>

definition Signal :: "nat \<Rightarrow> nat \<Rightarrow> nat" where
  "Signal cap n = (if n < cap then Suc n else n)"

text \<open>
  The watcher's goroutine: an event signals, a broken stream counts a restart and resubscribes, the end of the context returns.
\<close>

datatype stream_event = StreamMsg | StreamErr | StreamDone

fun watch_event :: "stream_event \<Rightarrow> nat \<times> metrics \<Rightarrow> (nat \<times> metrics) option" where
  "watch_event StreamMsg (n, m) = Some (Signal 1 n, m)"
| "watch_event StreamErr (n, m) = Some (n, ObserveWatchRestart m)"
| "watch_event StreamDone (n, m) = None"

text \<open>
  The loop's state: the signals in the channel, whether the debounce timer is set, whether a change was seen that no reconcile
  has followed yet, and the reconciler's state.
\<close>

record ('w, 'c) daemon =
  dm_signals :: nat
  dm_debounce :: bool
  dm_dirty :: bool
  dm_st :: "('w, 'c) rstate"

definition reconcileOnce :: "('w, 'c) reconciler \<Rightarrow> ('w, 'c) daemon \<Rightarrow> ('w, 'c) daemon" where
  "reconcileOnce rc d = d\<lparr>dm_st := snd (Reconcile rc (dm_st d)), dm_dirty := False\<rparr>"

definition reap_movers :: "('w, 'c) reconciler \<Rightarrow> ('w, 'c) daemon \<Rightarrow> ('w, 'c) daemon" where
  "reap_movers rc d = d\<lparr>dm_st := snd (rcall (orch_Reap (rc_rt rc) (rc_orch rc) (rc_ctx rc)) (dm_st d))\<rparr>"

inductive daemon_step :: "('w, 'c) reconciler \<Rightarrow> ('w, 'c) daemon \<Rightarrow> ('w, 'c) daemon \<Rightarrow> bool" for rc where
  watch_change: "watch_event StreamMsg (dm_signals d, rst_metrics (dm_st d)) = Some (n, m) \<Longrightarrow>
    daemon_step rc d (d\<lparr>dm_signals := n, dm_dirty := True\<rparr>)"
| watch_restart: "watch_event StreamErr (dm_signals d, rst_metrics (dm_st d)) = Some (n, m) \<Longrightarrow>
    daemon_step rc d (d\<lparr>dm_st := (dm_st d)\<lparr>rst_metrics := m\<rparr>\<rparr>)"
| change: "dm_signals d = Suc n \<Longrightarrow> daemon_step rc d (d\<lparr>dm_signals := n, dm_debounce := True\<rparr>)"
| debounce: "dm_debounce d \<Longrightarrow> daemon_step rc d (reconcileOnce rc (d\<lparr>dm_debounce := False\<rparr>))"
| resync: "daemon_step rc d (reap_movers rc (reconcileOnce rc d))"
| startup: "conf_RunOnStartup (rc_cfg rc) \<Longrightarrow> daemon_step rc d (d\<lparr>dm_st := snd (RunAll rc (rc_ctx rc) [] (dm_st d))\<rparr>)"
| scheduled: "daemon_step rc d (d\<lparr>dm_st := fire rc a (dm_st d)\<rparr>)"
| requested: "daemon_step rc d (d\<lparr>dm_st := run_op rc srv o1 (dm_st d)\<rparr>)"

definition daemon_init :: "('w, 'c) rstate \<Rightarrow> ('w, 'c) daemon" where
  "daemon_init st = \<lparr>dm_signals = 0, dm_debounce = False, dm_dirty = False, dm_st = st\<rparr>"

inductive_simps daemon_step_iff: "daemon_step rc d d'"

section \<open>The mover never runs the orchestrator's image\<close>

lemma last_index_append: "int (length p) \<le> last_index (p @ c # q) c"
  by (induction p) (auto simp: last_index_def split: option.splits)

lemma last_index_less: "s \<noteq> [] \<Longrightarrow> last_index s c < int (length s)"
proof -
  have "LastIndex s c = Some i \<Longrightarrow> i < length s" for i
    by (induction s arbitrary: i) (auto split: option.splits if_splits)
  then show "s \<noteq> [] \<Longrightarrow> last_index s c < int (length s)" by (simp add: last_index_def split: option.split)
qed

text \<open>The repository of a reference is at least as long as the path before its last slash.\<close>

lemma split_ref_repo:
  assumes "name = orchestratorImageRepo @ CHR ''/'' # rest"
  shows "fst (split_ref name) \<noteq> orchestratorImageRepo"
proof -
  let ?i = "last_index name (CHR '':'')"
  have slash: "int (length orchestratorImageRepo) \<le> last_index name (CHR ''/'')" unfolding assms by (rule last_index_append)
  show ?thesis
  proof (cases "last_index name (CHR ''/'') < ?i")
    case True
    have "length (take (nat ?i) name) \<noteq> length orchestratorImageRepo"
      using slash True last_index_less[of name "CHR '':''"] assms by simp
    then have "take (nat ?i) name \<noteq> orchestratorImageRepo" by metis
    with True show ?thesis by (simp add: split_ref_def Let_def)
  next
    case False
    with assms show ?thesis by (simp add: split_ref_def Let_def)
  qed
qed

lemma mover_ref_repo: "fst (split_ref (fst (Cut (moverImageRepo @ CHR '':'' # tag) ''@''))) \<noteq> orchestratorImageRepo"
proof -
  let ?img = "moverImageRepo @ CHR '':'' # tag"
  obtain rest where "fst (Cut ?img ''@'') = orchestratorImageRepo @ CHR ''/'' # rest"
  proof (cases "CHR ''@'' \<in> set tag")
    case True
    then obtain a b where t: "tag = a @ CHR ''@'' # b" "CHR ''@'' \<notin> set a" by (meson split_list_first)
    have "CHR ''@'' \<notin> set (moverImageRepo @ CHR '':'' # a)" using t by (simp add: moverImageRepo_def orchestratorImageRepo_def)
    from Cut_char[OF this, of b] t that[of "''mover:'' @ a"] show thesis by (simp add: moverImageRepo_def)
  next
    case False
    then have "CHR ''@'' \<notin> set ?img" by (simp add: moverImageRepo_def orchestratorImageRepo_def)
    from Cut_char_absent[OF this] that[of "''mover:'' @ tag"] show thesis by (simp add: moverImageRepo_def)
  qed
  then show ?thesis by (rule split_ref_repo)
qed

text \<open>
  The image a mover runs is never the orchestrator's own: whatever is configured (a tag, a digest, nothing) and whatever version the
  binary has, a reference that resolves does not name the repository of the orchestrator image.
\<close>

theorem mover_image_never_orchestrator:
  assumes "resolveImage version cli hostname x cfg w = (Inr img, w')"
  shows "fst (split_ref (fst (Cut img ''@''))) \<noteq> orchestratorImageRepo"
proof (cases "conf_MoverImage cfg = []")
  case True
  with assms obtain v where "img = moverImageRepo @ CHR '':'' # v" by (auto simp: resolveImage_def moverImage_def split: if_splits)
  then show ?thesis using mover_ref_repo by simp
next
  case False
  let ?ref = "conf_MoverImage cfg"
  obtain name digest ok where c: "Cut ?ref ''@'' = (name, digest, ok)" by (metis prod.exhaust)
  obtain repo tag where s: "split_ref name = (repo, tag)" by (metis prod.exhaust)
  show ?thesis
  proof (cases "repo = orchestratorImageRepo")
    case True
    with assms False c s obtain v where "img = moverImageRepo @ CHR '':'' # v"
      by (auto simp: resolveImage_def migratedMoverImage_def split: if_splits)
    then show ?thesis using mover_ref_repo by simp
  next
    case other: False
    with assms False c s have "img = ?ref" by (auto simp: resolveImage_def migratedMoverImage_def moverImage_def)
    with c s other show ?thesis by simp
  qed
qed

theorem mover_image_never_orchestrator_witness:
  "let img = ''ghcr.io/davidborzek/sabon/mover:1.4''
   in fst (resolveImage ''1.4'' (demo_docker (WaitStatus 0 None) []) (Inr ''h'') Caller
         ((o_cfg demo_oc)\<lparr>conf_MoverImage := ''ghcr.io/davidborzek/sabon@sha256:0a''\<rparr>) ()) = Inr img \<and>
      fst (split_ref (fst (Cut img ''@''))) \<noteq> orchestratorImageRepo"
proof -
  let ?cfg = "(o_cfg demo_oc)\<lparr>conf_MoverImage := ''ghcr.io/davidborzek/sabon@sha256:0a''\<rparr>"
  have "migratedMoverImage ''1.4'' ''ghcr.io/davidborzek/sabon@sha256:0a'' = Inr (''ghcr.io/davidborzek/sabon/mover:1.4'', True)" by code_simp
  then have r: "resolveImage ''1.4'' (demo_docker (WaitStatus 0 None) []) (Inr ''h'') Caller ?cfg () = (Inr ''ghcr.io/davidborzek/sabon/mover:1.4'', ())"
    by (simp add: resolveImage_def)
  with mover_image_never_orchestrator[OF r] show ?thesis by simp
qed

section \<open>The daemon misses no change\<close>

definition wakeup_pending :: "('w, 'c) daemon \<Rightarrow> bool" where
  "wakeup_pending d \<longleftrightarrow> dm_signals d \<le> 1 \<and> (dm_dirty d \<longrightarrow> dm_signals d = 1 \<or> dm_debounce d)"

lemma wakeup_step: "daemon_step rc d d' \<Longrightarrow> wakeup_pending d \<Longrightarrow> wakeup_pending d'"
  by (cases rule: daemon_step.cases) (auto simp: wakeup_pending_def reconcileOnce_def reap_movers_def Signal_def split: if_splits)

lemma wakeup_reachable: "(daemon_step rc)\<^sup>*\<^sup>* (daemon_init st) d \<Longrightarrow> wakeup_pending d"
proof (induction rule: rtranclp_induct)
  case base show ?case by (simp add: wakeup_pending_def daemon_init_def)
next
  case (step d d') then show ?case using wakeup_step by blast
qed



end
