(* ===== verification/Inspect.thy ===== *)
theory Inspect
  imports Command Standalone
begin

text \<open>
  \<^verbatim>\<open>cmd/sabon/inspect.go\<close>: the validate command, with the lines it prints. The two results: the plan it prints for a job in
  \<^verbatim>\<open>auto\<close> mode is the one a backup carries out, and it changes nothing on the host.
\<close>

section \<open>The validate command\<close>

fun mount_type_string :: "mount_type \<Rightarrow> string" where
  "mount_type_string TypeBind = ''bind''"
| "mount_type_string TypeVolume = ''volume''"
| "mount_type_string (TypeOther s) = s"

text \<open>\<^verbatim>\<open>%v\<close> of a slice of strings.\<close>

definition show_strings :: "string list \<Rightarrow> string" where
  "show_strings ss = ''['' @ Join ss '' '' @ '']''"

definition validate_targets :: "config \<Rightarrow> job \<Rightarrow> string list" where
  "validate_targets cfg j = (if TargetNames (job_Spec j) = [] then map tgt_Name (conf_Targets cfg) else TargetNames (job_Spec j))"

definition job_line :: "config \<Rightarrow> job \<Rightarrow> string" where
  "job_line cfg j =
     ''app='' @ job_App j @ '' container='' @ job_Container j @ '' targets='' @ show_strings (validate_targets cfg j) @
     '' sources='' @ Itoa (int (length (job_Sources j))) @ '' snapshot='' @ SnapshotMode (job_Spec j) (conf_Snapshot cfg)"

definition arrow :: string where
  "arrow = [CHR '' '', CHR 0xE2, CHR 0x86, CHR 0x92, CHR '' '']"

text \<open>What follows the arrow of a source, by the resolution of its name.\<close>

definition resolution_suffix :: "string \<Rightarrow> (string, resolution) gomap \<Rightarrow> string \<Rightarrow> string" where
  "resolution_suffix mode res n =
     (case map_of res n of
        None \<Rightarrow> []
      | Some r \<Rightarrow>
          if rs_Detail r = [] then []
          else if mode = ''auto'' \<and> \<not> rs_Snapshottable r then arrow @ ''live ('' @ rs_Detail r @ '')''
          else arrow @ rs_Detail r)"

fun source_lines ::
  "(string \<Rightarrow> string) \<Rightarrow> 'w docker_client \<Rightarrow> ctx \<Rightarrow> job \<Rightarrow> string \<Rightarrow> (string, resolution) gomap \<Rightarrow> source list \<Rightarrow> 'w \<Rightarrow> string list \<times> 'w" where
  "source_lines quote cli x j mode res [] w = ([], w)"
| "source_lines quote cli x j mode res (s # ss) w =
     (case (if src_Type s = TypeVolume
            then (case VolumeInspect cli x (src_Ref s) w of
                    (Inr v, w) \<Rightarrow> ((vol_Driver v, ''volume, driver='' @ vol_Driver v), w)
                  | (Inl _, w) \<Rightarrow> (([], ''volume, driver=?''), w))
            else (([], mount_type_string (src_Type s)), w)) of
        ((driver, kind), w) \<Rightarrow>
          (let line = ''  - '' @ src_Name s @ '' ('' @ kind @ '') '' @ src_Ref s @ resolution_suffix mode res (src_Name s);
               h = singleAttachHint quote driver (spec_Stop (job_Spec j))
           in case source_lines quote cli x j mode res ss w of
                (ls, w) \<Rightarrow> (line # (if h \<noteq> [] then [''    note: '' @ h] else []) @ ls, w)))"

text \<open>The resolutions of a job, unless an earlier preview failed: the new \<^verbatim>\<open>zfsErr\<close> and the map of the resolutions by name.\<close>

definition job_preview ::
  "'w runtime \<Rightarrow> orch \<Rightarrow> (error \<Rightarrow> string) \<Rightarrow> ctx \<Rightarrow> job \<Rightarrow> string \<Rightarrow> 'w \<Rightarrow> ((string \<times> (string, resolution) gomap) \<times> 'w) option" where
  "job_preview rt oc Err x j zfsErr w =
     (let mode = SnapshotMode (job_Spec j) (conf_Snapshot (o_cfg oc))
      in if (mode = ''zfs'' \<or> mode = ''auto'') \<and> zfsErr = [] then
           (case PreviewSnapshots rt oc x j w of
              None \<Rightarrow> None
            | Some (Inl e, w) \<Rightarrow> Some ((Err e, []), w)
            | Some (Inr rs, w) \<Rightarrow> Some ((zfsErr, fold (\<lambda>r. AList.update (rs_Name r) r) rs []), w))
         else Some ((zfsErr, []), w))"

fun validate_jobs ::
  "(string \<Rightarrow> string) \<Rightarrow> 'w docker_client \<Rightarrow> 'w runtime \<Rightarrow> orch \<Rightarrow> (error \<Rightarrow> string) \<Rightarrow> ctx \<Rightarrow> job list \<Rightarrow> bool \<times> string \<Rightarrow> 'w
   \<Rightarrow> ((string list \<times> bool \<times> string) \<times> 'w) option" where
  "validate_jobs quote cli rt oc Err x [] (anyZFS, zfsErr) w = Some (([], anyZFS, zfsErr), w)"
| "validate_jobs quote cli rt oc Err x (j # js) (anyZFS, zfsErr) w =
     (let mode = SnapshotMode (job_Spec j) (conf_Snapshot (o_cfg oc))
      in case job_preview rt oc Err x j zfsErr w of
           None \<Rightarrow> None
         | Some ((zfsErr, res), w) \<Rightarrow>
             (case source_lines quote cli x j mode res (job_Sources j) w of
                (ls, w) \<Rightarrow>
                  (case validate_jobs quote cli rt oc Err x js (anyZFS \<or> mode = ''zfs'' \<or> mode = ''auto'', zfsErr) w of
                     None \<Rightarrow> None
                   | Some ((out, st), w) \<Rightarrow> Some ((job_line (o_cfg oc) j # ls @ out, st), w))))"

definition zfs_summary :: "bool \<times> string \<Rightarrow> string list" where
  "zfs_summary st =
     (if \<not> fst st then []
      else if snd st \<noteq> [] then
        [''snapshot: zfs unavailable on host ('' @ snd st @ '') '' @ [CHR 0xE2, CHR 0x80, CHR 0x94] @ '' zfs jobs fail, auto jobs mount live'']
      else [''snapshot: zfs available''])"

text \<open>The result is the error and the lines printed; \<open>None\<close> is a panic.\<close>

definition runValidate :: "(string \<Rightarrow> string) \<Rightarrow> ('w, 'c) boot \<Rightarrow> ctx \<Rightarrow> 'w \<Rightarrow> ((error option \<times> string list) \<times> 'w) option" where
  "runValidate quote bo x w =
     (case bo_Load bo of
        Inl e \<Rightarrow> Some ((Some e, []), w)
      | Inr cfg \<Rightarrow>
          (case bo_client bo of
             Inl e \<Rightarrow> Some ((Some e, []), w)
           | Inr cli \<Rightarrow>
               (case newRuntime bo x cfg w of
                  (Inl e, w) \<Rightarrow> Some ((Some e, []), w)
                | (Inr (cfg, ar), w) \<Rightarrow>
                    (case ar_disc ar x w of
                       (Inl e, w) \<Rightarrow> Some ((Some e, []), w)
                     | (Inr jobs, w) \<Rightarrow>
                         if jobs = [] then Some ((None, [''no backup jobs discovered'']), w)
                         else (case validate_jobs quote cli (ar_rt ar) (newOrchestrator bo cfg []) (bo_Error bo) x jobs (False, []) w of
                                 None \<Rightarrow> None
                               | Some ((out, st), w) \<Rightarrow> Some ((None, out @ zfs_summary st), w))))))"

section \<open>What the preview says is what a backup mounts\<close>

definition previewed :: "resolution list \<Rightarrow> string \<Rightarrow> bool" where
  "previewed rs n \<longleftrightarrow> list_ex (\<lambda>r. rs_Name r = n \<and> rs_Snapshottable r) rs"

lemma index_map_same: "n \<notin> ss_Name ` set ss \<Longrightarrow> map_of (index_map i ss at) n = map_of at n"
  by (induction ss arbitrary: i at) (auto simp: update_conv)

lemma index_map_nth:
  "distinct (map ss_Name ss) \<Longrightarrow> k < length ss \<Longrightarrow> map_of (index_map i ss at) (ss_Name (ss ! k)) = Some (i + k)"
proof (induction ss arbitrary: i at k)
  case (Cons s ss)
  show ?case
  proof (cases k)
    case 0 with Cons.prems show ?thesis by (simp add: index_map_same update_conv)
  next
    case (Suc m) with Cons show ?thesis by simp
  qed
qed simp

text \<open>A merge keeps the names and sets the flag of a source that is local and snapshottable.\<close>

lemma merge_resolution_flags:
  assumes "distinct (map ss_Name srcs)" "map rs_Name res = map ss_Name srcs" "rs_Name r \<in> ss_Name ` set srcs"
  shows "\<exists>res'. merge_resolution fo (index_map 0 srcs []) r res = Some res' \<and> map rs_Name res' = map ss_Name srcs \<and>
    (\<forall>n. previewed res' n \<longleftrightarrow> previewed res n \<or> n = rs_Name r \<and> map_of fo n = None \<and> rs_Snapshottable r)"
proof -
  from assms(3) obtain k where k: "k < length srcs" "ss_Name (srcs ! k) = rs_Name r" by (auto simp: in_set_conv_nth)
  have l: "length res = length srcs" using assms(2) by (metis length_map)
  have i: "map_of (index_map 0 srcs []) (rs_Name r) = Some k" using index_map_nth[OF assms(1) k(1), of 0 "[]"] k(2) by simp
  have rk: "rs_Name (res ! k) = rs_Name r" using assms(2) k l by (metis nth_map)
  have uniq: "rs_Name (res ! m) = rs_Name r \<Longrightarrow> m < length res \<Longrightarrow> m = k" for m
    using assms(1,2) k l rk by (metis distinct_conv_nth length_map nth_map)
  have names: "map rs_Name (res[k := q]) = map ss_Name srcs" if "rs_Name q = rs_Name r" for q
    using assms(2) that rk k(1) l by (metis list_update_id map_update nth_map)
  have set: "previewed (res[k := q]) n \<longleftrightarrow> previewed res n \<or> n = rs_Name r \<and> rs_Snapshottable q"
    if "rs_Name q = rs_Name r" "rs_Snapshottable (res ! k) \<longrightarrow> rs_Snapshottable q" for q n
  proof -
    have "(\<exists>m < length res. rs_Name (res[k := q] ! m) = n \<and> rs_Snapshottable (res[k := q] ! m)) \<longleftrightarrow>
      (\<exists>m < length res. rs_Name (res ! m) = n \<and> rs_Snapshottable (res ! m)) \<or> n = rs_Name r \<and> rs_Snapshottable q"
      using that rk k(1) l by (metis nth_list_update_eq nth_list_update_neq)
    then show ?thesis by (simp add: previewed_def list_ex_length)
  qed
  show ?thesis
    using i k(1) l rk assms(2) names set[of "(res ! k)\<lparr>rs_Snapshottable := True, rs_Detail := rs_Detail r\<rparr>"] set[of "(res ! k)\<lparr>rs_Detail := rs_Detail r\<rparr>"]
    by (auto simp: merge_resolution_def Let_def previewed_def list_ex_length)
qed

lemma merge_all_flags:
  assumes "distinct (map ss_Name srcs)"
  shows "map rs_Name res = map ss_Name srcs \<Longrightarrow> rs_Name ` set rs \<subseteq> ss_Name ` set srcs \<Longrightarrow>
    \<exists>res'. merge_all fo (index_map 0 srcs []) rs res = Some res' \<and> map rs_Name res' = map ss_Name srcs \<and>
      (\<forall>n. previewed res' n \<longleftrightarrow> previewed res n \<or> map_of fo n = None \<and> previewed rs n)"
proof (induction rs arbitrary: res)
  case Nil then show ?case by (simp add: previewed_def)
next
  case (Cons r rs)
  obtain res1 where r: "merge_resolution fo (index_map 0 srcs []) r res = Some res1" "map rs_Name res1 = map ss_Name srcs"
    "\<And>n. previewed res1 n \<longleftrightarrow> previewed res n \<or> n = rs_Name r \<and> map_of fo n = None \<and> rs_Snapshottable r"
    using merge_resolution_flags[OF assms Cons.prems(1), of r fo] Cons.prems(2) by auto
  from Cons.IH[OF r(2)] Cons.prems(2) obtain res2 where "merge_all fo (index_map 0 srcs []) rs res1 = Some res2"
    "map rs_Name res2 = map ss_Name srcs" "\<And>n. previewed res2 n \<longleftrightarrow> previewed res1 n \<or> map_of fo n = None \<and> previewed rs n" by auto
  with r show ?case by (auto simp: previewed_def)
qed

lemma claim_loop_claims:
  "claim_loop rs pending claimed mine = (mine', pending', claimed') \<Longrightarrow>
   set claimed' = set claimed \<union> {n \<in> set pending. previewed rs n}"
proof (induction rs arbitrary: pending claimed mine)
  case (Cons r rs)
  show ?case
  proof (cases "rs_Name r \<in> set pending \<and> rs_Snapshottable r")
    case True
    with Cons.prems Cons.IH[of "removeAll (rs_Name r) pending" "rs_Name r # claimed"] show ?thesis by (auto simp: previewed_def)
  next
    case False
    with Cons.prems Cons.IH[of pending claimed mine] show ?thesis by (auto simp: previewed_def)
  qed
qed (simp add: previewed_def)
lemma preview_start_flags: "map rs_Name (map (preview_start fo) srcs) = map ss_Name srcs" "\<not> previewed (map (preview_start fo) srcs) n"
  by (simp_all add: preview_start_def previewed_def list_ex_iff)

lemma preview_one_provider:
  assumes "snapshot_provider s" "distinct (map ss_Name srcs)"
  obtains res w' where "preview_loop x True srcs fo (index_map 0 srcs []) [s] (map (preview_start fo) srcs) w = Some (Inr res, w')"
    "\<And>n. previewed res n \<longleftrightarrow> map_of fo n = None \<and> (\<exists>rs w2. sn_Resolve s x srcs w = (Inr rs, w2) \<and> previewed rs n)"
proof (cases "sn_Resolve s x srcs w")
  case (Pair r w2)
  show thesis
  proof (cases r)
    case (Inl e) with Pair that preview_start_flags(2) show thesis by fastforce
  next
    case (Inr rs)
    with snapshot_provider.Resolve_names[OF assms(1)] Pair have "map rs_Name rs = map ss_Name srcs" by blast
    then have "rs_Name ` set rs \<subseteq> ss_Name ` set srcs" by (metis list.set_map order_refl)
    from merge_all_flags[OF assms(2) preview_start_flags(1) this] obtain res where
      "merge_all fo (index_map 0 srcs []) rs (map (preview_start fo) srcs) = Some res"
      "\<And>n. previewed res n \<longleftrightarrow> map_of fo n = None \<and> previewed rs n" using preview_start_flags(2) by blast
    with Pair Inr that show thesis by fastforce
  qed
qed

lemma claim_all_one:
  assumes "claim_all x srcs [s] pending [] w = ((per, claimed), w')"
  shows "set claimed = {n \<in> set pending. \<exists>rs w2. sn_Resolve s x srcs w = (Inr rs, w2) \<and> previewed rs n}" "length per \<le> 1"
proof -
  obtain r w2 where r: "sn_Resolve s x srcs w = (r, w2)" by (metis prod.exhaust)
  show "set claimed = {n \<in> set pending. \<exists>rs w2. sn_Resolve s x srcs w = (Inr rs, w2) \<and> previewed rs n}" "length per \<le> 1"
  proof (atomize(full), cases "pending = []", goal_cases)
    case 1 with assms show ?case by simp
  next
    case 2
    show ?case
    proof (cases r)
      case (Inl e) with 2 assms r show ?thesis by simp
    next
      case (Inr rs)
      obtain mine p2 c2 where c: "claim_loop rs pending [] [] = (mine, p2, c2)" by (metis prod.exhaust)
      from 2 assms r Inr c have "claimed = c2" "per = [(s, mine)]" by simp_all
      with claim_loop_claims[OF c] r Inr show ?thesis by simp
    qed
  qed
qed

lemma autoMounts_one_provider:
  assumes "snapshot_provider s" "rt_snaps rt = [s]" "autoMounts rt x j w = (Inr (ms, cl), w')"
  obtains srcs fo w1 sms where "resolveHostPaths rt x j w = (Inr (srcs, fo), w1)"
    "ms = map snap_bind sms @ sourceMounts (j\<lparr>job_Sources := filter (\<lambda>q. src_Name q \<notin> sm_Name ` set sms) (job_Sources j)\<rparr>) True"
    "sm_Name ` set sms = {n \<in> ss_Name ` set srcs. map_of fo n = None \<and> (\<exists>rs w2. sn_Resolve s x srcs w1 = (Inr rs, w2) \<and> previewed rs n)}"
proof -
  from assms(3) obtain srcs fo w1 where r: "resolveHostPaths rt x j w = (Inr (srcs, fo), w1)"
    by (auto simp: autoMounts_def split: prod.splits sum.splits)
  let ?p = "filter (\<lambda>n. map_of fo n = None) (map ss_Name srcs)"
  obtain per claimed w2 where c: "claim_all x srcs [s] ?p [] w1 = ((per, claimed), w2)" by (metis prod.exhaust)
  from assms(2,3) r c obtain cls sm where sa: "snapshot_all x (job_App j) per [] [] w2 = (Inr (cls, sm), w')"
    and ms: "ms = sm @ sourceMounts (j\<lparr>job_Sources := filter (\<lambda>q. src_Name q \<notin> set claimed) (job_Sources j)\<rparr>) True"
    by (auto simp: autoMounts_def split: prod.splits sum.splits)
  have claims: "set claimed = {n \<in> set ?p. \<exists>rs w2. sn_Resolve s x srcs w1 = (Inr rs, w2) \<and> previewed rs n}"
    and len: "length per \<le> 1" using claim_all_one[OF c] by simp_all
  have per: "set (per_names per) = set claimed" "fst ` set per \<subseteq> {s}" using claim_all_names[OF c] by auto
  obtain sms where sms: "sm = map snap_bind sms" "sm_Name ` set sms = set (per_names per)"
  proof (cases per)
    case Nil with sa that[of "[]"] show thesis by (simp add: per_names_def)
  next
    case (Cons p ps)
    then obtain mine where p: "per = [(s, mine)]" using len per(2) by (cases p) auto
    show thesis
    proof (cases "mine = []")
      case True with sa p that[of "[]"] show thesis by (simp add: per_names_def)
    next
      case False
      with sa p obtain sms cl' w3 where "sn_Snapshot s x (job_App j) mine w2 = (Inr (sms, cl'), w3)" "sm = map snap_bind sms"
        by (auto split: prod.splits sum.splits)
      moreover from snapshot_provider.Snapshot_names[OF assms(1) this(1)] have "sm_Name ` set sms = ss_Name ` set mine" by (metis list.set_map)
      ultimately show thesis using that p by (simp add: per_names_def)
    qed
  qed
  with r ms claims per(1) that[OF r, of sms] show thesis by auto
qed

text \<open>
  C17. In \<^verbatim>\<open>auto\<close> mode the plan that \<^verbatim>\<open>sabon validate\<close> prints is the one a backup carries out: whenever a backup gets its mounts, the
  preview on the same host succeeds (it does not panic), the sources it shows as snapshottable are exactly those the mover reads from
  a snapshot, and every other source is mounted live.
\<close>

theorem preview_tells_mounts:
  assumes "SnapshotMode (job_Spec j) (conf_Snapshot (o_cfg oc)) = ''auto''" "distinct (map src_Name (job_Sources j))"
    and "sourceMountsFor (docker_runtime cd quote srt cli slot now [zfs_snapshotter z]) oc x j w = (Inr (ms, cl), w')"
  shows "\<exists>res w2 sms. PreviewSnapshots (docker_runtime cd quote srt cli slot now [zfs_snapshotter z]) oc x j w = Some (Inr res, w2) \<and>
    ms = map snap_bind sms @ sourceMounts (j\<lparr>job_Sources := filter (\<lambda>s. \<not> previewed res (src_Name s)) (job_Sources j)\<rparr>) True \<and>
    (\<forall>n. n \<in> sm_Name ` set sms \<longleftrightarrow> n \<in> src_Name ` set (job_Sources j) \<and> previewed res n)"
proof -
  let ?rt = "docker_runtime cd quote srt cli slot now [zfs_snapshotter z]" and ?s = "zfs_snapshotter z"
  have rt: "rt_snaps ?rt = [?s]" by (simp add: docker_runtime_def)
  from assms(1,3) have "autoMounts ?rt x j w = (Inr (ms, cl), w')" by (simp add: sourceMountsFor_def)
  from autoMounts_one_provider[OF zfs.snapshot_provider_axioms rt this] obtain srcs fo w1 sms
    where r: "resolveHostPaths ?rt x j w = (Inr (srcs, fo), w1)"
      and ms: "ms = map snap_bind sms @ sourceMounts (j\<lparr>job_Sources := filter (\<lambda>q. src_Name q \<notin> sm_Name ` set sms) (job_Sources j)\<rparr>) True"
      and sms: "sm_Name ` set sms = {n \<in> ss_Name ` set srcs. map_of fo n = None \<and> (\<exists>rs w2. sn_Resolve ?s x srcs w1 = (Inr rs, w2) \<and> previewed rs n)}" .
  have names: "map ss_Name srcs = map src_Name (job_Sources j)" using resolve_loop_names[OF r[unfolded resolveHostPaths_def]] by simp
  then have in_names: "n \<in> ss_Name ` set srcs \<longleftrightarrow> n \<in> src_Name ` set (job_Sources j)" for n by (metis list.set_map)
  from assms(2) names have "distinct (map ss_Name srcs)" by simp
  from preview_one_provider[OF zfs.snapshot_provider_axioms this, where x = x and fo = fo and w = w1] obtain res w2 where
    p: "preview_loop x True srcs fo (index_map 0 srcs []) [?s] (map (preview_start fo) srcs) w1 = Some (Inr res, w2)"
    "\<And>n. previewed res n \<longleftrightarrow> map_of fo n = None \<and> (\<exists>rs w2. sn_Resolve ?s x srcs w1 = (Inr rs, w2) \<and> previewed rs n)" by metis
  have "PreviewSnapshots ?rt oc x j w = Some (Inr res, w2)"
    using assms(1) r p(1) by (simp add: PreviewSnapshots_def preview_candidates_def rt)
  moreover have "n \<in> sm_Name ` set sms \<longleftrightarrow> n \<in> src_Name ` set (job_Sources j) \<and> previewed res n" for n
    using sms p(2) in_names by auto
  moreover from this have "filter (\<lambda>q. src_Name q \<notin> sm_Name ` set sms) (job_Sources j) = filter (\<lambda>s. \<not> previewed res (src_Name s)) (job_Sources j)"
    by (intro filter_cong) auto
  ultimately show ?thesis using ms by auto
qed
theorem preview_tells_mounts_witness:
  "\<exists>ms cl w' res w2 sms. sourceMountsFor mem_rt demo_oc Caller mem_job [] = (Inr (ms, cl), w') \<and>
     PreviewSnapshots mem_rt demo_oc Caller mem_job [] = Some (Inr res, w2) \<and> ms ! 0 \<in> set (map snap_bind sms) \<and>
     (\<forall>n. n \<in> sm_Name ` set sms \<longleftrightarrow> n \<in> {''db'', ''conf''} \<and> previewed res n)"
proof -
  obtain r w' where r: "sourceMountsFor mem_rt demo_oc Caller mem_job [] = (r, w')" by fastforce
  with mem_mounts obtain ms cl where ms: "r = Inr (ms, cl)" "mnt_Source (ms ! 0) = ''/tank/db/.zfs/snapshot/sabon-default-shop-7/data''" "length ms = 2"
    by (cases r) auto
  have j: "SnapshotMode (job_Spec mem_job) (conf_Snapshot (o_cfg demo_oc)) = ''auto''" "distinct (map src_Name (job_Sources mem_job))"
    by (simp_all add: mem_job_def SnapshotMode_def)
  from preview_tells_mounts[OF j r[unfolded ms(1) mem_rt_def list.map]] obtain res w2 sms where
    p: "PreviewSnapshots mem_rt demo_oc Caller mem_job [] = Some (Inr res, w2)"
      "ms = map snap_bind sms @ sourceMounts (mem_job\<lparr>job_Sources := filter (\<lambda>s. \<not> previewed res (src_Name s)) (job_Sources mem_job)\<rparr>) True"
      "\<forall>n. n \<in> sm_Name ` set sms \<longleftrightarrow> n \<in> src_Name ` set (job_Sources mem_job) \<and> previewed res n"
    unfolding mem_rt_def list.map by blast
  have "sms \<noteq> []"
    using p(2) ms(2,3) by (auto simp: mem_job_def sourceMounts_def split: if_splits)
  then have "ms ! 0 \<in> set (map snap_bind sms)" using p(2) by (cases sms) auto
  with r ms p(1,3) show ?thesis by (auto simp: mem_job_def)
qed

section \<open>Validate only looks\<close>

lemma index_map_bound:
  "\<forall>n k. map_of at n = Some k \<longrightarrow> k < i \<Longrightarrow> map_of (index_map i ss at) n = Some k \<Longrightarrow> k < i + length ss"
proof (induction ss arbitrary: i at)
  case (Cons s ss)
  from Cons.prems(1) have "\<forall>n k. map_of (AList.update (ss_Name s) i at) n = Some k \<longrightarrow> k < Suc i"
    by (auto simp: update_conv less_Suc_eq)
  from Cons.IH[OF this] Cons.prems(2) show ?case by simp
qed simp

lemma index_map_known: "n \<in> ss_Name ` set ss \<or> map_of at n \<noteq> None \<Longrightarrow> map_of (index_map i ss at) n \<noteq> None"
  by (induction ss arbitrary: i at) (auto simp: update_conv)

lemma merge_all_total:
  "length res = length srcs \<Longrightarrow> rs_Name ` set rs \<subseteq> ss_Name ` set srcs \<Longrightarrow>
   \<exists>res'. merge_all fo (index_map 0 srcs []) rs res = Some res' \<and> length res' = length srcs"
proof (induction rs arbitrary: res)
  case (Cons r rs)
  from Cons.prems(2) obtain k where k: "map_of (index_map 0 srcs []) (rs_Name r) = Some k"
    using index_map_known[of "rs_Name r" srcs "[]" 0] by auto
  from index_map_bound[OF _ k] have "k < length srcs" by simp
  with k Cons.prems(1) have "\<exists>res1. merge_resolution fo (index_map 0 srcs []) r res = Some res1 \<and> length res1 = length srcs"
    by (simp add: merge_resolution_def Let_def)
  with Cons show ?case by auto
qed simp

text \<open>What a validation asks of the host does not change \<open>obs\<close>, and the providers keep their contract.\<close>

definition looking :: "('w \<Rightarrow> 'a) \<Rightarrow> ('w, 'c) boot \<Rightarrow> bool" where
  "looking obs bo \<longleftrightarrow>
     (\<forall>x w. obs (snd (bo_info bo x w)) = obs w) \<and>
     (\<forall>cli x n w. bo_client bo = Inr cli \<longrightarrow> obs (snd (VolumeInspect cli x n w)) = obs w) \<and>
     (\<forall>cfg. \<forall>ar\<in>{bo_standalone bo cfg, bo_swarm bo cfg}.
        (\<forall>x w. obs (snd (ar_disc ar x w)) = obs w) \<and> (\<forall>x n w. obs (snd (rt_VolumeHostPath (ar_rt ar) x n w)) = obs w) \<and>
        (\<forall>s\<in>set (rt_snaps (ar_rt ar)). snapshot_provider s \<and> (\<forall>x srcs w. obs (snd (sn_Resolve s x srcs w)) = obs w)))"

lemma preview_loop_looks:
  "\<forall>s\<in>set snaps. snapshot_provider s \<and> (\<forall>x srcs w. obs (snd (sn_Resolve s x srcs w)) = obs w) \<Longrightarrow> length res = length srcs \<Longrightarrow>
   \<exists>r w'. preview_loop x a srcs fo (index_map 0 srcs []) snaps res w = Some (r, w') \<and> obs w' = obs w"
proof (induction snaps arbitrary: res w)
  case (Cons s ss)
  obtain r w1 where r: "sn_Resolve s x srcs w = (r, w1)" by (metis prod.exhaust)
  have w1: "obs w1 = obs w" using Cons.prems(1) r by (metis list.set_intros(1) snd_conv)
  show ?case
  proof (cases r)
    case (Inl e)
    have "\<exists>r w'. preview_loop x a srcs fo (index_map 0 srcs []) ss res w1 = Some (r, w') \<and> obs w' = obs w1" using Cons.IH Cons.prems by simp
    with Inl r w1 show ?thesis by (cases a) simp_all
  next
    case (Inr rs)
    have "snapshot_provider s" using Cons.prems(1) by simp
    from snapshot_provider.Resolve_names[OF this r[unfolded Inr]] have "rs_Name ` set rs \<subseteq> ss_Name ` set srcs" by (metis list.set_map order_refl)
    from merge_all_total[OF Cons.prems(2) this, of fo] obtain res' where "merge_all fo (index_map 0 srcs []) rs res = Some res'" "length res' = length srcs" by blast
    with Cons.IH[of res' w1] Cons.prems(1) r Inr w1 show ?thesis by simp
  qed
qed simp

lemma resolve_loop_looks:
  assumes "\<forall>x n w. obs (snd (rt_VolumeHostPath rt x n w)) = obs w"
  shows "obs (snd (resolve_loop rt x ss srcs fo w)) = obs w"
proof (induction ss arbitrary: srcs fo w)
  case (Cons s ss)
  obtain r w1 where r: "rt_VolumeHostPath rt x (src_Ref s) w = (r, w1)" by (metis prod.exhaust)
  then have "obs w1 = obs w" using assms by (metis snd_conv)
  with r Cons show ?case by (simp split: sum.split prod.split)
qed simp

lemma PreviewSnapshots_looks:
  assumes "\<forall>x n w. obs (snd (rt_VolumeHostPath rt x n w)) = obs w"
    and "\<forall>s\<in>set (rt_snaps rt). snapshot_provider s \<and> (\<forall>x srcs w. obs (snd (sn_Resolve s x srcs w)) = obs w)"
  shows "\<exists>r w'. PreviewSnapshots rt oc x j w = Some (r, w') \<and> obs w' = obs w"
proof -
  obtain r w1 where r: "resolveHostPaths rt x j w = (r, w1)" by (metis prod.exhaust)
  have w1: "obs w1 = obs w" using resolve_loop_looks[OF assms(1), of x "job_Sources j" "[]" "[]" w] r by (simp add: resolveHostPaths_def)
  let ?mode = "SnapshotMode (job_Spec j) (conf_Snapshot (o_cfg oc))"
  have cand: "preview_candidates rt ?mode = Inr cs \<Longrightarrow> set cs \<subseteq> set (rt_snaps rt)" for cs
    by (auto simp: preview_candidates_def snapshotterFor_def dest: tr.R_find_mode split: if_splits option.splits)
  show ?thesis
  proof (cases r)
    case (Inl e) with r w1 show ?thesis by (simp add: PreviewSnapshots_def)
  next
    case (Inr sf)
    obtain srcs fo where sf: "sf = (srcs, fo)" by (metis prod.exhaust)
    show ?thesis
    proof (cases "preview_candidates rt ?mode")
      case e: (Inl e) with Inr sf r w1 show ?thesis by (simp add: PreviewSnapshots_def)
    next
      case c: (Inr cs)
      have "\<forall>s\<in>set cs. snapshot_provider s \<and> (\<forall>x srcs w. obs (snd (sn_Resolve s x srcs w)) = obs w)" using cand[OF c] assms(2) by blast
      from preview_loop_looks[OF this, of "map (preview_start fo) srcs" srcs x "?mode = ''auto''" fo w1] Inr sf r c w1
      show ?thesis by (simp add: PreviewSnapshots_def)
    qed
  qed
qed

lemma source_lines_looks:
  assumes "\<forall>x n w. obs (snd (VolumeInspect cli x n w)) = obs w"
  shows "obs (snd (source_lines quote cli x j mode res ss w)) = obs w"
proof (induction ss arbitrary: w)
  case (Cons s ss)
  obtain r w1 where r: "VolumeInspect cli x (src_Ref s) w = (r, w1)" by (metis prod.exhaust)
  then have w1: "obs w1 = obs w" using assms by (metis snd_conv)
  with r Cons.IH[of w1] Cons.IH[of w] show ?case
    by (cases "source_lines quote cli x j mode res ss w1"; cases "source_lines quote cli x j mode res ss w")
      (simp add: Let_def split: sum.split)
qed simp

lemma validate_jobs_looks:
  assumes "\<forall>x n w. obs (snd (VolumeInspect cli x n w)) = obs w" "\<forall>x n w. obs (snd (rt_VolumeHostPath rt x n w)) = obs w"
    and "\<forall>s\<in>set (rt_snaps rt). snapshot_provider s \<and> (\<forall>x srcs w. obs (snd (sn_Resolve s x srcs w)) = obs w)"
  shows "\<exists>r w'. validate_jobs quote cli rt oc Err x js st w = Some (r, w') \<and> obs w' = obs w"
proof (induction js arbitrary: st w)
  case Nil then show ?case by (cases st) simp
next
  case (Cons j js)
  obtain a ze where st: "st = (a, ze)" by (metis prod.exhaust)
  obtain pr w0 where "PreviewSnapshots rt oc x j w = Some (pr, w0)" "obs w0 = obs w" using PreviewSnapshots_looks[OF assms(2,3)] by metis
  then have "\<exists>p w1. job_preview rt oc Err x j ze w = Some (p, w1) \<and> obs w1 = obs w" by (cases pr) (simp_all add: job_preview_def Let_def)
  then obtain p w1 where p: "job_preview rt oc Err x j ze w = Some (p, w1)" "obs w1 = obs w" by blast
  obtain ze' res where pp: "p = (ze', res)" by (metis prod.exhaust)
  let ?mode = "SnapshotMode (job_Spec j) (conf_Snapshot (o_cfg oc))"
  obtain ls w2 where s: "source_lines quote cli x j ?mode res (job_Sources j) w1 = (ls, w2)" by (metis prod.exhaust)
  have w2: "obs w2 = obs w1" using source_lines_looks[OF assms(1), of quote x j ?mode res "job_Sources j" w1] s by simp
  from Cons.IH[of "(a \<or> ?mode = ''zfs'' \<or> ?mode = ''auto'', ze')" w2] obtain r w3
    where r: "validate_jobs quote cli rt oc Err x js (a \<or> ?mode = ''zfs'' \<or> ?mode = ''auto'', ze') w2 = Some (r, w3)" "obs w3 = obs w2" by blast
  obtain out st' where "r = (out, st')" by (metis prod.exhaust)
  with st p pp s w2 r show ?case by (simp add: Let_def)
qed

text \<open>
  \<^verbatim>\<open>sabon validate\<close> only looks: it never panics, and all it does to the host is ask for the runtime, the jobs, the volumes and what could be
  snapshotted. Whatever those questions leave alone - running containers, snapshots, repositories - is as before, on every path.
\<close>

theorem validate_only_looks:
  assumes "looking obs bo"
  shows "\<exists>r w'. runValidate quote bo x w = Some (r, w') \<and> obs w' = obs w"
proof (cases "bo_Load bo")
  case (Inl e) then show ?thesis by (simp add: runValidate_def)
next
  case cfg: (Inr cfg)
  show ?thesis
  proof (cases "bo_client bo")
    case (Inl e) with cfg show ?thesis by (simp add: runValidate_def)
  next
    case cli: (Inr cli)
    obtain r w1 where r: "newRuntime bo x cfg w = (r, w1)" by (metis prod.exhaust)
    have w1: "obs w1 = obs w" using r assms unfolding looking_def
      by (auto simp: newRuntime_def detectRuntime_def Let_def split: if_splits prod.splits sum.splits) (metis snd_conv)+
    show ?thesis
    proof (cases r)
      case (Inl e) with cfg cli r w1 show ?thesis by (simp add: runValidate_def)
    next
      case (Inr ca)
      obtain cfg' ar where ca: "ca = (cfg', ar)" by (metis prod.exhaust)
      have "\<exists>c. ar \<in> {bo_standalone bo c, bo_swarm bo c}"
        using r Inr ca by (auto simp: newRuntime_def Let_def split: prod.splits sum.splits if_splits)
      then obtain c where ar: "ar \<in> {bo_standalone bo c, bo_swarm bo c}" by blast
      note look = assms[unfolded looking_def, THEN conjunct2, THEN conjunct2, THEN spec, of c, THEN bspec, OF ar]
      obtain jr w2 where j: "ar_disc ar x w1 = (jr, w2)" by (metis prod.exhaust)
      have w2: "obs w2 = obs w1" using look j by (metis snd_conv)
      have vi: "\<forall>x n w. obs (snd (VolumeInspect cli x n w)) = obs w" using assms cli by (simp add: looking_def)
      show ?thesis
      proof (cases jr)
        case e: (Inl e) with cfg cli r Inr ca j w1 w2 show ?thesis by (simp add: runValidate_def)
      next
        case jobs: (Inr jobs)
        obtain out w3 where "validate_jobs quote cli (ar_rt ar) (newOrchestrator bo cfg' []) (bo_Error bo) x jobs (False, []) w2 = Some (out, w3)" "obs w3 = obs w2"
          using validate_jobs_looks[OF vi, of "ar_rt ar" quote "newOrchestrator bo cfg' []" "bo_Error bo" x jobs "(False, [])" w2] look by blast
        with cfg cli r Inr ca j jobs w1 w2 show ?thesis by (cases out) (simp add: runValidate_def)
      qed
    qed
  qed
qed
definition mem_app :: "string list app_runtime" where
  "mem_app = \<lparr>ar_rt = mem_rt, ar_disc = (\<lambda>x w. (Inr [mem_job], w)),
     ar_runs = \<lparr>rh_ListRuns = (\<lambda>x a t w. (Inr [], w)), rh_GetRun = (\<lambda>x i w. (Inr None, w)), rh_RunLogs = (\<lambda>x i w. (([], None), w))\<rparr>,
     ar_recover = None\<rparr>"

definition mem_boot :: "(string list, (int \<times> string \<times> run_action) list) boot" where
  "mem_boot = \<lparr>bo_version = ''1.0'', bo_Load = Inr ((o_cfg demo_oc)\<lparr>conf_Targets := [demo_target], conf_Runtime := ''standalone''\<rparr>),
     bo_client = Inr mem_docker, bo_hostname = Inr ''host'', bo_info = (\<lambda>x w. (Inr False, w)), bo_standalone = (\<lambda>cfg. mem_app),
     bo_swarm = (\<lambda>cfg. mem_app), bo_getenv = (\<lambda>v. []), bo_regular = (\<lambda>p. True), bo_ParseDuration = (\<lambda>s. Inr 0),
     bo_notify = \<lparr>nl_CreateSender = (\<lambda>us. Inl (External [])), nl_Parse = (\<lambda>s. Inl (External []))\<rparr>, bo_cron = demo_cron,
     bo_marshal = (\<lambda>ss sp t. []), bo_Error = (\<lambda>e. []), bo_sleep = (\<lambda>x d w. w)\<rparr>"

lemma mem_looking: "looking set mem_boot"
proof -
  have z: "snapshot_provider (zfs_snapshotter mem_zfs)" by (rule zfs.snapshot_provider_axioms)
  have l: "set (snd (z_run mem_zfs x list_filesystems w)) = set w" for x w
    using mem_zfs_host by (simp add: zfs_host_def list_filesystems_def)
  have "set (snd (sn_Resolve (zfs_snapshotter mem_zfs) x srcs w)) = set w" for x srcs w
    using l[of x w] by (cases "z_run mem_zfs x list_filesystems w") (auto simp: zfs_snapshotter_def zfs_Resolve_def split: sum.split)
  then show ?thesis
    using z mem_keeps by (auto simp: looking_def mem_boot_def mem_app_def mem_docker_def keeps_def) (simp_all add: mem_rt_def docker_runtime_def)
qed

lemma mem_validate:
  "snd (fst (the (runValidate id mem_boot Caller [''tank@keep'']))) =
     [''app=shop container=db targets=[nas] sources=2 snapshot=auto'',
      ''  - db (volume, driver=local) vol'' @ arrow @ ''dataset tank/db'',
      ''  - conf (bind) /etc/shop'' @ arrow @ ''live (not on a ZFS dataset)'', ''snapshot: zfs available'']"
  by code_simp

theorem validate_only_looks_witness:
  "\<exists>r w'. runValidate id mem_boot Caller [''tank@keep''] = Some (r, w') \<and> set w' = {''tank@keep''} \<and> length (snd r) = 4"
  using validate_only_looks[OF mem_looking, of id Caller "[''tank@keep'']"] mem_validate by auto

end
