(* ===== verification/Healthcheck.thy ===== *)
theory Healthcheck
  imports Command
begin

text \<open>
  \<^verbatim>\<open>cmd/sabon/healthcheck.go\<close>: the probe that the image's HEALTHCHECK runs, down to the URL it asks for, and what it tells about the
  daemon whose metrics and health servers are those of \<open>Metrics\<close>. Parsing of host and port is Go's \<^verbatim>\<open>net\<close>.
\<close>

section \<open>Host and port\<close>

text \<open>
  \<^verbatim>\<open>net.SplitHostPort\<close>: the port follows the last colon; a host with colons is in brackets.
\<close>

definition addr_error :: "string \<Rightarrow> string \<Rightarrow> error" where
  "addr_error why addr = Errorf ''address %s: %s'' [addr, why]"

definition split_plain :: "string \<Rightarrow> nat \<Rightarrow> (string \<times> string \<times> nat \<times> nat) res" where
  "split_plain hp i =
     (let host = take i hp in
      if CHR '':'' \<in> set host then Inl (addr_error ''too many colons in address'' hp)
      else Inr (host, drop (i + 1) hp, 0, 0))"

definition split_bracket :: "string \<Rightarrow> nat \<Rightarrow> (string \<times> string \<times> nat \<times> nat) res" where
  "split_bracket hp i =
     (case Index hp '']'' of
        None \<Rightarrow> Inl (addr_error ''missing ']' in address'' hp)
      | Some e \<Rightarrow>
          if e + 1 = length hp then Inl (addr_error ''missing port in address'' hp)
          else if e + 1 = i then Inr (take (e - 1) (drop 1 hp), drop (i + 1) hp, 1, e + 1)
          else if hp ! (e + 1) = CHR '':'' then Inl (addr_error ''too many colons in address'' hp)
          else Inl (addr_error ''missing port in address'' hp))"

definition SplitHostPort :: "string \<Rightarrow> (string \<times> string) res" where
  "SplitHostPort hp =
     (case LastIndex hp (CHR '':'') of
        None \<Rightarrow> Inl (addr_error ''missing port in address'' hp)
      | Some i \<Rightarrow>
          (case (if hp ! 0 = CHR ''['' then split_bracket hp i else split_plain hp i) of
             Inl e \<Rightarrow> Inl e
           | Inr (host, port, j, k) \<Rightarrow>
               if CHR ''['' \<in> set (drop j hp) then Inl (addr_error ''unexpected '[' in address'' hp)
               else if CHR '']'' \<in> set (drop k hp) then Inl (addr_error ''unexpected ']' in address'' hp)
               else Inr (host, port)))"

definition JoinHostPort :: "string \<Rightarrow> string \<Rightarrow> string" where
  "JoinHostPort host port =
     (if CHR '':'' \<in> set host then ''['' @ host @ '']:'' @ port else host @ '':'' @ port)"

lemma LastIndex_append: "c \<notin> set q \<Longrightarrow> LastIndex (p @ c # q) c = Some (length p)"
proof (induction p)
  case Nil
  have "c \<notin> set q \<Longrightarrow> LastIndex q c = None" by (induction q) (auto split: option.split)
  with Nil show ?case by simp
qed simp

lemma Index_char: "c \<notin> set p \<Longrightarrow> Index (p @ c # q) [c] = Some (length p)"
  by (induction p) auto

lemma SplitHostPort_Join:
  assumes "\<forall>c\<in>{CHR ''['', CHR '']''}. c \<notin> set h \<and> c \<notin> set p" "CHR '':'' \<notin> set p"
  shows "SplitHostPort (JoinHostPort h p) = Inr (h, p)"
proof (cases "CHR '':'' \<in> set h")
  case True
  have l: "LastIndex (''['' @ h @ '']:'' @ p) (CHR '':'') = Some (length h + 2)"
    using LastIndex_append[OF assms(2), of "''['' @ h @ '']''"] by simp
  have e: "Index (''['' @ h @ '']:'' @ p) '']'' = Some (length h + 1)"
    using Index_char[of "CHR '']''" "''['' @ h" "'':'' @ p"] assms(1) by simp
  have "split_bracket (''['' @ h @ '']:'' @ p) (length h + 2) = Inr (h, p, 1, length h + 2)"
    unfolding split_bracket_def e by simp
  with True l assms(1) show ?thesis by (simp add: SplitHostPort_def JoinHostPort_def)
next
  case False
  have l: "LastIndex (h @ '':'' @ p) (CHR '':'') = Some (length h)" using LastIndex_append[OF assms(2), of h] by simp
  have "split_plain (h @ '':'' @ p) (length h) = Inr (h, p, 0, 0)" using False by (simp add: split_plain_def)
  moreover have "(h @ '':'' @ p) ! 0 \<noteq> CHR ''[''" using assms(1) by (cases h) auto
  ultimately show ?thesis using False l assms(1) by (simp add: SplitHostPort_def JoinHostPort_def)
qed

section \<open>The healthcheck command\<close>

definition healthcheckTimeout :: duration where
  "healthcheckTimeout = 3 * second"

text \<open>The host to dial for the host of a listen address.\<close>

definition probe_host :: "string \<Rightarrow> string" where
  "probe_host host = (if host = [] \<or> host = ''0.0.0.0'' then ''127.0.0.1'' else if host = ''::'' then ''::1'' else host)"

definition healthURL :: "string \<Rightarrow> string \<Rightarrow> string res" where
  "healthURL addr endpoint =
     (let endpoint = TrimPrefix endpoint ''/''
      in if endpoint \<noteq> ''healthz'' \<and> endpoint \<noteq> ''readyz''
         then Inl (Errorf ''--endpoint must be \"readyz\" or \"healthz\", got %q'' [endpoint])
         else case SplitHostPort addr of
           Inl e \<Rightarrow> Inl (Wrapf ''invalid listen address %q: %w'' [addr] e)
         | Inr (host, port) \<Rightarrow> Inr (''http://'' @ JoinHostPort (probe_host host) port @ ''/'' @ endpoint))"

text \<open>
  The HTTP client is an argument: \<open>new_request\<close> is the error of building the request, \<open>do_get\<close> the answer as status code, status line and body.
  The flags are \<^verbatim>\<open>--addr\<close>, \<^verbatim>\<open>--endpoint\<close> and \<^verbatim>\<open>--timeout\<close>.
\<close>

definition runHealthcheck ::
  "(string \<Rightarrow> error option) \<Rightarrow> (ctx \<Rightarrow> string \<Rightarrow> 'w \<Rightarrow> (nat \<times> string \<times> string) res \<times> 'w) \<Rightarrow> lookup_env \<Rightarrow> string \<Rightarrow> string \<Rightarrow> duration
   \<Rightarrow> ctx \<Rightarrow> 'w \<Rightarrow> error option \<times> 'w" where
  "runHealthcheck new_request do_get look addr endpoint tmo x w =
     (let addr = (if addr = [] then HealthProbeAddr look else addr)
      in if addr = [] then (None, w)
         else case healthURL addr endpoint of
           Inl e \<Rightarrow> (Some e, w)
         | Inr url \<Rightarrow>
             (case new_request url of
                Some e \<Rightarrow> (Some e, w)
              | None \<Rightarrow>
                  (case do_get (WithTimeout x tmo) url w of
                     (Inl e, w) \<Rightarrow> (Some (Wrapf ''probe %s: %w'' [url] e), w)
                   | (Inr (code, status, body), w) \<Rightarrow>
                       (if code < 200 \<or> code > 299
                        then Some (Errorf ''probe %s: %s: %s'' [url, status, TrimSpace (take 256 body)])
                        else None, w))))"

section \<open>The probe tells the daemon's readiness\<close>

text \<open>What the daemon serves at an address: \<^verbatim>\<open>runDaemon\<close> starts the metrics server and the health server of its configuration.\<close>

definition daemon_serves :: "(metrics \<Rightarrow> string) \<Rightarrow> config \<Rightarrow> metrics \<Rightarrow> string \<Rightarrow> string \<Rightarrow> (nat \<times> string) option" where
  "daemon_serves expose cfg m addr path =
     (if addr = conf_HealthAddr cfg \<and> conf_HealthAddr cfg \<noteq> [] then ServeHealth (conf_HealthAddr cfg) m path
      else if addr = conf_MetricsAddr cfg then metrics_Serve expose (conf_MetricsAddr cfg) m path
      else None)"

text \<open>The network: a request to the host and port of a listen address, with loopback for a wildcard, is answered by the server that listens there.\<close>

definition reaches :: "(ctx \<Rightarrow> string \<Rightarrow> 'w \<Rightarrow> (nat \<times> string \<times> string) res \<times> 'w) \<Rightarrow> (string \<Rightarrow> string \<Rightarrow> (nat \<times> string) option) \<Rightarrow> bool" where
  "reaches do_get srv \<longleftrightarrow>
     (\<forall>addr h p path code body x w. SplitHostPort addr = Inr (h, p) \<and> srv addr path = Some (code, body) \<longrightarrow>
        (\<exists>status w'. do_get x (''http://'' @ JoinHostPort (probe_host h) p @ path) w = (Inr (code, status, body), w')))"

lemma probe_answer:
  assumes "reaches do_get srv" "srv addr (''/'' @ ep) = Some (code, body)" "SplitHostPort addr = Inr hp" "ep \<in> {''healthz'', ''readyz''}"
    and "\<forall>u. new_request u = None" "addr \<noteq> []" "addr = (if flag = [] then HealthProbeAddr look else flag)"
  shows "fst (runHealthcheck new_request do_get look flag ep tmo x w) = None \<longleftrightarrow> 200 \<le> code \<and> code \<le> 299"
proof -
  obtain h p where hp: "hp = (h, p)" by (metis prod.exhaust)
  let ?u = "''http://'' @ JoinHostPort (probe_host h) p @ ''/'' @ ep"
  have "TrimPrefix ep ''/'' = ep" using assms(4) by (auto simp: TrimPrefix_def)
  then have u: "healthURL addr ep = Inr ?u" using assms(3,4) hp by (auto simp: healthURL_def Let_def)
  obtain status w' where g: "do_get (WithTimeout x tmo) ?u w = (Inr (code, status, body), w')"
    using assms(1-3) hp unfolding reaches_def by metis
  have "runHealthcheck new_request do_get look flag ep tmo x w =
     (if code < 200 \<or> code > 299 then Some (Errorf ''probe %s: %s: %s'' [?u, status, TrimSpace (take 256 body)]) else None, w')"
    unfolding runHealthcheck_def assms(7)[symmetric] using assms(5,6) u g by simp
  then show ?thesis by auto
qed

text \<open>A host on which the default address is served: the client asks the server for what follows the host and port.\<close>

definition demo_get :: "(string \<Rightarrow> string \<Rightarrow> (nat \<times> string) option) \<Rightarrow> ctx \<Rightarrow> string \<Rightarrow> unit \<Rightarrow> (nat \<times> string \<times> string) res \<times> unit" where
  "demo_get srv x url w =
     (case srv DefaultMetricsAddr (drop (length ''http://127.0.0.1:9333'') url) of
        Some (code, body) \<Rightarrow> (Inr (code, [], body), w)
      | None \<Rightarrow> (Inl (External ''connection refused''), w))"


end
