(* ===== verification/Swarm_Engine.thy ===== *)
theory Swarm_Engine
  imports Docker_Engine
begin

text \<open>
  \<^verbatim>\<open>internal/engine/swarm\<close> (engine, hooks, quiescer, host): movers and hooks as one-shot services, cold backups by scaling a
  service to zero. The client is a parameter. A wait that polls until a task ends may never return: it is a partial function, and
  returning is proved where the context ends. The replica count of a quiesced service lives in a label of the service; the
  main result is that it comes back after any number of stops, with or without a crash in between.
\<close>

section \<open>The client\<close>

record service_spec =
  sp_Name :: string
  sp_Labels :: "(string, string) gomap"
  sp_Image :: string
  sp_Command :: "string list"
  sp_Env :: "string list"
  sp_User :: string
  sp_Groups :: "string list"
  sp_Mounts :: "mount list"
  sp_ContainerLabels :: "(string, string) gomap"
  sp_Healthcheck :: "string list"
  sp_Networks :: "string list"
  sp_Constraints :: "string list option"
  sp_RestartCondition :: string
  sp_TotalCompletions :: nat

record swarm_task =
  tk_State :: string
  tk_ExitCode :: "int option"
  tk_CreatedAt :: int
  tk_Timestamp :: int

text \<open>
  \<open>Tick\<close> is the \<^verbatim>\<open>select\<close> over the context and the ticker: \<open>None\<close> a tick, \<open>Some (cause, err)\<close> the end of the context with its
  \<^verbatim>\<open>Cause\<close> and its \<^verbatim>\<open>Err\<close>. An update names the service, the version it was read at and the new specification (the
  fields of \<^typ>\<open>service\<close> that belong to it).
\<close>

record 'w swarm_client =
  ServiceCreate :: "ctx \<Rightarrow> service_spec \<Rightarrow> 'w \<Rightarrow> string res \<times> 'w"
  ServiceList :: "ctx \<Rightarrow> (string \<times> string) list \<Rightarrow> 'w \<Rightarrow> service list res \<times> 'w"
  ServiceInspect :: "ctx \<Rightarrow> string \<Rightarrow> 'w \<Rightarrow> service res \<times> 'w"
  ServiceUpdate :: "ctx \<Rightarrow> string \<Rightarrow> nat \<Rightarrow> service \<Rightarrow> 'w \<Rightarrow> error option \<times> 'w"
  ServiceRemove :: "ctx \<Rightarrow> string \<Rightarrow> 'w \<Rightarrow> error option \<times> 'w"
  ServiceLogs :: "ctx \<Rightarrow> string \<Rightarrow> 'w \<Rightarrow> log_stream res \<times> 'w"
  TaskList :: "ctx \<Rightarrow> string \<Rightarrow> 'w \<Rightarrow> swarm_task list res \<times> 'w"
  MkdirAll :: "string \<Rightarrow> 'w \<Rightarrow> error option \<times> 'w"
  Tick :: "ctx \<Rightarrow> 'w \<Rightarrow> (error \<times> error) option \<times> 'w"
  TimeNow :: "'w \<Rightarrow> int"

section \<open>Tasks and mounts\<close>

definition exitCode :: "swarm_task \<Rightarrow> int" where
  "exitCode tk = (case tk_ExitCode tk of Some c \<Rightarrow> c | None \<Rightarrow> 0)"

definition failed_state :: "string \<Rightarrow> bool" where
  "failed_state s \<longleftrightarrow> s \<in> {''failed'', ''rejected'', ''shutdown'', ''orphaned''}"

definition terminal_state :: "string \<Rightarrow> bool" where
  "terminal_state s \<longleftrightarrow> s = ''complete'' \<or> failed_state s"

definition anyRunning :: "swarm_task list \<Rightarrow> bool" where
  "anyRunning ts = list_ex (\<lambda>tk. \<not> terminal_state (tk_State tk)) ts"

text \<open>The exit code of the first terminal task; a task that failed without a code counts as 1.\<close>

fun scan_tasks :: "swarm_task list \<Rightarrow> int option" where
  "scan_tasks [] = None"
| "scan_tasks (tk # ts) =
     (if tk_State tk = ''complete'' then Some (exitCode tk)
      else if failed_state (tk_State tk) then Some (if exitCode tk = 0 then 1 else exitCode tk)
      else scan_tasks ts)"

definition bindMount :: "string \<Rightarrow> mount option" where
  "bindMount b =
     (case Split b (CHR '':'') of
        s # t # rest \<Rightarrow>
          Some \<lparr>mnt_Type = TypeBind, mnt_Source = s, mnt_Target = t,
            mnt_ReadOnly = (case rest of f # _ \<Rightarrow> f = ''ro'' | [] \<Rightarrow> False)\<rparr>
      | _ \<Rightarrow> None)"

definition serviceSpec :: "codec \<Rightarrow> request \<Rightarrow> service_spec res" where
  "serviceSpec cd req =
     (case MarshalSpec cd (req_Spec req) of
        Inl e \<Rightarrow> Inl e
      | Inr specJSON \<Rightarrow>
          (let labels = fold (\<lambda>(k, v) l. AList.update k v l) (req_Labels req) [(LabelKey, ms_App (req_Spec req))]
           in Inr \<lparr>sp_Name = req_Name req, sp_Labels = labels, sp_Image = req_Image req, sp_Command = [Entrypoint],
                sp_Env = [SpecEnv @ ''='' @ specJSON] @ req_Env req, sp_User = req_User req, sp_Groups = req_Groups req,
                sp_Mounts = req_Mounts req @ List.map_filter bindMount (req_Binds req),
                sp_ContainerLabels = labels, sp_Healthcheck = [''NONE''], sp_Networks = [],
                sp_Constraints = (if req_Node req \<noteq> [] then Some [''node.hostname=='' @ req_Node req] else None),
                sp_RestartCondition = ''none'', sp_TotalCompletions = 1\<rparr>))"

section \<open>Running a mover\<close>

fun mkdirs :: "'w swarm_client \<Rightarrow> mount list \<Rightarrow> 'w \<Rightarrow> error option \<times> 'w" where
  "mkdirs cli [] w = (None, w)"
| "mkdirs cli (m # ms) w =
     (if mnt_Type m = TypeBind \<and> \<not> mnt_ReadOnly m then
        (case MkdirAll cli (mnt_Source m) w of
           (Some e, w) \<Rightarrow> (Some (Wrapf ''create repo dir %q: %w'' [mnt_Source m] e), w)
         | (None, w) \<Rightarrow> mkdirs cli ms w)
      else mkdirs cli ms w)"

partial_function (option) sw_wait :: "'w swarm_client \<Rightarrow> ctx \<Rightarrow> string \<Rightarrow> 'w \<Rightarrow> ((error + int) \<times> 'w) option" where
  "sw_wait cli x i w =
     (case Tick cli x w of
        (Some (cause, _), w) \<Rightarrow> Some (Inl cause, w)
      | (None, w) \<Rightarrow>
          (case TaskList cli x i w of
             (Inl _, w) \<Rightarrow> sw_wait cli x i w
           | (Inr ts, w) \<Rightarrow>
               (case scan_tasks ts of
                  Some c \<Rightarrow> Some (Inr c, w)
                | None \<Rightarrow> sw_wait cli x i w)))"

definition sw_logs :: "'w swarm_client \<Rightarrow> ctx \<Rightarrow> string \<Rightarrow> 'w \<Rightarrow> string \<times> 'w" where
  "sw_logs cli x i w =
     (case ServiceLogs cli x i w of
        (Inl _, w) \<Rightarrow> ([], w)
      | (Inr s, w) \<Rightarrow> (all_frames s, w))"

definition tailStr :: "string \<Rightarrow> nat \<Rightarrow> string" where
  "tailStr s n =
     (let s = TrimRight s [CHR 0x0A]
      in if length s \<le> n then s else [CHR 0xE2, CHR 0x80, CHR 0xA6] @ drop (length s - n) s)"

definition sw_finish :: "codec \<Rightarrow> request \<Rightarrow> int \<Rightarrow> string \<Rightarrow> run_outcome" where
  "sw_finish cd req code lg =
     (if req_Stdout req then
        (no_result, False, if code \<noteq> 0 then Some (Errorf ''mover task exited with code %d'' [Itoa code]) else None, lg)
      else
        (fst (ParseResult (cd_decode_result cd) lg), False,
         if code \<noteq> 0 then Some (Errorf (''mover task exited with code %d:'' @ [CHR 0x0A] @ ''%s'') [Itoa code, tailStr lg 2000]) else None, []))"

text \<open>From the created service to the deferred removal; the second component is \<^verbatim>\<open>keep\<close>.\<close>

definition sw_created ::
  "codec \<Rightarrow> 'w swarm_client \<Rightarrow> ctx \<Rightarrow> request \<Rightarrow> string \<Rightarrow> 'w \<Rightarrow> ((run_outcome \<times> bool) \<times> 'w) option" where
  "sw_created cd cli x req i w =
     (case sw_wait cli x i w of
        None \<Rightarrow> None
      | Some (Inl cause, w) \<Rightarrow>
          (let keep = (cause \<noteq> DeadlineExceeded \<and> req_KeepOnShutdown req)
           in Some (((no_result, keep, Some cause, []), keep), w))
      | Some (Inr code, w) \<Rightarrow>
          (case sw_logs cli x i w of (lg, w) \<Rightarrow> Some ((sw_finish cd req code lg, req_Retain req), w)))"

definition swarm_RunMover :: "codec \<Rightarrow> 'w swarm_client \<Rightarrow> ctx \<Rightarrow> request \<Rightarrow> 'w \<Rightarrow> (run_outcome \<times> 'w) option" where
  "swarm_RunMover cd cli x req w =
     (case serviceSpec cd req of
        Inl e \<Rightarrow> Some ((no_result, False, Some e, []), w)
      | Inr spec \<Rightarrow>
          (case mkdirs cli (sp_Mounts spec) w of
             (Some e, w) \<Rightarrow> Some ((no_result, False, Some e, []), w)
           | (None, w) \<Rightarrow>
               (case ServiceCreate cli x spec w of
                  (Inl e, w) \<Rightarrow> Some ((no_result, False, Some (Wrapf ''create mover service: %w'' [] e), []), w)
                | (Inr i, w) \<Rightarrow>
                    (case sw_created cd cli x req i w of
                       None \<Rightarrow> None
                     | Some ((r, keep), w) \<Rightarrow>
                         Some (r, if keep then w else snd (ServiceRemove cli (WithoutCancel x) i w))))))"

section \<open>Run history\<close>

definition serviceRunning :: "'w swarm_client \<Rightarrow> ctx \<Rightarrow> string \<Rightarrow> 'w \<Rightarrow> bool \<times> 'w" where
  "serviceRunning cli x i w =
     (case TaskList cli x i w of
        (Inl _, w) \<Rightarrow> (True, w)
      | (Inr ts, w) \<Rightarrow> (anyRunning ts, w))"

fun sw_sort_out ::
  "'w swarm_client \<Rightarrow> ctx \<Rightarrow> service list \<Rightarrow> (string, service list) gomap \<Rightarrow> service list \<Rightarrow> 'w
   \<Rightarrow> ((string, service list) gomap \<times> service list) \<times> 'w" where
  "sw_sort_out cli x [] groups stray w = ((groups, stray), w)"
| "sw_sort_out cli x (s # ss) groups stray w =
     (case serviceRunning cli x (svc_ID s) w of
        (True, w) \<Rightarrow> sw_sort_out cli x ss groups stray w
      | (False, w) \<Rightarrow>
          if lookup_str (svc_Labels s) LabelAction = [] then sw_sort_out cli x ss groups (stray @ [s]) w
          else let key = history_key (svc_Labels s)
               in sw_sort_out cli x ss (AList.update key (entries_of groups key @ [s]) groups) stray w)"

fun sw_remove_ids :: "'w swarm_client \<Rightarrow> ctx \<Rightarrow> string list \<Rightarrow> nat \<Rightarrow> 'w \<Rightarrow> nat \<times> 'w" where
  "sw_remove_ids cli x [] n w = (n, w)"
| "sw_remove_ids cli x (i # is) n w =
     (case ServiceRemove cli x i w of
        (None, w) \<Rightarrow> sw_remove_ids cli x is (Suc n) w
      | (Some _, w) \<Rightarrow> sw_remove_ids cli x is n w)"

definition swarm_Reap ::
  "(service list \<Rightarrow> service list) \<Rightarrow> 'w swarm_client \<Rightarrow> ctx \<Rightarrow> int \<Rightarrow> 'w \<Rightarrow> (nat \<times> error option) \<times> 'w" where
  "swarm_Reap srt cli x keep w =
     (case ServiceList cli x [(''label'', LabelKey)] w of
        (Inl e, w) \<Rightarrow> ((0, Some e), w)
      | (Inr services, w) \<Rightarrow>
          (case sw_sort_out cli x services [] [] w of
             ((groups, stray), w) \<Rightarrow>
               (case sw_remove_ids cli x
                       (map svc_ID stray @ concat (map (\<lambda>(k, ss). map svc_ID (drop (nat keep) (srt ss))) groups)) 0 w of
                  (n, w) \<Rightarrow> ((n, None), w))))"

fun newest_task :: "swarm_task \<Rightarrow> swarm_task list \<Rightarrow> swarm_task" where
  "newest_task tk [] = tk"
| "newest_task tk (t # ts) = newest_task (if tk_CreatedAt t > tk_CreatedAt tk then t else tk) ts"

definition sw_runInfo :: "'w swarm_client \<Rightarrow> ctx \<Rightarrow> service \<Rightarrow> 'w \<Rightarrow> run_info \<times> 'w" where
  "sw_runInfo cli x s w =
     (let l = svc_Labels s;
          ri = \<lparr>ri_ID = svc_ID s, ri_App = lookup_str l LabelApp, ri_Target = lookup_str l LabelTarget,
                ri_Action = lookup_str l LabelAction, ri_Status = ''running'', ri_ExitCode = 0, ri_StartedAt = 0, ri_FinishedAt = 0\<rparr>
      in case TaskList cli x (svc_ID s) w of
           (Inl _, w) \<Rightarrow> (ri, w)
         | (Inr [], w) \<Rightarrow> (ri, w)
         | (Inr (t # ts), w) \<Rightarrow>
             (let tk = newest_task t ts;
                  ri = ri\<lparr>ri_StartedAt := tk_CreatedAt tk, ri_ExitCode := exitCode tk\<rparr>
              in (if tk_State tk = ''complete'' then ri\<lparr>ri_Status := ''succeeded'', ri_FinishedAt := tk_Timestamp tk\<rparr>
                  else if failed_state (tk_State tk) then
                    ri\<lparr>ri_Status := ''failed'', ri_FinishedAt := tk_Timestamp tk, ri_ExitCode := (if exitCode tk = 0 then 1 else exitCode tk)\<rparr>
                  else ri, w)))"

fun run_infos :: "'w swarm_client \<Rightarrow> ctx \<Rightarrow> service list \<Rightarrow> 'w \<Rightarrow> run_info list \<times> 'w" where
  "run_infos cli x [] w = ([], w)"
| "run_infos cli x (s # ss) w =
     (case sw_runInfo cli x s w of (ri, w) \<Rightarrow> (case run_infos cli x ss w of (ris, w) \<Rightarrow> (ri # ris, w)))"

definition swarm_ListRuns ::
  "(run_info list \<Rightarrow> run_info list) \<Rightarrow> 'w swarm_client \<Rightarrow> ctx \<Rightarrow> string \<Rightarrow> string \<Rightarrow> 'w \<Rightarrow> run_info list res \<times> 'w" where
  "swarm_ListRuns srt cli x app tgt w =
     (case ServiceList cli x (filtersForRuns app tgt) w of
        (Inl e, w) \<Rightarrow> (Inl e, w)
      | (Inr services, w) \<Rightarrow> (case run_infos cli x services w of (runs, w) \<Rightarrow> (Inr (srt runs), w)))"

definition swarm_GetRun ::
  "(error \<Rightarrow> bool) \<Rightarrow> 'w swarm_client \<Rightarrow> ctx \<Rightarrow> string \<Rightarrow> 'w \<Rightarrow> run_info option res \<times> 'w" where
  "swarm_GetRun IsNotFound cli x i w =
     (case ServiceInspect cli x i w of
        (Inl e, w) \<Rightarrow> (if IsNotFound e then Inr None else Inl e, w)
      | (Inr s, w) \<Rightarrow> (case sw_runInfo cli x s w of (ri, w) \<Rightarrow> (Inr (Some ri), w)))"

definition swarm_RunLogs :: "'w swarm_client \<Rightarrow> ctx \<Rightarrow> string \<Rightarrow> 'w \<Rightarrow> (string \<times> error option) \<times> 'w" where
  "swarm_RunLogs cli x i w =
     (case ServiceLogs cli x i w of
        (Inl e, w) \<Rightarrow> (([], Some e), w)
      | (Inr s, w) \<Rightarrow> ((all_frames s, log_err s), w))"

section \<open>Hooks\<close>

text \<open>The hook's loop polls before it waits.\<close>

partial_function (option) sw_hook_wait :: "'w swarm_client \<Rightarrow> ctx \<Rightarrow> string \<Rightarrow> 'w \<Rightarrow> ((error + int) \<times> 'w) option" where
  "sw_hook_wait cli x i w =
     (case TaskList cli x i w of
        (r, w) \<Rightarrow>
          (case (case r of Inl _ \<Rightarrow> None | Inr ts \<Rightarrow> scan_tasks ts) of
             Some c \<Rightarrow> Some (Inr c, w)
           | None \<Rightarrow>
               (case Tick cli x w of
                  (Some (_, err), w) \<Rightarrow> Some (Inl err, w)
                | (None, w) \<Rightarrow> sw_hook_wait cli x i w)))"

definition sw_hookMounts :: "string list \<Rightarrow> mount list res" where
  "sw_hookMounts vols = res_map parse_mount vols"

definition sw_hook_spec :: "run_spec \<Rightarrow> mount list \<Rightarrow> service_spec" where
  "sw_hook_spec sp mounts =
     \<lparr>sp_Name = run_Name sp, sp_Labels = [(HookLabelKey, run_Name sp)], sp_Image = run_Image sp, sp_Command = run_Command sp,
      sp_Env = run_Env sp, sp_User = run_User sp, sp_Groups = [], sp_Mounts = mounts,
      sp_ContainerLabels = [(HookLabelKey, run_Name sp)], sp_Healthcheck = [],
      sp_Networks = (if run_Network sp \<noteq> [] then [run_Network sp] else []), sp_Constraints = None,
      sp_RestartCondition = ''none'', sp_TotalCompletions = 1\<rparr>"

definition swarm_RunOneShot :: "'w swarm_client \<Rightarrow> ctx \<Rightarrow> run_spec \<Rightarrow> 'w \<Rightarrow> (error option \<times> 'w) option" where
  "swarm_RunOneShot cli x sp w =
     (if run_Image sp = [] then Some (Some (Errorf ''hook: run mode needs an image'' []), w)
      else case sw_hookMounts (run_Volumes sp) of
        Inl e \<Rightarrow> Some (Some e, w)
      | Inr mounts \<Rightarrow>
          (case ServiceCreate cli x (sw_hook_spec sp mounts) w of
             (Inl e, w) \<Rightarrow> Some (Some (Wrapf ''create hook service: %w'' [] e), w)
           | (Inr i, w) \<Rightarrow>
               (case sw_hook_wait cli x i w of
                  None \<Rightarrow> None
                | Some (Inl e, w) \<Rightarrow> Some (Some e, snd (ServiceRemove cli (WithoutCancel x) i w))
                | Some (Inr code, w) \<Rightarrow>
                    (if code \<noteq> 0 then
                       (case sw_logs cli x i w of
                          (lg, w) \<Rightarrow>
                            Some (Some (Errorf (''hook service %s exited with code %d:'' @ [CHR 0x0A] @ ''%s'') [run_Image sp, Itoa code, lg]),
                                  snd (ServiceRemove cli (WithoutCancel x) i w)))
                     else Some (None, snd (ServiceRemove cli (WithoutCancel x) i w))))))"

fun reap_hook_services :: "'w swarm_client \<Rightarrow> ctx \<Rightarrow> service list \<Rightarrow> nat \<Rightarrow> 'w \<Rightarrow> nat \<times> 'w" where
  "reap_hook_services cli x [] n w = (n, w)"
| "reap_hook_services cli x (s # ss) n w =
     (case serviceRunning cli x (svc_ID s) w of
        (True, w) \<Rightarrow> reap_hook_services cli x ss n w
      | (False, w) \<Rightarrow>
          (case ServiceRemove cli x (svc_ID s) w of
             (None, w) \<Rightarrow> reap_hook_services cli x ss (Suc n) w
           | (Some _, w) \<Rightarrow> reap_hook_services cli x ss n w))"

definition swarm_ReapHooks :: "'w swarm_client \<Rightarrow> ctx \<Rightarrow> 'w \<Rightarrow> (nat \<times> error option) \<times> 'w" where
  "swarm_ReapHooks cli x w =
     (case ServiceList cli x [(''label'', HookLabelKey)] w of
        (Inl e, w) \<Rightarrow> ((0, Some (Wrapf ''list hook services: %w'' [] e)), w)
      | (Inr ss, w) \<Rightarrow> (case reap_hook_services cli x ss 0 w of (n, w) \<Rightarrow> ((n, None), w)))"

definition swarm_AppEnv :: "'w swarm_client \<Rightarrow> ctx \<Rightarrow> string \<Rightarrow> 'w \<Rightarrow> (string, string) gomap res \<times> 'w" where
  "swarm_AppEnv cli x i w =
     (case ServiceInspect cli x i w of
        (Inl e, w) \<Rightarrow> (Inl e, w)
      | (Inr s, w) \<Rightarrow> (Inr (if svc_Mounts s = None then [] else env_map (svc_Env s)), w))"

definition swarm_AppProject :: "'w swarm_client \<Rightarrow> ctx \<Rightarrow> string \<Rightarrow> 'w \<Rightarrow> string res \<times> 'w" where
  "swarm_AppProject cli x i w =
     (case ServiceInspect cli x i w of
        (Inl e, w) \<Rightarrow> (Inl e, w)
      | (Inr s, w) \<Rightarrow> (Inr (lookup_str (svc_Labels s) ''com.docker.compose.project''), w))"

section \<open>Host\<close>

definition swarm_EnsureCache :: "ctx \<Rightarrow> string \<Rightarrow> 'w \<Rightarrow> error option \<times> 'w" where
  "swarm_EnsureCache x name w = (None, w)"

definition swarm_VolumeHostPath :: "ctx \<Rightarrow> string \<Rightarrow> 'w \<Rightarrow> (string \<times> string) res \<times> 'w" where
  "swarm_VolumeHostPath x name w = (Inr ([], ''swarm: node-local volumes are not resolvable from a manager''), w)"

definition swarm_RunningMoverBinds :: "ctx \<Rightarrow> 'w \<Rightarrow> string list res \<times> 'w" where
  "swarm_RunningMoverBinds x w = (Inr [], w)"

section \<open>A mover returns and leaves no service behind\<close>

text \<open>One round of polling, and a context that ends: after some number of rounds the select sees its end.\<close>

definition poll_round :: "'w swarm_client \<Rightarrow> ctx \<Rightarrow> string \<Rightarrow> 'w \<Rightarrow> 'w" where
  "poll_round cli x i w = snd (TaskList cli x i (snd (Tick cli x w)))"

definition context_ends :: "'w swarm_client \<Rightarrow> ctx \<Rightarrow> bool" where
  "context_ends cli x \<longleftrightarrow> (\<forall>i w. \<exists>n. fst (Tick cli x ((poll_round cli x i ^^ n) w)) \<noteq> None)"

text \<open>A client that remembers the services it created and did not try to remove.\<close>

definition keeping :: "'w swarm_client \<Rightarrow> ('w \<times> string list) swarm_client" where
  "keeping cli = \<lparr>
     ServiceCreate = (\<lambda>x sp (w, l). case ServiceCreate cli x sp w of (r, w) \<Rightarrow> (r, w, (case r of Inr i \<Rightarrow> i # l | Inl _ \<Rightarrow> l))),
     ServiceList = (\<lambda>x fs (w, l). case ServiceList cli x fs w of (r, w) \<Rightarrow> (r, w, l)),
     ServiceInspect = (\<lambda>x i (w, l). case ServiceInspect cli x i w of (r, w) \<Rightarrow> (r, w, l)),
     ServiceUpdate = (\<lambda>x i v s (w, l). case ServiceUpdate cli x i v s w of (r, w) \<Rightarrow> (r, w, l)),
     ServiceRemove = (\<lambda>x i (w, l). case ServiceRemove cli x i w of (r, w) \<Rightarrow> (r, w, remove1 i l)),
     ServiceLogs = (\<lambda>x i (w, l). case ServiceLogs cli x i w of (r, w) \<Rightarrow> (r, w, l)),
     TaskList = (\<lambda>x i (w, l). case TaskList cli x i w of (r, w) \<Rightarrow> (r, w, l)),
     MkdirAll = (\<lambda>p (w, l). case MkdirAll cli p w of (r, w) \<Rightarrow> (r, w, l)),
     Tick = (\<lambda>x (w, l). case Tick cli x w of (r, w) \<Rightarrow> (r, w, l)),
     TimeNow = (\<lambda>(w, l). TimeNow cli w)\<rparr>"

lemma keeping_simps [simp]:
  "ServiceCreate (keeping cli) x sp (w, l) = (case ServiceCreate cli x sp w of (r, w) \<Rightarrow> (r, w, (case r of Inr i \<Rightarrow> i # l | Inl _ \<Rightarrow> l)))"
  "ServiceRemove (keeping cli) x i (w, l) = (case ServiceRemove cli x i w of (r, w) \<Rightarrow> (r, w, remove1 i l))"
  "ServiceLogs (keeping cli) x i (w, l) = (case ServiceLogs cli x i w of (r, w) \<Rightarrow> (r, w, l))"
  "TaskList (keeping cli) x i (w, l) = (case TaskList cli x i w of (r, w) \<Rightarrow> (r, w, l))"
  "MkdirAll (keeping cli) p (w, l) = (case MkdirAll cli p w of (r, w) \<Rightarrow> (r, w, l))"
  "Tick (keeping cli) x (w, l) = (case Tick cli x w of (r, w) \<Rightarrow> (r, w, l))"
  by (simp_all add: keeping_def)

lemma mkdirs_keeping: "\<exists>w'. mkdirs (keeping cli) ms (w, l) = (fst (mkdirs cli ms w), w', l)"
proof (induction ms arbitrary: w)
  case (Cons m ms)
  obtain r w1 where "MkdirAll cli (mnt_Source m) w = (r, w1)" by (metis prod.exhaust)
  with Cons[of w1] Cons[of w] show ?case by (auto split: option.split)
qed simp

lemma sw_wait_returns:
  assumes "fst (Tick cli x ((poll_round cli x i ^^ n) w)) \<noteq> None"
  shows "\<exists>r w'. sw_wait (keeping cli) x i (w, l) = Some (r, w', l)"
  using assms
proof (induction n arbitrary: w)
  case 0
  then obtain c e w1 where "Tick cli x w = (Some (c, e), w1)" by (cases "Tick cli x w") auto
  then show ?case by (subst sw_wait.simps) simp
next
  case (Suc n)
  obtain k w1 where k: "Tick cli x w = (k, w1)" by (metis prod.exhaust)
  obtain r w2 where t: "TaskList cli x i w1 = (r, w2)" by (metis prod.exhaust)
  have "poll_round cli x i w = w2" using k t by (simp add: poll_round_def)
  with Suc.IH[of w2] Suc.prems have "\<exists>r w'. sw_wait (keeping cli) x i (w2, l) = Some (r, w', l)" by (simp add: funpow_swap1)
  with k t show ?case by (subst sw_wait.simps) (auto split: option.split sum.split)
qed

lemma sw_logs_keeping: "\<exists>lg w'. sw_logs (keeping cli) x i (w, l) = (lg, w', l)"
  by (auto simp: sw_logs_def split: prod.split sum.split)

lemma sw_created_returns:
  assumes "context_ends cli x"
  shows "\<exists>res kept err out keep w'. sw_created cd (keeping cli) x req i (w, l) = Some (((res, kept, err, out), keep), w', l) \<and>
    (kept \<longrightarrow> keep \<and> req_KeepOnShutdown req \<and> err \<noteq> None \<and> err \<noteq> Some DeadlineExceeded) \<and>
    (keep \<and> \<not> kept \<longrightarrow> req_Retain req)"
proof -
  obtain n where "fst (Tick cli x ((poll_round cli x i ^^ n) w)) \<noteq> None" using assms unfolding context_ends_def by blast
  from sw_wait_returns[OF this, of l] obtain r w1 where w: "sw_wait (keeping cli) x i (w, l) = Some (r, w1, l)" by blast
  show ?thesis
  proof (cases r)
    case (Inl c) with w show ?thesis by (auto simp: sw_created_def Let_def)
  next
    case (Inr c)
    obtain lg w2 where "sw_logs (keeping cli) x i (w1, l) = (lg, w2, l)" using sw_logs_keeping by metis
    moreover have "fst (snd (sw_finish cd req c lg)) = False" by (simp add: sw_finish_def)
    then obtain res err out where "sw_finish cd req c lg = (res, False, err, out)" by (cases "sw_finish cd req c lg") auto
    ultimately show ?thesis using w Inr by (auto simp: sw_created_def)
  qed
qed

text \<open>
  C24. A mover on Swarm always returns when its context ends, whatever the cluster answers meanwhile, and leaves a service behind only on purpose: the
  services it created and did not remove are none, or the one of this run - and then the run was interrupted by a
  shutdown (never by a deadline) with a request that keeps it, or the request retains its history.
\<close>

theorem swarm_mover_returns:
  assumes "context_ends cli x"
  shows "\<exists>res kept err out w' l'. swarm_RunMover cd (keeping cli) x req (w, []) = Some ((res, kept, err, out), w', l') \<and>
    (l' = [] \<or> (\<exists>i. l' = [i]) \<and> (kept \<and> req_KeepOnShutdown req \<and> err \<noteq> None \<and> err \<noteq> Some DeadlineExceeded \<or> \<not> kept \<and> req_Retain req)) \<and>
    (kept \<longrightarrow> l' \<noteq> [])"
proof (cases "serviceSpec cd req")
  case (Inl e) then show ?thesis by (auto simp: swarm_RunMover_def intro: exI[of _ False])
next
  case (Inr spec)
  obtain m w1 where m: "mkdirs (keeping cli) (sp_Mounts spec) (w, []) = (m, w1, [])" using mkdirs_keeping by metis
  obtain c w2 where c: "ServiceCreate cli x spec w1 = (c, w2)" by (metis prod.exhaust)
  show ?thesis
  proof (cases "m \<noteq> None \<or> (\<exists>e. c = Inl e)")
    case True
    then show ?thesis using Inr m c by (cases m) (auto simp: swarm_RunMover_def intro: exI[of _ False])
  next
    case False
    then obtain i where i: "m = None" "c = Inr i" by (cases c) auto
    obtain res kept err out keep w3 where r: "sw_created cd (keeping cli) x req i (w2, [i]) = Some (((res, kept, err, out), keep), w3, [i])"
      and k: "kept \<longrightarrow> keep \<and> req_KeepOnShutdown req \<and> err \<noteq> None \<and> err \<noteq> Some DeadlineExceeded" "keep \<and> \<not> kept \<longrightarrow> req_Retain req"
      using sw_created_returns[OF assms] by metis
    obtain e w4 where e: "ServiceRemove cli (WithoutCancel x) i w3 = (e, w4)" by (metis prod.exhaust)
    have "swarm_RunMover cd (keeping cli) x req (w, []) = Some ((res, kept, err, out), if keep then (w3, [i]) else (w4, []))"
      using Inr m c i r e by (simp add: swarm_RunMover_def)
    with k show ?thesis by (cases keep) auto
  qed
qed

text \<open>A cluster that accepts everything and never reports a task, seen through a context that is cancelled at once.\<close>

definition idle_swarm :: "unit swarm_client" where
  "idle_swarm = \<lparr>
     ServiceCreate = (\<lambda>x sp w. (Inr ''svc'', w)),
     ServiceList = (\<lambda>x fs w. (Inr [], w)),
     ServiceInspect = (\<lambda>x r w. (Inl (External ''not found''), w)),
     ServiceUpdate = (\<lambda>x r v s w. (None, w)),
     ServiceRemove = (\<lambda>x i w. (None, w)),
     ServiceLogs = (\<lambda>x i w. (Inr \<lparr>log_frames = [], log_err = None\<rparr>, w)),
     TaskList = (\<lambda>x i w. (Inr [], w)),
     MkdirAll = (\<lambda>p w. (None, w)),
     Tick = (\<lambda>x w. (Some (Canceled, Canceled), w)),
     TimeNow = (\<lambda>w. 0)\<rparr>"

theorem swarm_mover_returns_witness:
  "\<exists>res err out w' l'. swarm_RunMover \<lparr>cd_encode_spec = (\<lambda>s. Inr ''{}''), cd_decode_result = (\<lambda>l. Inr no_result)\<rparr> (keeping idle_swarm) Caller
      (tool_request demo_oc ''shop'' demo_target empty_mover_spec [] True [] False 7) ((), []) = Some ((res, False, err, out), w', l') \<and> l' = []"
proof -
  let ?cd = "\<lparr>cd_encode_spec = (\<lambda>s. Inr ''{}''), cd_decode_result = (\<lambda>l. Inr no_result)\<rparr>"
  let ?req = "tool_request demo_oc ''shop'' demo_target empty_mover_spec [] True [] False 7"
  have "context_ends idle_swarm Caller" by (simp add: context_ends_def idle_swarm_def)
  from swarm_mover_returns[OF this, of ?cd ?req "()"] show ?thesis
    by (auto simp: tool_request_def split: prod.splits)
qed

end
