(* ===== verification/Swarm_Quiesce.thy ===== *)
theory Swarm_Quiesce
  imports Swarm_Engine
begin

text \<open>
  The Swarm quiescer (\<^verbatim>\<open>internal/engine/swarm/quiesce.go\<close>). \<open>swarm_store\<close> states what it relies on: the store of services behind the
  client. The drain loop polls every 500 ms for 30 s: ticks are at least that far apart, so 61 polls reach the deadline.
\<close>

section \<open>Scaling down and up\<close>

definition quiesceReplicasLabel :: string where
  "quiesceReplicasLabel = ''sabon.quiesce.replicas''"

definition quiesceInstanceLabel :: string where
  "quiesceInstanceLabel = ''sabon.quiesce.instance''"

definition FormatUint :: "64 word \<Rightarrow> string" where
  "FormatUint n = digits (unat n)"

definition ParseUint :: "string \<Rightarrow> 64 word option" where
  "ParseUint s = (case parse_digits s of Some n \<Rightarrow> if n < 2 ^ 64 then Some (word_of_nat n) else None | None \<Rightarrow> None)"

definition scale :: "'w swarm_client \<Rightarrow> ctx \<Rightarrow> string \<Rightarrow> nat \<Rightarrow> service \<Rightarrow> 64 word \<Rightarrow> 'w \<Rightarrow> error option \<times> 'w" where
  "scale cli x ref version spec n w =
     (case ServiceUpdate cli x ref version (spec\<lparr>svc_Replicated := Some (Some n)\<rparr>) w of
        (Some e, w) \<Rightarrow> (Some (Wrapf ''scale service %q to %d: %w'' [ref, FormatUint n] e), w)
      | (None, w) \<Rightarrow> (None, w))"

fun drain_loop :: "nat \<Rightarrow> 'w swarm_client \<Rightarrow> ctx \<Rightarrow> string \<Rightarrow> int \<Rightarrow> 'w \<Rightarrow> 'w" where
  "drain_loop 0 cli x ref deadline w = w"
| "drain_loop (Suc n) cli x ref deadline w =
     (case TaskList cli x ref w of
        (r, w) \<Rightarrow>
          if (case r of Inr ts \<Rightarrow> \<not> anyRunning ts | Inl _ \<Rightarrow> False) then w
          else case Tick cli x w of
            (Some _, w) \<Rightarrow> w
          | (None, w) \<Rightarrow> if TimeNow cli w > deadline then w else drain_loop n cli x ref deadline w)"

definition drain :: duration where
  "drain = 30000000000"

definition waitDrained :: "'w swarm_client \<Rightarrow> ctx \<Rightarrow> string \<Rightarrow> 'w \<Rightarrow> 'w" where
  "waitDrained cli x ref w = drain_loop 61 cli x ref (TimeNow cli w + drain) w"

text \<open>The labels of a service that is about to be scaled to zero: the count is recorded once.\<close>

definition record_replicas :: "string \<Rightarrow> 64 word option \<Rightarrow> (string, string) gomap \<Rightarrow> (string, string) gomap" where
  "record_replicas inst reps labels =
     (if map_of labels quiesceReplicasLabel \<noteq> None then labels
      else let labels = AList.update quiesceReplicasLabel (FormatUint (case reps of Some n \<Rightarrow> n | None \<Rightarrow> 1)) labels
        in if inst \<noteq> [] then AList.update quiesceInstanceLabel inst labels else labels)"

definition swarm_Stop :: "'w swarm_client \<Rightarrow> string \<Rightarrow> ctx \<Rightarrow> string \<Rightarrow> 'w \<Rightarrow> error option \<times> 'w" where
  "swarm_Stop cli inst x ref w =
     (case ServiceInspect cli x ref w of
        (Inl e, w) \<Rightarrow> (Some (Wrapf ''inspect service %q: %w'' [ref] e), w)
      | (Inr s, w) \<Rightarrow>
          (case svc_Replicated s of
             None \<Rightarrow> (Some (Errorf ''service %q is not replicated; a cold backup can only scale replicated services to zero'' [ref]), w)
           | Some reps \<Rightarrow>
               (case scale cli x ref (svc_Version s) (s\<lparr>svc_Labels := record_replicas inst reps (svc_Labels s)\<rparr>) 0 w of
                  (Some e, w) \<Rightarrow> (Some e, w)
                | (None, w) \<Rightarrow> (None, waitDrained cli x ref w))))"

definition restore :: "'w swarm_client \<Rightarrow> ctx \<Rightarrow> string \<Rightarrow> service \<Rightarrow> 'w \<Rightarrow> error option \<times> 'w" where
  "restore cli x ref s w =
     (case map_of (svc_Labels s) quiesceReplicasLabel of
        None \<Rightarrow> (None, w)
      | Some raw \<Rightarrow>
          scale cli x ref (svc_Version s)
            (s\<lparr>svc_Labels := AList.delete quiesceInstanceLabel (AList.delete quiesceReplicasLabel (svc_Labels s))\<rparr>)
            (case ParseUint raw of Some n \<Rightarrow> n | None \<Rightarrow> 1) w)"

definition swarm_Start :: "'w swarm_client \<Rightarrow> ctx \<Rightarrow> string \<Rightarrow> 'w \<Rightarrow> error option \<times> 'w" where
  "swarm_Start cli x ref w =
     (case ServiceInspect cli x ref w of
        (Inl e, w) \<Rightarrow> (Some (Wrapf ''inspect service %q: %w'' [ref] e), w)
      | (Inr s, w) \<Rightarrow> restore cli x ref s w)"

fun recover_loop :: "'w swarm_client \<Rightarrow> ctx \<Rightarrow> service list \<Rightarrow> nat \<Rightarrow> 'w \<Rightarrow> nat \<times> 'w" where
  "recover_loop cli x [] n w = (n, w)"
| "recover_loop cli x (s # ss) n w =
     (case restore cli x (svc_ID s) s w of
        (None, w) \<Rightarrow> recover_loop cli x ss (Suc n) w
      | (Some _, w) \<Rightarrow> recover_loop cli x ss n w)"

definition quiesce_filters :: "string \<Rightarrow> (string \<times> string) list" where
  "quiesce_filters inst =
     [(''label'', quiesceReplicasLabel)] @ (if inst \<noteq> [] then [(''label'', quiesceInstanceLabel @ ''='' @ inst)] else [])"

definition RecoverQuiesced :: "'w swarm_client \<Rightarrow> string \<Rightarrow> ctx \<Rightarrow> 'w \<Rightarrow> (nat \<times> error option) \<times> 'w" where
  "RecoverQuiesced cli inst x w =
     (case ServiceList cli x (quiesce_filters inst) w of
        (Inl e, w) \<Rightarrow> ((0, Some (Wrapf ''list quiesced services: %w'' [] e)), w)
      | (Inr ss, w) \<Rightarrow> (case recover_loop cli x ss 0 w of (n, w) \<Rightarrow> ((n, None), w)))"

section \<open>The store behind the client\<close>

text \<open>A label filter is a key, or a key and a value.\<close>

definition label_match :: "(string \<times> string) list \<Rightarrow> service \<Rightarrow> bool" where
  "label_match fs s = list_all (\<lambda>(kind, f). kind = ''label'' \<longrightarrow>
     (case Cut f ''='' of (k, v, ok) \<Rightarrow> if ok then map_of (svc_Labels s) k = Some v else map_of (svc_Labels s) k \<noteq> None)) fs"

text \<open>
  \<open>store w\<close> maps an id to its service, \<open>sid\<close> a reference (a name or an id) to the id. Reads do not change the store, an accepted
  update replaces the service under a new version, a listing is the matching services.
\<close>

definition swarm_store :: "'w swarm_client \<Rightarrow> ('w \<Rightarrow> string \<rightharpoonup> service) \<Rightarrow> (string \<Rightarrow> string) \<Rightarrow> bool" where
  "swarm_store cli store sid \<longleftrightarrow>
     (\<forall>x r w. case ServiceInspect cli x r w of
        (Inl _, w') \<Rightarrow> store w' = store w
      | (Inr s, w') \<Rightarrow> store w' = store w \<and> store w (sid r) = Some s) \<and>
     (\<forall>x r v s w. case ServiceUpdate cli x r v s w of
        (Some _, w') \<Rightarrow> store w' = store w
      | (None, w') \<Rightarrow> \<exists>v'. store w' = (store w)(sid r \<mapsto> s\<lparr>svc_ID := sid r, svc_Version := v'\<rparr>)) \<and>
     (\<forall>x fs w. case ServiceList cli x fs w of
        (Inl _, w') \<Rightarrow> store w' = store w
      | (Inr ss, w') \<Rightarrow> store w' = store w \<and> distinct (map svc_ID ss) \<and>
          (\<forall>s. s \<in> set ss \<longleftrightarrow> store w (svc_ID s) = Some s \<and> label_match fs s)) \<and>
     (\<forall>x i w. store (snd (TaskList cli x i w)) = store w) \<and> (\<forall>x w. store (snd (Tick cli x w)) = store w) \<and>
     (\<forall>w i s. store w i = Some s \<longrightarrow> svc_ID s = i \<and> sid i = i) \<and> (\<forall>r. sid (sid r) = sid r)"

lemma swarm_storeD:
  assumes "swarm_store cli store sid"
  shows "ServiceInspect cli x r w = (Inl e, w') \<Longrightarrow> store w' = store w"
    "ServiceInspect cli x r w = (Inr s, w') \<Longrightarrow> store w' = store w \<and> store w (sid r) = Some s"
    "ServiceUpdate cli x r v s w = (Some e, w') \<Longrightarrow> store w' = store w"
    "ServiceUpdate cli x r v s w = (None, w') \<Longrightarrow> \<exists>v'. store w' = (store w)(sid r \<mapsto> s\<lparr>svc_ID := sid r, svc_Version := v'\<rparr>)"
    "ServiceList cli x fs w = (Inl e, w') \<Longrightarrow> store w' = store w"
    "ServiceList cli x fs w = (Inr ss, w') \<Longrightarrow> store w' = store w \<and> distinct (map svc_ID ss) \<and>
       (\<forall>s. s \<in> set ss \<longleftrightarrow> store w (svc_ID s) = Some s \<and> label_match fs s)"
    "store (snd (TaskList cli x i w)) = store w" "store (snd (Tick cli x w)) = store w"
    "store w i = Some s \<Longrightarrow> svc_ID s = i" "store w i = Some s \<Longrightarrow> sid i = i" "sid (sid r) = sid r"
proof -
  note d = assms[unfolded swarm_store_def]
  note inspect = d[THEN conjunct1, THEN spec, of x, THEN spec, of r, THEN spec, of w]
  note update = d[THEN conjunct2, THEN conjunct1, THEN spec, of x, THEN spec, of r, THEN spec, of v, THEN spec, of s, THEN spec, of w]
  note lst = d[THEN conjunct2, THEN conjunct2, THEN conjunct1, THEN spec, of x, THEN spec, of fs, THEN spec, of w]
  show "ServiceInspect cli x r w = (Inl e, w') \<Longrightarrow> store w' = store w"
    "ServiceInspect cli x r w = (Inr s, w') \<Longrightarrow> store w' = store w \<and> store w (sid r) = Some s" using inspect by simp_all
  show "ServiceUpdate cli x r v s w = (Some e, w') \<Longrightarrow> store w' = store w"
    "ServiceUpdate cli x r v s w = (None, w') \<Longrightarrow> \<exists>v'. store w' = (store w)(sid r \<mapsto> s\<lparr>svc_ID := sid r, svc_Version := v'\<rparr>)"
    using update by simp_all
  show "ServiceList cli x fs w = (Inl e, w') \<Longrightarrow> store w' = store w"
    "ServiceList cli x fs w = (Inr ss, w') \<Longrightarrow> store w' = store w \<and> distinct (map svc_ID ss) \<and>
       (\<forall>s. s \<in> set ss \<longleftrightarrow> store w (svc_ID s) = Some s \<and> label_match fs s)" using lst by simp_all
  show "store (snd (TaskList cli x i w)) = store w" "store (snd (Tick cli x w)) = store w"
    "store w i = Some s \<Longrightarrow> svc_ID s = i" "store w i = Some s \<Longrightarrow> sid i = i" "sid (sid r) = sid r" using d by blast+
qed

section \<open>A quiesced service comes back\<close>

lemma ParseUint_FormatUint [simp]: "ParseUint (FormatUint n) = Some n"
proof -
  have "unat n < 2 ^ 64" using unsigned_less[of n] by simp
  then show ?thesis by (simp add: ParseUint_def FormatUint_def parse_digits_def list_all_iff digits_are_digits)
qed

lemma waitDrained_store: "swarm_store cli store sid \<Longrightarrow> store (waitDrained cli x ref w) = store w"
proof -
  assume l: "swarm_store cli store sid"
  have "store (drain_loop n cli x ref d w) = store w" for n d w
  proof (induction n arbitrary: w)
    case (Suc n)
    obtain r w1 where t: "TaskList cli x ref w = (r, w1)" by (metis prod.exhaust)
    obtain e w2 where k: "Tick cli x w1 = (e, w2)" by (metis prod.exhaust)
    have "store w1 = store w" "store w2 = store w1" using swarm_storeD(7)[OF l, of x ref w] swarm_storeD(8)[OF l, of x w1] t k by simp_all
    with t k Suc.IH[of w2] show ?case by (simp split: option.split)
  qed simp
  then show ?thesis by (simp add: waitDrained_def)
qed

text \<open>The service that the store holds while the app is down, and the one it holds again afterwards.\<close>

definition quiesced :: "string \<Rightarrow> 64 word option \<Rightarrow> service \<Rightarrow> service" where
  "quiesced inst reps s = s\<lparr>svc_Labels := record_replicas inst reps (svc_Labels s), svc_Replicated := Some (Some 0)\<rparr>"

definition at_version :: "nat \<Rightarrow> service \<Rightarrow> service" where
  "at_version v s = s\<lparr>svc_Version := v\<rparr>"

definition running_again :: "64 word option \<Rightarrow> service \<Rightarrow> service" where
  "running_again reps s = s\<lparr>svc_Replicated := Some (Some (case reps of Some n \<Rightarrow> n | None \<Rightarrow> 1))\<rparr>"

lemma with_id: "svc_ID s = i \<Longrightarrow> s\<lparr>svc_ID := i, svc_Version := v\<rparr> = at_version v s"
  by (cases s) (simp add: at_version_def)

lemma delete_append: "AList.delete k (xs @ ys) = AList.delete k xs @ AList.delete k ys"
  by (simp add: AList.delete_eq)

lemma record_replicas_recorded: "map_of (record_replicas inst reps l) quiesceReplicasLabel \<noteq> None"
  by (auto simp: record_replicas_def update_conv Let_def)

lemma record_replicas_twice [simp]: "record_replicas inst' reps' (record_replicas inst reps l) = record_replicas inst reps l"
  using record_replicas_recorded[of inst reps l] unfolding record_replicas_def[of inst' reps'] by simp

lemma Stop_store:
  assumes "swarm_store cli store sid" "swarm_Stop cli inst x ref w = (None, w')" "store w (sid ref) = Some s" "svc_Replicated s = Some reps"
  shows "\<exists>v. store w' = (store w)(sid ref \<mapsto> at_version v (quiesced inst reps s))"
proof -
  from assms(2) obtain s1 w1 where i: "ServiceInspect cli x ref w = (Inr s1, w1)" by (auto simp: swarm_Stop_def split: prod.splits sum.splits)
  have s1: "store w1 = store w" "s1 = s" using swarm_storeD(2)[OF assms(1) i] assms(3) by simp_all
  from assms(2,4) i s1(2) obtain w2 where u: "ServiceUpdate cli x ref (svc_Version s) (quiesced inst reps s) w1 = (None, w2)" and w': "w' = waitDrained cli x ref w2"
    by (auto simp: swarm_Stop_def scale_def quiesced_def split: prod.splits option.splits)
  have "svc_ID (quiesced inst reps s) = sid ref" using swarm_storeD(9)[OF assms(1,3)] by (simp add: quiesced_def)
  from swarm_storeD(4)[OF assms(1) u] s1(1) waitDrained_store[OF assms(1)] w' with_id[OF this] show ?thesis by simp
qed

lemma restore_store:
  assumes "swarm_store cli store sid" "restore cli x ref (at_version v (quiesced inst reps s)) w = (None, w')" "svc_ID s = sid ref"
    and "map_of (svc_Labels s) quiesceReplicasLabel = None" "map_of (svc_Labels s) quiesceInstanceLabel = None"
  shows "\<exists>v'. store w' = (store w)(sid ref \<mapsto> at_version v' (running_again reps s))"
proof -
  let ?l = "svc_Labels s" and ?n = "case reps of Some n \<Rightarrow> n | None \<Rightarrow> 1"
  have ne: "quiesceInstanceLabel \<noteq> quiesceReplicasLabel" by (simp add: quiesceInstanceLabel_def quiesceReplicasLabel_def)
  have raw: "map_of (record_replicas inst reps ?l) quiesceReplicasLabel = Some (FormatUint ?n)"
    using assms(4) ne by (simp add: record_replicas_def update_conv Let_def)
  have none: "AList.delete k ?l = ?l" if "map_of ?l k = None" for k using that by (simp add: delete_id map_of_eq_None_iff)
  have del: "AList.delete quiesceInstanceLabel (AList.delete quiesceReplicasLabel (record_replicas inst reps ?l)) = ?l"
    using assms(4,5) ne none[OF assms(4)] none[OF assms(5)]
    by (simp add: record_replicas_def Let_def update_new delete_append)
  obtain w2 where "ServiceUpdate cli x ref v (running_again reps (at_version v s)) w = (None, w2)" "w' = w2"
    using assms(2) raw del
    by (auto simp: restore_def scale_def at_version_def quiesced_def running_again_def split: prod.splits option.splits)
  moreover have "svc_ID (running_again reps (at_version v s)) = sid ref" using assms(3) by (simp add: at_version_def running_again_def)
  moreover have "at_version v' (running_again reps (at_version v s)) = at_version v' (running_again reps s)" for v' by (simp add: at_version_def running_again_def)
  ultimately show ?thesis using swarm_storeD(4)[OF assms(1)] with_id by metis
qed

text \<open>Stops of the same service in a row, all of them accepted: a retry, or overlapping cold backups.\<close>

fun stop_times :: "nat \<Rightarrow> 'w swarm_client \<Rightarrow> string \<Rightarrow> ctx \<Rightarrow> string \<Rightarrow> 'w \<Rightarrow> 'w option" where
  "stop_times 0 cli inst x ref w = Some w"
| "stop_times (Suc k) cli inst x ref w =
     (case swarm_Stop cli inst x ref w of (None, w) \<Rightarrow> stop_times k cli inst x ref w | (Some _, w) \<Rightarrow> None)"

lemma stop_times_store:
  assumes "swarm_store cli store sid" "svc_Replicated s = Some reps"
  shows "stop_times k cli inst x ref w = Some w' \<Longrightarrow> store w (sid ref) = Some (at_version v (quiesced inst reps s)) \<Longrightarrow>
    \<exists>v. store w' (sid ref) = Some (at_version v (quiesced inst reps s))"
proof (induction k arbitrary: w v)
  case (Suc k)
  from Suc.prems(1) obtain w1 where s: "swarm_Stop cli inst x ref w = (None, w1)" "stop_times k cli inst x ref w1 = Some w'"
    by (auto split: prod.splits option.splits)
  have "svc_Replicated (at_version v (quiesced inst reps s)) = Some (Some 0)" by (simp add: at_version_def quiesced_def)
  from Stop_store[OF assms(1) s(1) Suc.prems(2) this] obtain v1
    where "store w1 (sid ref) = Some (at_version v1 (quiesced inst (Some 0) (at_version v (quiesced inst reps s))))" by auto
  moreover have "at_version v1 (quiesced inst (Some 0) (at_version v (quiesced inst reps s))) = at_version v1 (quiesced inst reps s)"
    by (simp add: at_version_def quiesced_def)
  ultimately show ?case using Suc.IH[OF s(2)] by simp
qed auto

lemma stopped_store:
  assumes "swarm_store cli store sid" "stop_times (Suc k) cli inst x ref w = Some w'" "store w (sid ref) = Some s" "svc_Replicated s = Some reps"
  shows "\<exists>v. store w' (sid ref) = Some (at_version v (quiesced inst reps s))"
proof -
  from assms(2) obtain w1 where s: "swarm_Stop cli inst x ref w = (None, w1)" "stop_times k cli inst x ref w1 = Some w'"
    by (auto split: prod.splits option.splits)
  from Stop_store[OF assms(1) s(1) assms(3,4)] stop_times_store[OF assms(1,4) s(2)] show ?thesis by auto
qed
text \<open>A sweep that restores every listed service changes each of them under its own id only.\<close>

lemma restore_other:
  assumes "swarm_store cli store sid" "restore cli x ref s w = (e, w')" "i \<noteq> sid ref"
  shows "store w' i = store w i"
proof (cases "map_of (svc_Labels s) quiesceReplicasLabel")
  case None with assms(2) show ?thesis by (simp add: restore_def)
next
  case (Some raw)
  obtain v sp r w1 where u: "ServiceUpdate cli x ref v sp w = (r, w1)" and w': "w' = w1"
    using assms(2) Some by (auto simp: restore_def scale_def split: prod.splits option.splits)
  show ?thesis
  proof (cases r)
    case None
    with u obtain v' where "store w1 = (store w)(sid ref \<mapsto> sp\<lparr>svc_ID := sid ref, svc_Version := v'\<rparr>)"
      using swarm_storeD(4)[OF assms(1)] by blast
    with assms(3) w' show ?thesis by simp
  next
    case (Some e) with u w' swarm_storeD(3)[OF assms(1)] show ?thesis by metis
  qed
qed

lemma recover_count: "recover_loop cli x ss n w = (m, w') \<Longrightarrow> m \<le> n + length ss"
proof (induction ss arbitrary: n w)
  case (Cons s ss)
  obtain e w1 where r: "restore cli x (svc_ID s) s w = (e, w1)" by (metis prod.exhaust)
  with Cons.prems Cons.IH[of n w1] Cons.IH[of "Suc n" w1] show ?case by (cases e) auto
qed simp

lemma recover_each:
  assumes "swarm_store cli store sid"
  shows "recover_loop cli x ss n w = (n + length ss, w') \<Longrightarrow> distinct (map svc_ID ss) \<Longrightarrow> \<forall>s\<in>set ss. sid (svc_ID s) = svc_ID s \<Longrightarrow> s \<in> set ss \<Longrightarrow>
    \<exists>w0 w1. restore cli x (svc_ID s) s w0 = (None, w1) \<and> store w' (svc_ID s) = store w1 (svc_ID s)"
proof (induction ss arbitrary: n w)
  case (Cons t ss)
  obtain e w1 where r: "restore cli x (svc_ID t) t w = (e, w1)" by (metis prod.exhaust)
  have "e = None"
  proof (rule ccontr)
    assume "e \<noteq> None"
    with r Cons.prems(1) have "recover_loop cli x ss n w1 = (n + length (t # ss), w')" by auto
    with recover_count[of cli x ss n w1] show False by fastforce
  qed
  with r Cons.prems(1) have rest: "recover_loop cli x ss (Suc n) w1 = (Suc n + length ss, w')" by simp
  show ?case
  proof (cases "s = t")
    case True
    have "store w'' (svc_ID t) = store w2 (svc_ID t)" if "recover_loop cli x us m w2 = (m', w'')" "svc_ID t \<notin> set (map svc_ID us)" "\<forall>s\<in>set us. sid (svc_ID s) = svc_ID s" for us m m' w2 w''
      using that
    proof (induction us arbitrary: m w2)
      case (Cons u us)
      obtain e w3 where "restore cli x (svc_ID u) u w2 = (e, w3)" by (metis prod.exhaust)
      with Cons restore_other[OF assms this, of "svc_ID t"] show ?case by (auto split: option.splits)
    qed simp
    from this[OF rest] Cons.prems(2,3) have "store w' (svc_ID t) = store w1 (svc_ID t)" by simp
    with True r \<open>e = None\<close> show ?thesis by blast
  next
    case False
    with Cons.IH[OF rest] Cons.prems(2-4) show ?thesis by simp
  qed
qed simp

lemma quiesced_matches:
  assumes "map_of (svc_Labels s) quiesceReplicasLabel = None"
  shows "label_match (quiesce_filters inst) (at_version v (quiesced inst reps s))"
proof -
  have ne: "quiesceInstanceLabel \<noteq> quiesceReplicasLabel" "quiesceReplicasLabel \<noteq> quiesceInstanceLabel"
    by (simp_all add: quiesceInstanceLabel_def quiesceReplicasLabel_def)
  have c: "Cut quiesceReplicasLabel ''='' = (quiesceReplicasLabel, [], False)"
    "Cut (quiesceInstanceLabel @ CHR ''='' # inst) ''='' = (quiesceInstanceLabel, inst, True)"
    by (simp_all add: quiesceInstanceLabel_def quiesceReplicasLabel_def Cut_char[of "CHR ''=''" "''sabon.quiesce.instance''", simplified])
  show ?thesis
    using assms ne by (simp add: label_match_def quiesce_filters_def c at_version_def quiesced_def record_replicas_def update_conv Let_def)
qed

text \<open>
  C5. A service scaled down for a cold backup always comes back as it was: however often it was stopped in a row (a retry, overlapping
  backups), it is at zero replicas meanwhile, and a start - or, after a crash at any point in between, the recovery sweep at the
  next start of the daemon, when its updates are accepted - restores its own replica count (one where none was set) and
  leaves no trace in its labels; everything else of the service is unchanged except the version.
\<close>

theorem quiesced_service_comes_back:
  assumes "swarm_store cli store sid" "store w (sid ref) = Some s" "svc_Replicated s = Some reps"
    and "map_of (svc_Labels s) quiesceReplicasLabel = None" "map_of (svc_Labels s) quiesceInstanceLabel = None"
    and "stop_times (Suc k) cli inst x ref w = Some w1"
  shows "(\<exists>s1. store w1 (sid ref) = Some s1 \<and> svc_Replicated s1 = Some (Some 0)) \<and>
    (\<forall>y w2. swarm_Start cli y ref w1 = (None, w2) \<longrightarrow>
       (\<exists>v. store w2 (sid ref) = Some (s\<lparr>svc_Version := v, svc_Replicated := Some (Some (case reps of Some n \<Rightarrow> n | None \<Rightarrow> 1))\<rparr>))) \<and>
    (\<forall>y w2 n. RecoverQuiesced cli inst y w1 = ((n, None), w2) \<and> n = card {i. \<exists>t. store w1 i = Some t \<and> label_match (quiesce_filters inst) t} \<longrightarrow>
       (\<exists>v. store w2 (sid ref) = Some (s\<lparr>svc_Version := v, svc_Replicated := Some (Some (case reps of Some n \<Rightarrow> n | None \<Rightarrow> 1))\<rparr>)))"
proof -
  obtain v where st: "store w1 (sid ref) = Some (at_version v (quiesced inst reps s))" using stopped_store[OF assms(1,6,2,3)] by blast
  let ?q = "at_version v (quiesced inst reps s)"
  have id: "svc_ID s = sid ref" "sid (sid ref) = sid ref" using swarm_storeD(9,11)[OF assms(1)] assms(2) by blast+
  have eq: "at_version v (running_again reps s) = s\<lparr>svc_Version := v, svc_Replicated := Some (Some (case reps of Some n \<Rightarrow> n | None \<Rightarrow> 1))\<rparr>" for v
    by (cases s) (simp add: at_version_def running_again_def)
  note again = restore_store[OF assms(1) _ _ assms(4,5)]
  have start: "\<exists>v. store w2 (sid ref) = Some (s\<lparr>svc_Version := v, svc_Replicated := Some (Some (case reps of Some n \<Rightarrow> n | None \<Rightarrow> 1))\<rparr>)"
    if s: "swarm_Start cli y ref w1 = (None, w2)" for y w2
  proof -
    from s obtain t w3 where i: "ServiceInspect cli y ref w1 = (Inr t, w3)" by (auto simp: swarm_Start_def split: prod.splits sum.splits)
    with swarm_storeD(2)[OF assms(1) i] st s have "restore cli y ref ?q w3 = (None, w2)" by (simp add: swarm_Start_def)
    from again[OF this id(1)] show ?thesis by (auto simp: eq)
  qed
  have recover: "\<exists>v. store w2 (sid ref) = Some (s\<lparr>svc_Version := v, svc_Replicated := Some (Some (case reps of Some n \<Rightarrow> n | None \<Rightarrow> 1))\<rparr>)"
    if r: "RecoverQuiesced cli inst y w1 = ((n, None), w2)"
      and n: "n = card {i. \<exists>t. store w1 i = Some t \<and> label_match (quiesce_filters inst) t}" for y w2 n
  proof -
    from r obtain ss w3 where l: "ServiceList cli y (quiesce_filters inst) w1 = (Inr ss, w3)" and loop: "recover_loop cli y ss 0 w3 = (n, w2)"
      by (auto simp: RecoverQuiesced_def split: prod.splits sum.splits)
    note ss = swarm_storeD(6)[OF assms(1) l]
    have "{i. \<exists>t. store w1 i = Some t \<and> label_match (quiesce_filters inst) t} = svc_ID ` set ss"
      using ss swarm_storeD(9)[OF assms(1), of w1] by (auto simp: image_iff) (metis)+
    with n ss have "n = length ss" by (metis distinct_card set_map length_map)
    moreover have q: "svc_ID ?q = sid ref" using id(1) by (simp add: at_version_def quiesced_def)
    then have "?q \<in> set ss" using ss st quiesced_matches[OF assms(4)] by simp
    moreover have "\<forall>t\<in>set ss. sid (svc_ID t) = svc_ID t" using ss swarm_storeD(10)[OF assms(1)] by blast
    ultimately obtain w0 w4 where "restore cli y (svc_ID ?q) ?q w0 = (None, w4)" "store w2 (svc_ID ?q) = store w4 (svc_ID ?q)"
      using recover_each[OF assms(1), of y ss 0 w3 w2 ?q] loop ss by auto
    with q again[of y "sid ref" v inst reps w0 w4] id show ?thesis by (auto simp: eq)
  qed
  have "svc_Replicated ?q = Some (Some 0)" by (simp add: at_version_def quiesced_def)
  with st start recover show ?thesis by blast
qed

text \<open>A store in memory, for the example: an association list from id to service, where names are ids.\<close>

definition mem_store :: "(string \<times> service) list \<Rightarrow> string \<rightharpoonup> service" where
  "mem_store w i = map_option (\<lambda>s. s\<lparr>svc_ID := i\<rparr>) (map_of w i)"

definition mem_swarm :: "(string \<times> service) list swarm_client" where
  "mem_swarm = \<lparr>
     ServiceCreate = (\<lambda>x sp w. (Inr ''id'', w)),
     ServiceList = (\<lambda>x fs w. (Inr (filter (label_match fs) (List.map_filter (mem_store w) (remdups (map fst w)))), w)),
     ServiceInspect = (\<lambda>x r w. (case mem_store w r of Some s \<Rightarrow> Inr s | None \<Rightarrow> Inl (External ''not found''), w)),
     ServiceUpdate = (\<lambda>x r v s w. (None, AList.update r (s\<lparr>svc_Version := Suc v\<rparr>) w)),
     ServiceRemove = (\<lambda>x i w. (None, w)),
     ServiceLogs = (\<lambda>x i w. (Inr \<lparr>log_frames = [], log_err = None\<rparr>, w)),
     TaskList = (\<lambda>x i w. (Inr [], w)),
     MkdirAll = (\<lambda>p w. (None, w)),
     Tick = (\<lambda>x w. (None, w)),
     TimeNow = (\<lambda>w. 0)\<rparr>"

lemma mem_swarm_store: "swarm_store mem_swarm mem_store id"
proof -
  have lst: "s \<in> set (List.map_filter (mem_store w) (remdups (map fst w))) \<longleftrightarrow> mem_store w (svc_ID s) = Some s" for w s
  proof
    assume "s \<in> set (List.map_filter (mem_store w) (remdups (map fst w)))"
    then show "mem_store w (svc_ID s) = Some s" by (auto simp: List.map_filter_def mem_store_def)
  next
    assume s: "mem_store w (svc_ID s) = Some s"
    then have "svc_ID s \<in> set (map fst w)" by (auto simp: mem_store_def dest!: map_of_SomeD intro: rev_image_eqI)
    with s show "s \<in> set (List.map_filter (mem_store w) (remdups (map fst w)))" by (force simp: List.map_filter_def image_iff)
  qed
  have dist: "distinct (map svc_ID (filter P (List.map_filter (mem_store w) (remdups ks))))" for P w ks
  proof -
    have "distinct us \<Longrightarrow> distinct (map svc_ID (List.map_filter (mem_store w) us))" for us
      by (induction us) (auto simp: List.map_filter_def mem_store_def)
    then show ?thesis by (simp add: distinct_map_filter_key)
  qed
  have upd: "mem_store (AList.update r (s\<lparr>svc_Version := Suc v\<rparr>) w) = (mem_store w)(r \<mapsto> s\<lparr>svc_ID := r, svc_Version := Suc v\<rparr>)" for r v s w
    by (cases s) (auto simp: mem_store_def update_conv fun_eq_iff)
  show ?thesis
    unfolding swarm_store_def mem_swarm_def using lst dist upd
    by (auto split: option.split simp: mem_store_def)
qed

lemma mem_start: "mem_store w r = Some s \<Longrightarrow> \<exists>w'. swarm_Start mem_swarm x r w = (None, w')"
  by (simp add: swarm_Start_def restore_def scale_def mem_swarm_def split: option.split)

theorem quiesced_service_comes_back_witness:
  "let s = \<lparr>svc_ID = ''web'', svc_Version = 4, svc_CreatedAt = 0, svc_Name = ''web'', svc_Labels = [(''sabon.enable'', ''true'')],
        svc_Mounts = Some [], svc_Env = [], svc_Constraints = None, svc_Replicated = Some (Some 3)\<rparr>;
       w1 = the (stop_times 2 mem_swarm ''nas'' Caller ''web'' [(''web'', s)]);
       (e, w2) = swarm_Start mem_swarm Caller ''web'' w1
   in \<exists>v. mem_store w2 ''web'' = Some (s\<lparr>svc_Version := v, svc_Replicated := Some (Some 3)\<rparr>)"
proof -
  let ?s = "\<lparr>svc_ID = ''web'', svc_Version = 4, svc_CreatedAt = 0, svc_Name = ''web'', svc_Labels = [(''sabon.enable'', ''true'')],
        svc_Mounts = Some [], svc_Env = [], svc_Constraints = None, svc_Replicated = Some (Some 3)\<rparr>"
  let ?w1 = "the (stop_times 2 mem_swarm ''nas'' Caller ''web'' [(''web'', ?s)])"
  have st: "stop_times (Suc 1) mem_swarm ''nas'' Caller ''web'' [(''web'', ?s)] = Some ?w1" by code_simp
  have m: "mem_store [(''web'', ?s)] (id ''web'') = Some ?s" by (simp add: mem_store_def)
  have l: "map_of (svc_Labels ?s) quiesceReplicasLabel = None" "map_of (svc_Labels ?s) quiesceInstanceLabel = None"
    by (simp_all add: quiesceReplicasLabel_def quiesceInstanceLabel_def)
  note w = quiesced_service_comes_back[OF mem_swarm_store m _ l st, of "Some 3", simplified]
  obtain w2 where "swarm_Start mem_swarm Caller ''web'' ?w1 = (None, w2)" using mem_start w by fastforce
  with w show ?thesis by (simp add: Let_def)
qed

end
