(* ===== verification/Swarm_Runtime.thy ===== *)
theory Swarm_Runtime
  imports Swarm_Quiesce
begin

text \<open>
  The runtime that sabon assembles in Swarm mode, and the composition of the orchestrator with it. A call that polls may
  never return; the world of this runtime is an option for that reason. What is shown: the drain wait is not cut short
  by its bound, and a cold backup ends with its service at the replicas it had.
\<close>

section \<open>The runtime\<close>

text \<open>
  A world is \<open>Some w\<close> while the process runs, \<open>None\<close> once one of its calls never returns: no later call has an effect.
\<close>

definition hung :: error where
  "hung = External ''the call never returns''"

definition may_hang :: "'a \<Rightarrow> ('w \<Rightarrow> ('a \<times> 'w) option) \<Rightarrow> 'w option \<Rightarrow> 'a \<times> 'w option" where
  "may_hang z f u =
     (case u of
        None \<Rightarrow> (z, None)
      | Some w \<Rightarrow> (case f w of None \<Rightarrow> (z, None) | Some (r, w) \<Rightarrow> (r, Some w)))"

definition returning :: "'a \<Rightarrow> ('w \<Rightarrow> 'a \<times> 'w) \<Rightarrow> 'w option \<Rightarrow> 'a \<times> 'w option" where
  "returning z f = may_hang z (\<lambda>w. Some (f w))"

text \<open>What \<^verbatim>\<open>newRuntime\<close> of the command assembles in Swarm mode: no exec hooks and no snapshot providers.\<close>

definition swarm_runtime ::
  "codec \<Rightarrow> (service list \<Rightarrow> service list) \<Rightarrow> 'w swarm_client \<Rightarrow> string \<Rightarrow> (ctx \<Rightarrow> 'w \<Rightarrow> error option \<times> 'w) \<Rightarrow> ('w \<Rightarrow> int)
   \<Rightarrow> 'w option runtime" where
  "swarm_runtime cd srt cli inst slot now = \<lparr>
     rt_RunMover = (\<lambda>x req. may_hang (no_result, False, Some hung, []) (swarm_RunMover cd cli x req)),
     rt_ReapMovers = (\<lambda>x keep. returning (0, Some hung) (swarm_Reap srt cli x keep)),
     rt_RunOneShot = (\<lambda>x sp. may_hang (Some hung) (swarm_RunOneShot cli x sp)),
     rt_AppEnv = (\<lambda>x i. returning (Inl hung) (swarm_AppEnv cli x i)),
     rt_AppProject = (\<lambda>x i. returning (Inl hung) (swarm_AppProject cli x i)),
     rt_ReapHooks = (\<lambda>x. returning (0, Some hung) (swarm_ReapHooks cli x)),
     rt_Exec = None,
     rt_Stop = (\<lambda>x r. returning (Some hung) (swarm_Stop cli inst x r)),
     rt_Start = (\<lambda>x r. returning (Some hung) (swarm_Start cli x r)),
     rt_EnsureCache = (\<lambda>x n. returning (Some hung) (swarm_EnsureCache x n)),
     rt_VolumeHostPath = (\<lambda>x n. returning (Inl hung) (swarm_VolumeHostPath x n)),
     rt_RunningMoverBinds = (\<lambda>x. returning (Inl hung) (swarm_RunningMoverBinds x)),
     rt_slot = (\<lambda>x. returning (Some hung) (slot x)),
     rt_snaps = [],
     rt_now = (\<lambda>u. case u of Some w \<Rightarrow> now w | None \<Rightarrow> 0)\<rparr>"

lemma returning_Some [simp]: "returning z f (Some w) = (fst (f w), Some (snd (f w)))"
  by (simp add: returning_def may_hang_def split: prod.split)

lemma may_hang_Some: "f w = Some (r, w') \<Longrightarrow> may_hang z f (Some w) = (r, Some w')"
  by (simp add: may_hang_def)

lemma sw_created_kept:
  "sw_created cd cli x req i w = Some (((res, True, err, out), keep), w') \<Longrightarrow>
   req_KeepOnShutdown req \<and> err \<noteq> None \<and> err \<noteq> Some DeadlineExceeded"
  by (auto simp: sw_created_def sw_finish_def Let_def split: option.splits sum.splits prod.splits if_splits)

lemma swarm_RunMover_kept:
  "swarm_RunMover cd cli x req w = Some ((res, True, err, out), w') \<Longrightarrow>
   req_KeepOnShutdown req \<and> err \<noteq> None \<and> err \<noteq> Some DeadlineExceeded"
  by (auto simp: swarm_RunMover_def dest: sw_created_kept split: option.splits sum.splits prod.splits)

interpretation swarm_engine: mover_engine "rt_RunMover (swarm_runtime cd srt cli inst slot now)" for cd srt cli inst slot now
  by unfold_locales (auto simp: swarm_runtime_def may_hang_def dest: swarm_RunMover_kept split: option.splits)

section \<open>Waiting\<close>

text \<open>
  The drain's fuel is enough: the ticker fires every 500 ms, so after 61 ticks the clock is past the deadline of 30 s, and more
  rounds would not change what the wait does.
\<close>

definition tick_round :: "'w swarm_client \<Rightarrow> ctx \<Rightarrow> string \<Rightarrow> 'w \<Rightarrow> 'w" where
  "tick_round cli x ref w = snd (Tick cli x (snd (TaskList cli x ref w)))"

definition ticks_apart :: "'w swarm_client \<Rightarrow> ctx \<Rightarrow> string \<Rightarrow> bool" where
  "ticks_apart cli x ref \<longleftrightarrow> (\<forall>w n. TimeNow cli w + int n * 500000000 \<le> TimeNow cli ((tick_round cli x ref ^^ n) w))"

lemma drain_loop_enough:
  assumes "TimeNow cli ((tick_round cli x ref ^^ Suc n) w) > deadline"
  shows "drain_loop (Suc n + m) cli x ref deadline w = drain_loop (Suc n) cli x ref deadline w"
  using assms
proof (induction n arbitrary: w)
  case 0 then show ?case by (auto simp: tick_round_def split: prod.splits option.splits)
next
  case (Suc n)
  let ?w = "tick_round cli x ref w"
  have "drain_loop (Suc n + m) cli x ref deadline ?w = drain_loop (Suc n) cli x ref deadline ?w"
    using Suc.prems unfolding funpow_Suc_right[of "Suc n"] by (intro Suc.IH) simp
  then show ?case by (auto simp del: drain_loop.simps(2) simp: tick_round_def drain_loop.simps(2)[of "Suc (n + m)"] drain_loop.simps(2)[of "Suc n"] split: prod.splits option.splits)
qed

lemma waitDrained_complete:
  assumes "ticks_apart cli x ref"
  shows "drain_loop (61 + m) cli x ref (TimeNow cli w + drain) w = waitDrained cli x ref w"
proof -
  have "TimeNow cli ((tick_round cli x ref ^^ Suc 60) w) > TimeNow cli w + drain"
    using assms[unfolded ticks_apart_def, THEN spec, of w, THEN spec, of "Suc 60"] by (simp add: drain_def)
  from drain_loop_enough[OF this, of m] show ?thesis by (simp add: waitDrained_def)
qed

section \<open>The services of the cluster\<close>

text \<open>
  Beside \<open>swarm_store\<close>: a created service gets a fresh id, a removal touches only the service it names, reading logs and making
  directories touch none.
\<close>

definition swarm_services :: "'w swarm_client \<Rightarrow> ('w \<Rightarrow> string \<rightharpoonup> service) \<Rightarrow> (string \<Rightarrow> string) \<Rightarrow> bool" where
  "swarm_services cli store sid \<longleftrightarrow> swarm_store cli store sid \<and>
     (\<forall>x sp w. case ServiceCreate cli x sp w of
        (Inl _, w') \<Rightarrow> store w' = store w
      | (Inr i, w') \<Rightarrow> store w i = None \<and> sid i = i \<and> (\<forall>k. k \<noteq> i \<longrightarrow> store w' k = store w k)) \<and>
     (\<forall>x i w k. k \<noteq> sid i \<longrightarrow> store (snd (ServiceRemove cli x i w)) k = store w k) \<and>
     (\<forall>x i w. store (snd (ServiceLogs cli x i w)) = store w) \<and> (\<forall>p w. store (snd (MkdirAll cli p w)) = store w)"

lemma swarm_servicesD:
  assumes "swarm_services cli store sid"
  shows "swarm_store cli store sid"
    "ServiceCreate cli x sp w = (Inl e, w') \<Longrightarrow> store w' = store w"
    "ServiceCreate cli x sp w = (Inr i, w') \<Longrightarrow> store w i = None \<and> sid i = i \<and> (\<forall>k. k \<noteq> i \<longrightarrow> store w' k = store w k)"
    "k \<noteq> sid i \<Longrightarrow> store (snd (ServiceRemove cli x i w)) k = store w k"
    "store (snd (ServiceLogs cli x i w)) = store w" "store (snd (MkdirAll cli p w)) = store w"
proof -
  note d = assms[unfolded swarm_services_def]
  note c = d[THEN conjunct2, THEN conjunct1, THEN spec, of x, THEN spec, of sp, THEN spec, of w]
  show "ServiceCreate cli x sp w = (Inl e, w') \<Longrightarrow> store w' = store w"
    "ServiceCreate cli x sp w = (Inr i, w') \<Longrightarrow> store w i = None \<and> sid i = i \<and> (\<forall>k. k \<noteq> i \<longrightarrow> store w' k = store w k)"
    using c by simp_all
  show "swarm_store cli store sid" "k \<noteq> sid i \<Longrightarrow> store (snd (ServiceRemove cli x i w)) k = store w k"
    "store (snd (ServiceLogs cli x i w)) = store w" "store (snd (MkdirAll cli p w)) = store w" using d by blast+
qed

lemma mkdirs_store:
  assumes "swarm_services cli store sid" shows "store (snd (mkdirs cli ms w)) = store w"
proof (induction ms arbitrary: w)
  case (Cons m ms)
  obtain e w1 where m: "MkdirAll cli (mnt_Source m) w = (e, w1)" by (metis prod.exhaust)
  then have "store w1 = store w" using swarm_servicesD(6)[OF assms, of "mnt_Source m" w] by simp
  with m Cons.IH[of w1] Cons.IH[of w] show ?case by (simp split: option.split)
qed simp

lemma sw_logs_store: "swarm_services cli store sid \<Longrightarrow> store (snd (sw_logs cli x i w)) = store w"
  using swarm_servicesD(5)[of cli store sid x i w] by (cases "ServiceLogs cli x i w") (auto simp: sw_logs_def split: sum.split)

lemma poll_store: "swarm_store cli store sid \<Longrightarrow> TaskList cli x i w = (r, w') \<Longrightarrow> store w' = store w"
  "swarm_store cli store sid \<Longrightarrow> Tick cli x w = (k, w') \<Longrightarrow> store w' = store w"
  using swarm_storeD(7)[of cli store sid x i w] swarm_storeD(8)[of cli store sid x w] by simp_all

lemma sw_wait_ends:
  assumes "swarm_store cli store sid" "fst (Tick cli x ((poll_round cli x i ^^ n) w)) \<noteq> None"
  shows "\<exists>r w'. sw_wait cli x i w = Some (r, w') \<and> store w' = store w"
  using assms(2)
proof (induction n arbitrary: w)
  case 0
  then obtain c e w1 where "Tick cli x w = (Some (c, e), w1)" by (cases "Tick cli x w") auto
  then show ?case using poll_store(2)[OF assms(1)] by (subst sw_wait.simps) auto
next
  case (Suc n)
  obtain k w1 where k: "Tick cli x w = (k, w1)" by (metis prod.exhaust)
  obtain r w2 where t: "TaskList cli x i w1 = (r, w2)" by (metis prod.exhaust)
  have "poll_round cli x i w = w2" using k t by (simp add: poll_round_def)
  with Suc.IH[of w2] Suc.prems have "\<exists>r w'. sw_wait cli x i w2 = Some (r, w') \<and> store w' = store w2" by (simp add: funpow_swap1)
  with k t poll_store(1)[OF assms(1) t] poll_store(2)[OF assms(1) k] show ?case
    by (subst sw_wait.simps) (auto split: option.split sum.split)
qed

lemma sw_hook_wait_ends:
  assumes "swarm_store cli store sid" "fst (Tick cli x ((poll_round cli x i ^^ n) (snd (TaskList cli x i w)))) \<noteq> None"
  shows "\<exists>r w'. sw_hook_wait cli x i w = Some (r, w') \<and> store w' = store w"
  using assms(2)
proof (induction n arbitrary: w)
  case 0
  obtain r w1 where t: "TaskList cli x i w = (r, w1)" by (metis prod.exhaust)
  with 0 obtain c e w2 where k: "Tick cli x w1 = (Some (c, e), w2)" by (cases "Tick cli x w1") auto
  from t k poll_store(1)[OF assms(1) t] poll_store(2)[OF assms(1) k] show ?case
    by (subst sw_hook_wait.simps) (auto split: option.split)
next
  case (Suc n)
  obtain r w1 where t: "TaskList cli x i w = (r, w1)" by (metis prod.exhaust)
  obtain k w2 where k: "Tick cli x w1 = (k, w2)" by (metis prod.exhaust)
  have "poll_round cli x i w1 = snd (TaskList cli x i w2)" using k by (simp add: poll_round_def)
  with Suc.IH[of w2] Suc.prems t have "\<exists>r w'. sw_hook_wait cli x i w2 = Some (r, w') \<and> store w' = store w2" by (simp add: funpow_swap1)
  with k t poll_store(1)[OF assms(1) t] poll_store(2)[OF assms(1) k] show ?case
    by (subst sw_hook_wait.simps) (auto split: option.split)
qed

text \<open>A mover or a hook returns when its context ends and leaves every service alone that was there before.\<close>

lemma created_spares:
  assumes "swarm_services cli store sid" "ServiceCreate cli x sp w = (Inr i, w1)" "store w k = Some s" "store w2 = store w1"
  shows "store w1 k = Some s" "store (snd (ServiceRemove cli y i w2)) k = Some s" "store w2 k = Some s"
proof -
  note c = swarm_servicesD(3)[OF assms(1,2)]
  then have "k \<noteq> sid i" "store w1 k = Some s" using assms(3) by (force, metis assms(3) option.distinct(1))
  then show "store w1 k = Some s" "store (snd (ServiceRemove cli y i w2)) k = Some s" "store w2 k = Some s"
    using swarm_servicesD(4)[OF assms(1), of k i y w2] assms(4) by simp_all
qed

lemma sw_created_spares:
  assumes "swarm_services cli store sid" "context_ends cli x"
  shows "\<exists>r keep w'. sw_created cd cli x req i w = Some ((r, keep), w') \<and> store w' = store w"
proof -
  obtain n where "fst (Tick cli x ((poll_round cli x i ^^ n) w)) \<noteq> None" using assms(2) unfolding context_ends_def by blast
  from sw_wait_ends[OF swarm_servicesD(1)[OF assms(1)] this] obtain r w1 where "sw_wait cli x i w = Some (r, w1)" "store w1 = store w" by blast
  moreover obtain lg w2 where "sw_logs cli x i w1 = (lg, w2)" by (metis prod.exhaust)
  moreover from this have "store w2 = store w1" using sw_logs_store[OF assms(1), of x i w1] by simp
  ultimately show ?thesis by (cases r) (auto simp: sw_created_def Let_def simp del: split_paired_Ex)
qed

lemma swarm_RunMover_spares:
  assumes "swarm_services cli store sid" "context_ends cli x" "store w k = Some s"
  shows "\<exists>r w'. swarm_RunMover cd cli x req w = Some (r, w') \<and> store w' k = Some s"
proof (cases "serviceSpec cd req")
  case (Inl e) then show ?thesis using assms(3) by (simp add: swarm_RunMover_def del: split_paired_Ex)
next
  case (Inr spec)
  obtain m w1 where m: "mkdirs cli (sp_Mounts spec) w = (m, w1)" by (metis prod.exhaust)
  then have s1: "store w1 k = Some s" using mkdirs_store[OF assms(1), of "sp_Mounts spec" w] assms(3) by simp
  obtain c w2 where c: "ServiceCreate cli x spec w1 = (c, w2)" by (metis prod.exhaust)
  show ?thesis
  proof (cases c)
    case (Inl e)
    then show ?thesis using Inr m c s1 swarm_servicesD(2)[OF assms(1)] by (cases m) (auto simp: swarm_RunMover_def simp del: split_paired_Ex)
  next
    case i: (Inr i)
    obtain r keep w3 where r: "sw_created cd cli x req i w2 = Some ((r, keep), w3)" "store w3 = store w2"
      using sw_created_spares[OF assms(1,2)] by metis
    note c' = c[unfolded i]
    show ?thesis using Inr m c' s1 r created_spares(2,3)[OF assms(1) c' s1 r(2)]
      by (cases m) (auto simp: swarm_RunMover_def simp del: split_paired_Ex)
  qed
qed

lemma swarm_RunOneShot_spares:
  assumes "swarm_services cli store sid" "context_ends cli x" "store w k = Some s"
  shows "\<exists>r w'. swarm_RunOneShot cli x sp w = Some (r, w') \<and> store w' k = Some s"
proof (cases "run_Image sp = [] \<or> isl (sw_hookMounts (run_Volumes sp))")
  case True then show ?thesis using assms(3) by (auto simp: swarm_RunOneShot_def isl_def)
next
  case False
  then obtain ms where ms: "run_Image sp \<noteq> []" "sw_hookMounts (run_Volumes sp) = Inr ms" by (auto simp: isl_def split: sum.splits) (metis sum.exhaust)
  obtain c w1 where c: "ServiceCreate cli x (sw_hook_spec sp ms) w = (c, w1)" by (metis prod.exhaust)
  show ?thesis
  proof (cases c)
    case (Inl e) then show ?thesis using ms c assms(3) swarm_servicesD(2)[OF assms(1)] by (auto simp: swarm_RunOneShot_def)
  next
    case (Inr i)
    obtain n where "fst (Tick cli x ((poll_round cli x i ^^ n) (snd (TaskList cli x i w1)))) \<noteq> None" using assms(2) unfolding context_ends_def by blast
    from sw_hook_wait_ends[OF swarm_servicesD(1)[OF assms(1)] this] obtain r w2 where r: "sw_hook_wait cli x i w1 = Some (r, w2)" "store w2 = store w1" by blast
    obtain lg w3 where lg: "sw_logs cli x i w2 = (lg, w3)" by (metis prod.exhaust)
    have w3: "store w3 = store w1" using sw_logs_store[OF assms(1), of x i w2] lg r by simp
    note c' = c[unfolded Inr]
    show ?thesis
      using ms c' r lg created_spares(2)[OF assms(1) c' assms(3) r(2)] created_spares(2)[OF assms(1) c' assms(3) w3]
      by (cases r) (auto simp: swarm_RunOneShot_def split: sum.split)
  qed
qed

section \<open>A cold backup on Swarm\<close>

text \<open>Away from the stop and the start a run neither hangs nor touches the service.\<close>

definition spared :: "('w \<Rightarrow> string \<rightharpoonup> service) \<Rightarrow> string \<Rightarrow> service \<Rightarrow> 'w option \<Rightarrow> bool" where
  "spared store k s u \<longleftrightarrow> (\<exists>w. u = Some w \<and> store w k = Some s)"

definition spares :: "('w \<Rightarrow> string \<rightharpoonup> service) \<Rightarrow> string \<Rightarrow> service \<Rightarrow> nat \<Rightarrow> nat \<Rightarrow> 'w option \<Rightarrow> 'w option \<Rightarrow> bool" where
  "spares store k s a b u v \<longleftrightarrow> (b < 3 \<or> 3 < a \<and> b < 8) \<and> spared store k s u \<longrightarrow> spared store k s v"

lemma swarm_calls_spare:
  assumes S: "swarm_services cli store sid" and slot: "\<forall>x w. store (snd (slot x w)) = store w" and u: "spared store k s u"
  shows "context_ends cli x \<Longrightarrow> rt_RunMover (swarm_runtime cd srt cli inst slot now) x req u = (r1, v) \<Longrightarrow> spared store k s v"
    "context_ends cli x \<Longrightarrow> rt_RunOneShot (swarm_runtime cd srt cli inst slot now) x sp u = (r2, v) \<Longrightarrow> spared store k s v"
    "rt_AppEnv (swarm_runtime cd srt cli inst slot now) x i u = (r3, v) \<Longrightarrow> spared store k s v"
    "rt_EnsureCache (swarm_runtime cd srt cli inst slot now) x i u = (r2, v) \<Longrightarrow> spared store k s v"
    "rt_VolumeHostPath (swarm_runtime cd srt cli inst slot now) x i u = (r4, v) \<Longrightarrow> spared store k s v"
    "rt_slot (swarm_runtime cd srt cli inst slot now) x u = (r2, v) \<Longrightarrow> spared store k s v"
proof -
  from u obtain w where w: "u = Some w" "store w k = Some s" by (auto simp: spared_def)
  show "context_ends cli x \<Longrightarrow> rt_RunMover (swarm_runtime cd srt cli inst slot now) x req u = (r1, v) \<Longrightarrow> spared store k s v"
    using swarm_RunMover_spares[OF S _ w(2), of x cd req] by (auto simp: swarm_runtime_def w(1) spared_def may_hang_def)
  show "context_ends cli x \<Longrightarrow> rt_RunOneShot (swarm_runtime cd srt cli inst slot now) x sp u = (r2, v) \<Longrightarrow> spared store k s v"
    using swarm_RunOneShot_spares[OF S _ w(2), of x sp] by (auto simp: swarm_runtime_def w(1) spared_def may_hang_def)
  have "store (snd (swarm_AppEnv cli x i w)) = store w"
  proof (cases "ServiceInspect cli x i w")
    case (Pair r w1)
    then have "store w1 = store w" using swarm_storeD(1,2)[OF swarm_servicesD(1)[OF S]] by (cases r) metis+
    with Pair show ?thesis by (cases r) (simp_all add: swarm_AppEnv_def)
  qed
  then show "rt_AppEnv (swarm_runtime cd srt cli inst slot now) x i u = (r3, v) \<Longrightarrow> spared store k s v"
    using w by (auto simp: swarm_runtime_def spared_def)
  show "rt_EnsureCache (swarm_runtime cd srt cli inst slot now) x i u = (r2, v) \<Longrightarrow> spared store k s v"
    "rt_VolumeHostPath (swarm_runtime cd srt cli inst slot now) x i u = (r4, v) \<Longrightarrow> spared store k s v"
    "rt_slot (swarm_runtime cd srt cli inst slot now) x u = (r2, v) \<Longrightarrow> spared store k s v"
    using w slot by (auto simp: swarm_runtime_def spared_def swarm_EnsureCache_def swarm_VolumeHostPath_def)
qed

lemma swarm_hook_spares:
  assumes S: "swarm_services cli store sid" and slot: "\<forall>x w. store (snd (slot x w)) = store w"
    and ends: "\<forall>y d. context_ends cli (WithTimeout y d)" "context_ends cli x" and u: "spared store k s u"
    and h: "runOneHook (swarm_runtime cd srt cli inst slot now) oc x j h ph i u = (r, v)"
  shows "spared store k s v"
proof -
  note calls = swarm_calls_spare[OF S slot]
  have env: "spared store k s v1" if "(hook_Env h = [] \<and> v1 = u) \<or> rt_AppEnv (swarm_runtime cd srt cli inst slot now) y (job_Container j) u = (re, v1)"
    for y re v1 using that u calls(3) by blast
  have ctx: "context_ends cli y" if "y = x \<or> (\<exists>d. y = WithTimeout x d)" for y using that ends by auto
  have exec: "rt_Exec (swarm_runtime cd srt cli inst slot now) = None" by (simp add: swarm_runtime_def)
  from h show ?thesis
  proof (cases rule: runOneHook_cases)
    case timeout with u show ?thesis by simp
  next
    case (run y re v1 sp r2) show ?thesis by (rule calls(2)[OF env[OF run(2)] ctx[OF run(1)] run(3)])
  next
    case (noexec y re) then show ?thesis using env by blast
  qed (use exec in simp_all)
qed

lemma swarm_phased:
  assumes S: "swarm_services cli store sid" and slot: "\<forall>x w. store (snd (slot x w)) = store w"
    and ends: "\<forall>y d. context_ends cli (WithTimeout y d)"
  shows "phased_run (swarm_runtime cd srt cli inst slot now) oc j t (spares store k s) (context_ends cli)"
proof (unfold_locales, goal_cases)
  case 1 show ?case using ends by simp
next
  case 7 then show ?case using swarm_hook_spares[OF S slot ends] by (auto simp: spares_def)
qed (auto simp: spares_def swarm_runtime_def[THEN arg_cong[of _ _ rt_snaps]] dest: swarm_calls_spare[OF S slot])

lemma Stop_failed_store:
  assumes "swarm_store cli store sid" "swarm_Stop cli inst x ref w = (Some e, w')"
  shows "store w' = store w"
  using assms(2)
  by (auto simp: swarm_Stop_def scale_def dest!: swarm_storeD(1-3)[OF assms(1)] split: prod.splits sum.splits option.splits)

lemma Start_failed_store:
  assumes "swarm_store cli store sid" "swarm_Start cli x ref w = (Some e, w')"
  shows "store w' = store w"
  using assms(2)
  by (auto simp: swarm_Start_def restore_def scale_def dest!: swarm_storeD(1-3)[OF assms(1)] split: prod.splits sum.splits option.splits)

lemma Start_store:
  assumes "swarm_store cli store sid" "swarm_Start cli x ref w = (None, w')"
    and "store w (sid ref) = Some (at_version v (quiesced inst reps s))" "svc_ID s = sid ref"
    and "map_of (svc_Labels s) quiesceReplicasLabel = None" "map_of (svc_Labels s) quiesceInstanceLabel = None"
  shows "\<exists>v'. store w' (sid ref) = Some (at_version v' (running_again reps s))"
proof -
  obtain s1 w1 where i: "ServiceInspect cli x ref w = (Inr s1, w1)" "restore cli x ref s1 w1 = (None, w')"
    using assms(2) by (auto simp: swarm_Start_def split: prod.splits sum.splits)
  with swarm_storeD(2)[OF assms(1) i(1)] assms(3) have "restore cli x ref (at_version v (quiesced inst reps s)) w1 = (None, w')" by simp
  from restore_store[OF assms(1) this assms(4-6)] show ?thesis by auto
qed

text \<open>The service after a run: untouched, scaled back, or left quiesced by a start that the cluster refused.\<close>

definition brought_back ::
  "'w swarm_client \<Rightarrow> ('w \<Rightarrow> string \<rightharpoonup> service) \<Rightarrow> string \<Rightarrow> string \<Rightarrow> string \<Rightarrow> 64 word option \<Rightarrow> service \<Rightarrow> 'w option \<Rightarrow> bool" where
  "brought_back cli store k c inst reps s u \<longleftrightarrow> (\<exists>w'. u = Some w' \<and>
     (store w' k = Some s \<or> (\<exists>v. store w' k = Some (at_version v (running_again reps s))) \<or>
      (\<exists>v y u e. store w' k = Some (at_version v (quiesced inst reps s)) \<and> swarm_Start cli (WithoutCancel y) c u = (Some e, w'))))"

lemma spared_brought_back: "spared store k s u \<Longrightarrow> brought_back cli store k c inst reps s u"
  by (auto simp: spared_def brought_back_def)

text \<open>Between a stop and a start of the same service only calls that spare it: the service comes back.\<close>

lemma swarm_bracket_brought_back:
  assumes S: "swarm_store cli store sid" and w: "store w (sid c) = Some s" and s: "svc_Replicated s = Some reps"
      "map_of (svc_Labels s) quiesceReplicasLabel = None" "map_of (svc_Labels s) quiesceInstanceLabel = None"
    and stop: "rt_Stop (swarm_runtime cd srt cli inst slot now) y c (Some w) = (e, v1)"
    and mid: "\<And>q. e = None \<Longrightarrow> spared store (sid c) q v1 \<Longrightarrow> spared store (sid c) q v2"
    and v3: "v3 = (if e = None then snd (rt_Start (swarm_runtime cd srt cli inst slot now) (WithoutCancel y) c v2) else v1)"
  shows "brought_back cli store (sid c) c inst reps s v3"
proof -
  obtain w1 where w1: "swarm_Stop cli inst y c w = (e, w1)" "v1 = Some w1" using stop by (auto simp: swarm_runtime_def prod_eq_iff)
  show ?thesis
  proof (cases e)
    case (Some e')
    with w1 w v3 Stop_failed_store[OF S, of inst y c w e'] show ?thesis by (simp add: brought_back_def)
  next
    case None
    with Stop_store[OF S w1(1)[unfolded None] w s(1)] obtain v where "spared store (sid c) (at_version v (quiesced inst reps s)) v1"
      using w1(2) by (auto simp: spared_def)
    from mid[OF None this] obtain w3 where w3: "v2 = Some w3" "store w3 (sid c) = Some (at_version v (quiesced inst reps s))"
      by (auto simp: spared_def)
    obtain f w4 where st: "swarm_Start cli (WithoutCancel y) c w3 = (f, w4)" by (metis prod.exhaust)
    with None v3 w3(1) have "v3 = Some w4" by (simp add: swarm_runtime_def)
    then show ?thesis
      using Start_store[OF S _ w3(2) swarm_storeD(9)[OF S w] s(2,3)] Start_failed_store[OF S] st w3(2) by (cases f) (auto simp: brought_back_def)
  qed
qed

lemma swarm_quiesced_brought_back:
  assumes S: "swarm_services cli store sid" and slot: "\<forall>x w. store (snd (slot x w)) = store w"
    and ends: "\<forall>y d. context_ends cli (WithTimeout y d)" "context_ends cli y"
    and s: "spared store (sid (job_Container j)) s (os_world st)" "svc_Replicated s = Some reps"
      "map_of (svc_Labels s) quiesceReplicasLabel = None" "map_of (svc_Labels s) quiesceInstanceLabel = None"
    and refs: "os_refs st (job_Container j) = 0"
    and run: "run_quiesced (swarm_runtime cd srt cli inst slot now) oc y j t renv st = (r, st')"
  shows "brought_back cli store (sid (job_Container j)) (job_Container j) inst reps s (os_world st')"
proof -
  let ?c = "job_Container j" and ?rt = "swarm_runtime cd srt cli inst slot now"
  note bracket = swarm_bracket_brought_back[OF swarm_servicesD(1)[OF S] _ s(2-4)]
  from s(1) obtain w where w: "os_world st = Some w" "store w (sid ?c) = Some s" by (auto simp: spared_def)
  have mid: "spared store (sid ?c) q b" if "run_mover_phase ?rt oc y j t renv a = (r', b)" "spared store (sid ?c) q a" for q a b r'
    using phased_run.R_run_mover_phase[OF swarm_phased[OF S slot ends(1), where k = "sid ?c" and s = q] that(1) ends(2)] that(2)
    by (simp add: spares_def)
  show ?thesis
  proof (cases "spec_Stop (job_Spec j)")
    case False
    with mid[OF run_quiesced_shares[OF run] s(1)] show ?thesis by (simp add: spared_brought_back)
  next
    case True
    from run True refs show ?thesis
    proof (cases rule: run_quiesced_stops)
      case (failed e)
      from bracket[OF w(2) failed(1)[unfolded w(1)], of "os_world st'"] show ?thesis by simp
    next
      case (stopped v1 v2)
      from bracket[OF w(2) stopped(1)[unfolded w(1)] mid[OF stopped(2)]] stopped(3) show ?thesis by simp
    qed
  qed
qed

text \<open>
  C4. A cold backup of a Swarm service ends, when contexts with a deadline end and the run has one (or the caller's ends), and the
  service is as before: not touched, or scaled back to the replicas it had. The one exception is a cluster that
  refuses the start: then the run's last call was that start and the service carries the recorded count, from which the
  recovery at the next startup takes it.
\<close>

theorem swarm_cold_backup_restores:
  assumes S: "swarm_services cli store sid" and slot: "\<forall>x w. store (snd (slot x w)) = store w"
    and ends: "\<forall>y d. context_ends cli (WithTimeout y d)" "context_ends cli x \<or> 0 < conf_BackupTimeout (o_cfg oc)"
    and x: "follows_caller x" and w: "os_world st = Some w" "os_refs st (job_Container j) = 0"
    and s: "store w (sid (job_Container j)) = Some s" "svc_Replicated s = Some reps"
      "map_of (svc_Labels s) quiesceReplicasLabel = None" "map_of (svc_Labels s) quiesceInstanceLabel = None"
    and run: "RunTarget (swarm_runtime cd srt cli inst slot now) oc x j t st = (r, st')"
  shows "\<exists>w'. os_world st' = Some w' \<and>
    (store w' (sid (job_Container j)) = Some s \<or>
     (\<exists>v. store w' (sid (job_Container j)) = Some (at_version v (running_again reps s))) \<or>
     (\<exists>v y u e. store w' (sid (job_Container j)) = Some (at_version v (quiesced inst reps s)) \<and>
        swarm_Start cli (WithoutCancel y) (job_Container j) u = (Some e, w')))"
proof -
  let ?c = "job_Container j"
  have u: "spared store (sid ?c) s (os_world st)" using w s(1) by (simp add: spared_def)
  have "brought_back cli store (sid ?c) ?c inst reps s (os_world st')"
  proof (cases rule: phased_run.R_RunTarget_steps[OF swarm_phased[OF S slot ends(1), where k = "sid ?c" and s = s] run x refl ends(2), case_names early reached])
    case early with u show ?thesis by (simp add: spares_def spared_brought_back)
  next
    case (reached y renv st2 st3)
    have "spared store (sid ?c) s (os_world st2)" using reached(1) u by (simp add: spares_def)
    with swarm_quiesced_brought_back[OF S slot ends(1) reached(6) _ s(2-4) _ reached(4)] reached(2,5) w(2) show ?thesis by simp
  qed
  then show ?thesis by (simp add: brought_back_def)
qed

text \<open>The store in memory as a cluster: services are created under fresh ids and removed, and a context with a deadline ends.\<close>

definition live_swarm :: "(string \<times> service) list swarm_client" where
  "live_swarm = mem_swarm\<lparr>
     ServiceCreate := (\<lambda>x sp w. (Inr (CHR ''m'' # concat (map fst w)),
       (CHR ''m'' # concat (map fst w), \<lparr>svc_ID = [], svc_Version = 0, svc_CreatedAt = 0, svc_Name = sp_Name sp, svc_Labels = sp_Labels sp,
          svc_Mounts = Some [], svc_Env = sp_Env sp, svc_Constraints = None, svc_Replicated = None\<rparr>) # w)),
     ServiceRemove := (\<lambda>x i w. (None, AList.delete i w)),
     Tick := (\<lambda>x w. (case x of WithTimeout y d \<Rightarrow> Some (DeadlineExceeded, DeadlineExceeded) | _ \<Rightarrow> None, w))\<rparr>"

lemma live_swarm_services: "swarm_services live_swarm mem_store id"
proof -
  have fresh: "CHR ''m'' # concat ks \<notin> set ks" for ks :: "string list"
  proof -
    have "k \<in> set ks \<Longrightarrow> length k \<le> length (concat ks)" for k by (induction ks) auto
    then show ?thesis by fastforce
  qed
  have new: "mem_store w (CHR ''m'' # concat (map fst w)) = None" for w
    using fresh[of "map fst w"] by (auto simp: mem_store_def map_of_eq_None_iff)
  have "swarm_store live_swarm mem_store id"
    using mem_swarm_store unfolding swarm_store_def by (simp add: live_swarm_def mem_swarm_def)
  then show ?thesis unfolding swarm_services_def
    using new by (auto simp: live_swarm_def mem_swarm_def mem_store_def delete_conv)
qed

lemma live_start: "mem_store w r = Some s \<Longrightarrow> fst (swarm_Start live_swarm x r w) = None"
  by (simp add: swarm_Start_def restore_def scale_def live_swarm_def mem_swarm_def split: option.split)

definition demo_service :: service where
  "demo_service = \<lparr>svc_ID = ''db'', svc_Version = 4, svc_CreatedAt = 0, svc_Name = ''db'', svc_Labels = [(''sabon.enable'', ''true'')],
        svc_Mounts = Some [], svc_Env = [], svc_Constraints = None, svc_Replicated = Some (Some 3)\<rparr>"

definition demo_swarm_rt :: "(string \<times> service) list option runtime" where
  "demo_swarm_rt = swarm_runtime \<lparr>cd_encode_spec = (\<lambda>s. Inr ''{}''), cd_decode_result = (\<lambda>l. Inr no_result)\<rparr> id live_swarm ''nas'' (\<lambda>x w. (None, w)) (\<lambda>w. 0)"

theorem swarm_cold_backup_restores_witness:
  "\<exists>w v. os_world (snd (RunTarget demo_swarm_rt (demo_oc\<lparr>o_cfg := (o_cfg demo_oc)\<lparr>conf_BackupTimeout := 60000000000\<rparr>\<rparr>) Caller
       (demo_job\<lparr>job_Spec := empty_spec\<lparr>spec_Stop := True\<rparr>\<rparr>) demo_target (orch_New (Some [(''db'', demo_service)])))) = Some w \<and>
     mem_store w ''db'' = Some (demo_service\<lparr>svc_Version := v\<rparr>)"
proof -
  let ?oc = "demo_oc\<lparr>o_cfg := (o_cfg demo_oc)\<lparr>conf_BackupTimeout := 60000000000\<rparr>\<rparr>"
  let ?j = "demo_job\<lparr>job_Spec := empty_spec\<lparr>spec_Stop := True\<rparr>\<rparr>" and ?st = "orch_New (Some [(''db'', demo_service)])"
  have ends: "\<forall>y d. context_ends live_swarm (WithTimeout y d)" "context_ends live_swarm Caller \<or> 0 < conf_BackupTimeout (o_cfg ?oc)"
    by (simp_all add: context_ends_def live_swarm_def)
  have c: "job_Container ?j = ''db''" by (simp add: demo_job_def)
  have s: "mem_store [(''db'', demo_service)] (id (job_Container ?j)) = Some demo_service" "svc_Replicated demo_service = Some (Some 3)"
    by (simp_all add: mem_store_def demo_job_def demo_service_def)
  have l: "map_of (svc_Labels demo_service) quiesceReplicasLabel = None" "map_of (svc_Labels demo_service) quiesceInstanceLabel = None"
    by (simp_all add: quiesceReplicasLabel_def quiesceInstanceLabel_def demo_service_def)
  obtain r st where run: "RunTarget demo_swarm_rt ?oc Caller ?j demo_target ?st = (r, st)" by (metis prod.exhaust)
  have o: "os_world ?st = Some [(''db'', demo_service)]" "os_refs ?st (job_Container ?j) = 0" by (simp_all add: orch_New_def)
  note res = swarm_cold_backup_restores[OF live_swarm_services _ ends _ o s l run[unfolded demo_swarm_rt_def], unfolded c id_apply]
  have failed: "mem_store w ''db'' = None" if "swarm_Start live_swarm (WithoutCancel y) ''db'' u = (Some e, w)" for y u e w
    using Start_failed_store[OF swarm_servicesD(1)[OF live_swarm_services] that] live_start[of u "''db''" _ "WithoutCancel y"] that
    by (cases "mem_store u ''db''") auto
  obtain w where w: "os_world st = Some w" "mem_store w ''db'' = Some demo_service \<or> (\<exists>v. mem_store w ''db'' = Some (at_version v (running_again (Some 3) demo_service)))"
    using res failed by fastforce
  have "running_again (Some 3) demo_service = demo_service" "demo_service = demo_service\<lparr>svc_Version := 4\<rparr>" by (simp_all add: running_again_def demo_service_def)
  with w have "\<exists>v. mem_store w ''db'' = Some (demo_service\<lparr>svc_Version := v\<rparr>)" unfolding at_version_def by metis
  with w(1) run show ?thesis by simp
qed

section \<open>A restore on Swarm\<close>

lemma swarm_restore_mover_spares:
  assumes "swarm_services cli store sid" "\<forall>x w. store (snd (slot x w)) = store w" "context_ends cli x" "spared store k s u"
    and "restore_mover (swarm_runtime cd srt cli inst slot now) oc x app jp t opts renv u = (e, v)"
  shows "spared store k s v"
  using assms(5) swarm_calls_spare(1)[OF assms(1,2,4,3)] by (auto simp: restore_mover_def split: prod.splits)

lemma swarm_restore_body_brought_back:
  assumes S: "swarm_services cli store sid" and slot: "\<forall>x w. store (snd (slot x w)) = store w" and ends: "context_ends cli x"
    and s: "spared store (sid (job_Container j)) s u" "svc_Replicated s = Some reps"
      "map_of (svc_Labels s) quiesceReplicasLabel = None" "map_of (svc_Labels s) quiesceInstanceLabel = None"
    and run: "restore_body (swarm_runtime cd srt cli inst slot now) oc x app (Some j) t opts renv u = (e, v)"
  shows "brought_back cli store (sid (job_Container j)) (job_Container j) inst reps s v"
proof -
  let ?c = "job_Container j" and ?rt = "swarm_runtime cd srt cli inst slot now"
  note mover = swarm_restore_mover_spares[OF S slot ends]
  from s(1) obtain w where w: "u = Some w" "store w (sid ?c) = Some s" by (auto simp: spared_def)
  show ?thesis
  proof (cases "ro_Into opts = [] \<and> ro_Stop opts")
    case False
    with run have "restore_mover ?rt oc x app (Some j) t opts renv u = (e, v)" by (auto simp: restore_body_def split: if_splits)
    from mover[OF s(1) this] show ?thesis by (rule spared_brought_back)
  next
    case True
    obtain e1 v1 where st: "rt_Stop ?rt x ?c (Some w) = (e1, v1)" by (metis prod.exhaust)
    obtain e2 v2 where m: "restore_mover ?rt oc x app (Some j) t opts renv v1 = (e2, v2)" by (metis prod.exhaust)
    have "v = (if e1 = None then snd (rt_Start ?rt (WithoutCancel x) ?c v2) else v1)"
      using run True st m w(1) by (auto simp: restore_body_def split: option.splits)
    from swarm_bracket_brought_back[OF swarm_servicesD(1)[OF S] w(2) s(2-4) st mover[OF _ m] this] show ?thesis .
  qed
qed

text \<open>
  An in-place or staging restore of a Swarm service ends when its context ends, and the service is as before: not touched, or scaled back to
  the replicas it had, unless the cluster refuses the start; then the service carries the recorded count.
\<close>

theorem swarm_restore_brings_back:
  assumes S: "swarm_services cli store sid" and slot: "\<forall>x w. store (snd (slot x w)) = store w" and ends: "context_ends cli x"
    and w: "os_world st = Some w" "store w (sid (job_Container j)) = Some s" "svc_Replicated s = Some reps"
      "map_of (svc_Labels s) quiesceReplicasLabel = None" "map_of (svc_Labels s) quiesceInstanceLabel = None"
    and run: "RunRestore (swarm_runtime cd srt cli inst slot now) oc x app (Some j) t opts st = (e, st')"
  shows "\<exists>w'. os_world st' = Some w' \<and>
    (store w' (sid (job_Container j)) = Some s \<or>
     (\<exists>v. store w' (sid (job_Container j)) = Some (at_version v (running_again reps s))) \<or>
     (\<exists>v y u e. store w' (sid (job_Container j)) = Some (at_version v (quiesced inst reps s)) \<and>
        swarm_Start cli (WithoutCancel y) (job_Container j) u = (Some e, w')))"
proof -
  let ?c = "job_Container j" and ?rt = "swarm_runtime cd srt cli inst slot now" and ?k = "tgt_Name t @ ''|'' @ app"
  have u: "spared store (sid ?c) s (os_world st)" using w(1,2) by (simp add: spared_def)
  obtain f st1 where c: "ensureCache ?rt oc x (lock ?k st) = (f, st1)" by fastforce
  have u1: "spared store (sid ?c) s (os_world st1)"
    using c u swarm_calls_spare(4)[OF S slot u]
    by (auto simp: ensureCache_def lock_def ocall_def split: if_splits prod.splits option.splits)
  have "brought_back cli store (sid ?c) ?c inst reps s (os_world st')"
  proof (cases "isl (resticEnv oc t app) \<or> f \<noteq> None")
    case True
    with run c have "os_world st' = os_world st \<or> os_world st' = os_world st1"
      by (auto simp: RunRestore_def Let_def unlock_def lock_def isl_def split: sum.splits)
    with u u1 show ?thesis by (auto intro: spared_brought_back)
  next
    case False
    then obtain renv where r: "resticEnv oc t app = Inr renv" "f = None" by (cases "resticEnv oc t app") auto
    with run c have "restore_body ?rt oc x app (Some j) t opts renv (os_world st1) = (e, os_world st')"
      by (auto simp: RunRestore_def Let_def unlock_def ocall_def split: prod.splits)
    from swarm_restore_body_brought_back[OF S slot ends u1 w(3-5) this] show ?thesis .
  qed
  then show ?thesis by (simp add: brought_back_def)
qed

end
