(* ===== verification/Wiring.thy ===== *)
theory Wiring
  imports Inspect Healthcheck Swarm_Runtime
begin

text \<open>
  How the command puts the parts together: the standalone and the Swarm runtime of \<^verbatim>\<open>newRuntime\<close>, with their discoverers and run
  histories, and the mover's process. Shown here: the way from a label to the mounts of a mover keeps every mount well-formed, and
  which source modes Swarm has.
\<close>

section \<open>The runtimes that the command assembles\<close>

text \<open>
  What the constructors take from libraries: the JSON codec of the mover, the YAML decoder of a label, quoting, times, sorting, the
  wait for a slot and the clock. A discovery reads the containers (services, nodes) and looks at each as of that moment.
\<close>

record 'w libs =
  lb_codec :: codec
  lb_quote :: "string \<Rightarrow> string"
  lb_decode :: "string \<Rightarrow> spec res"
  lb_parse_time :: "string \<Rightarrow> int res"
  lb_IsNotFound :: "error \<Rightarrow> bool"
  lb_sort_jobs :: "job list \<Rightarrow> job list"
  lb_sort_runs :: "run_info list \<Rightarrow> run_info list"
  lb_sort_containers :: "container_summary list \<Rightarrow> container_summary list"
  lb_sort_services :: "service list \<Rightarrow> service list"
  lb_slot :: "ctx \<Rightarrow> 'w \<Rightarrow> error option \<times> 'w"
  lb_now :: "'w \<Rightarrow> int"

definition NewDiscoverer :: "config \<Rightarrow> disc_config" where
  "NewDiscoverer cfg =
     \<lparr>disc_prefix = conf_LabelPrefix cfg, disc_watchByDefault = conf_WatchByDefault cfg, disc_cacheVolume = conf_CacheVolume cfg,
      disc_instance = conf_Instance cfg\<rparr>"

definition docker_discover :: "'w libs \<Rightarrow> 'w docker_client \<Rightarrow> config \<Rightarrow> ctx \<Rightarrow> 'w \<Rightarrow> job list res \<times> 'w" where
  "docker_discover lb cli cfg x w =
     (case ContainerList cli x True [] w of
        (cs, w) \<Rightarrow>
          (docker_List (lb_sort_jobs lb) (lb_decode lb) (\<lambda>n. map_sum id cj_Mounts (fst (ContainerInspect cli x n w))) (NewDiscoverer cfg) cs, w))"

definition standalone_app :: "'w libs \<Rightarrow> 'w docker_client \<Rightarrow> config \<Rightarrow> 'w app_runtime" where
  "standalone_app lb cli cfg =
     \<lparr>ar_rt = docker_runtime (lb_codec lb) (lb_quote lb) (lb_sort_containers lb) cli (lb_slot lb) (lb_now lb)
                [zfs_snapshotter (zfs_New cli (conf_SnapshotZFSImage cfg) (conf_Instance cfg) (lb_now lb))],
      ar_disc = docker_discover lb cli cfg,
      ar_runs = \<lparr>rh_ListRuns = docker_ListRuns (lb_sort_runs lb) (lb_parse_time lb) cli,
                 rh_GetRun = docker_GetRun (lb_IsNotFound lb) (lb_parse_time lb) cli, rh_RunLogs = docker_RunLogs cli\<rparr>,
      ar_recover = None\<rparr>"

text \<open>In Swarm mode: \<open>node_list\<close> and \<open>task_nodes\<close> are the client's node list and the nodes of a service's running tasks.\<close>

definition swarm_discover ::
  "'w libs \<Rightarrow> 'w swarm_client \<Rightarrow> (ctx \<Rightarrow> 'w \<Rightarrow> node list res) \<Rightarrow> (ctx \<Rightarrow> 'w \<Rightarrow> string \<Rightarrow> string list res) \<Rightarrow> config \<Rightarrow> ctx \<Rightarrow> 'w \<Rightarrow> job list res \<times> 'w" where
  "swarm_discover lb cli node_list task_nodes cfg x w =
     (case ServiceList cli x [] w of
        (svcs, w) \<Rightarrow> (swarm_List (lb_sort_jobs lb) (lb_decode lb) (task_nodes x w) (NewDiscoverer cfg) (node_list x w) svcs, w))"

definition swarm_app ::
  "'w libs \<Rightarrow> 'w swarm_client \<Rightarrow> (ctx \<Rightarrow> 'w \<Rightarrow> node list res) \<Rightarrow> (ctx \<Rightarrow> 'w \<Rightarrow> string \<Rightarrow> string list res) \<Rightarrow> config \<Rightarrow> 'w option app_runtime" where
  "swarm_app lb cli node_list task_nodes cfg =
     \<lparr>ar_rt = swarm_runtime (lb_codec lb) (lb_sort_services lb) cli (conf_Instance cfg) (lb_slot lb) (lb_now lb),
      ar_disc = (\<lambda>x. returning (Inl hung) (swarm_discover lb cli node_list task_nodes cfg x)),
      ar_runs = \<lparr>rh_ListRuns = (\<lambda>x a t. returning (Inl hung) (swarm_ListRuns (lb_sort_runs lb) cli x a t)),
                 rh_GetRun = (\<lambda>x i. returning (Inl hung) (swarm_GetRun (lb_IsNotFound lb) cli x i)),
                 rh_RunLogs = (\<lambda>x i. returning ([], Some hung) (swarm_RunLogs cli x i))\<rparr>,
      ar_recover = Some (\<lambda>x. returning (0, Some hung) (RecoverQuiesced cli (conf_Instance cfg) x))\<rparr>"

text \<open>The process inside a mover container: its exit code and its output; \<open>None\<close> where the mover does not return.\<close>

definition mover_main ::
  "string \<Rightarrow> string list \<Rightarrow> 'w mover_env \<Rightarrow> (string \<Rightarrow> string) \<Rightarrow> 'w mover_io \<Rightarrow> (nat \<times> 'w mover_io) option" where
  "mover_main version args e getenv io =
     (if length args = 2 \<and> args ! 1 = ''--version'' then Some (0, io)
      else case Execute e getenv io of
        None \<Rightarrow> None
      | Some (None, io) \<Rightarrow> Some (0, io)
      | Some (Some err, io) \<Rightarrow> Some (1, io))"

section \<open>From a label to the mounts of a mover\<close>

lemma data_path_inj: "inj data_path"
  by (rule injI) (simp add: data_path_def)

lemma docker_discover_wf:
  assumes "slice_sorter (lb_sort_jobs lb) job_App" "docker_discover lb cli cfg x w = (Inr js, w')" "j \<in> set js"
  shows "wf_job j"
proof -
  obtain r w1 where l: "ContainerList cli x True [] w = (r, w1)" by (metis prod.exhaust)
  with assms(2) obtain cs where cs: "docker_List (lb_sort_jobs lb) (lb_decode lb) (\<lambda>n. map_sum id cj_Mounts (fst (ContainerInspect cli x n w1))) (NewDiscoverer cfg) (Inr cs) = Inr js"
    by (auto simp: docker_discover_def docker_List_def split: sum.splits)
  from docker_List_result[OF cs] obtain jobs where "\<forall>j\<in>set jobs. wf_job j" "js = lb_sort_jobs lb (fst (DropNamedCollisions jobs))" by metis
  with discovery_contract(1)[OF assms(1) _ _ assms(3)] show ?thesis by blast
qed

lemma sourcesForTarget_filter: "\<exists>P. sourcesForTarget j t = filter P (job_Sources j)"
  by (auto simp: sourcesForTarget_def split: option.split intro: exI[of _ "\<lambda>_. True"])


section \<open>Sources in Swarm mode\<close>

text \<open>
  In Swarm mode there are no snapshots: none and auto mount every source live without asking the cluster for more than it has
  (volumes are never resolved to a path), and every strict mode fails the run before its mover.
\<close>

theorem swarm_sources_live:
  "let mode = SnapshotMode (job_Spec j) (conf_Snapshot (o_cfg oc)); rt = swarm_runtime cd srt cli inst slot now
   in if mode \<in> {[], ''none'', ''auto''}
      then (\<exists>cl. sourceMountsFor rt oc x j (Some w) = (Inr (sourceMounts j True, cl), Some w) \<and> (\<forall>y u. cl y u = u))
      else run_mover_phase rt oc x j t renv (Some w) = ((no_result, Some (unknown_mode rt mode)), Some w)"
proof -
  let ?rt = "swarm_runtime cd srt cli inst slot now"
  have vh: "rt_VolumeHostPath ?rt x n (Some w) = (Inr (fst (projr (fst (swarm_VolumeHostPath x n w))), snd (projr (fst (swarm_VolumeHostPath x n w)))), Some w)" for n
    by (simp add: swarm_runtime_def swarm_VolumeHostPath_def)
  have rl: "\<exists>srcs fo. resolve_loop ?rt x ss srcs0 fo0 (Some w) = (Inr (srcs, fo), Some w)" for ss srcs0 fo0
    by (induction ss arbitrary: srcs0 fo0) (simp_all add: vh split: prod.split)
  have snaps: "rt_snaps ?rt = []" by (simp add: swarm_runtime_def)
  from rl[of "job_Sources j" "[]" "[]"] obtain srcs fo where r: "resolveHostPaths ?rt x j (Some w) = (Inr (srcs, fo), Some w)"
    by (auto simp: resolveHostPaths_def)
  have "autoMounts ?rt x j (Some w) = (Inr (sourceMounts j True, run_cleanups []), Some w)"
    using r snaps by (simp add: autoMounts_def)
  then show ?thesis
    using snaps by (auto simp: Let_def sourceMountsFor_def run_mover_phase_def snapshotterFor_def)
qed
definition mem_libs :: "string list libs" where
  "mem_libs = \<lparr>lb_codec = demo_codec, lb_quote = id, lb_decode = demo_decode, lb_parse_time = (\<lambda>s. Inr 0), lb_IsNotFound = (\<lambda>e. True),
     lb_sort_jobs = sort_key job_App, lb_sort_runs = id, lb_sort_containers = id, lb_sort_services = id,
     lb_slot = (\<lambda>x w. (None, w)), lb_now = (\<lambda>w. 7)\<rparr>"


text \<open>The watcher of Swarm services is the loop of the container watcher over another stream.\<close>

definition swarm_watch_event :: "stream_event \<Rightarrow> nat \<times> metrics \<Rightarrow> (nat \<times> metrics) option" where
  "swarm_watch_event ev st =
     (case (ev, st) of
        (StreamMsg, (n, m)) \<Rightarrow> Some (Signal 1 n, m)
      | (StreamErr, (n, m)) \<Rightarrow> Some (n, ObserveWatchRestart m)
      | (StreamDone, _) \<Rightarrow> None)"

lemma swarm_watch_event_same: "swarm_watch_event ev st = watch_event ev st"
  by (cases ev; cases st) (simp_all add: swarm_watch_event_def)

end
