(* ===== verification/Swarm_History.thy ===== *)
theory Swarm_History
  imports Swarm_Engine
begin

text \<open>
  The run history of the Swarm engine: its movers are services, and a service has ended when its tasks could be listed and none
  of them is running. The sorting and the removals satisfy the interface \<open>run_history\<close> of the standalone engine.
\<close>

definition service_ended :: "(string \<Rightarrow> swarm_task list res) \<Rightarrow> service \<Rightarrow> bool" where
  "service_ended tasks s = (case tasks (svc_ID s) of Inl _ \<Rightarrow> False | Inr ts \<Rightarrow> \<not> anyRunning ts)"

lemma sw_sort_out_world:
  assumes "\<forall>i. TaskList cli x i w = (tasks i, w)"
  shows "snd (sw_sort_out cli x ss groups stray w) = w"
proof (induction ss arbitrary: groups stray)
  case (Cons s ss)
  have "serviceRunning cli x (svc_ID s) w = (\<not> service_ended tasks s, w)"
    using assms by (simp add: serviceRunning_def service_ended_def split: sum.splits)
  with Cons show ?case by (cases "service_ended tasks s") (simp_all add: Let_def)
qed simp

text \<open>On tasks that stay as they are while the history is read, the reap trims the history the way the standalone engine does.\<close>

lemma service_history:
  assumes "\<forall>i. TaskList cli x i w = (tasks i, w)"
  shows "run_history svc_ID svc_Labels (service_ended tasks) (\<lambda>ss g s. fst (sw_sort_out cli x ss g s w))
    (\<lambda>srt keep ss. case fst (sw_sort_out cli x ss [] [] w) of
       (groups, stray) \<Rightarrow> map svc_ID stray @ concat (map (\<lambda>(k, ss). map svc_ID (drop (nat keep) (srt ss))) groups))"
proof -
  have r: "serviceRunning cli x (svc_ID s) w = (\<not> service_ended tasks s, w)" for s
    using assms by (simp add: serviceRunning_def service_ended_def split: sum.splits)
  show ?thesis by unfold_locales (auto simp: r stray_run_def run_of_def)
qed


text \<open>A cluster with three backups of one app on one target, one of them still running.\<close>

definition demo_mover_service :: "string \<Rightarrow> int \<Rightarrow> service" where
  "demo_mover_service i created = \<lparr>svc_ID = i, svc_Version = 1, svc_CreatedAt = created, svc_Name = i,
     svc_Labels = [(LabelKey, ''true''), (LabelApp, ''db''), (LabelTarget, ''nas''), (LabelAction, ''backup'')],
     svc_Mounts = None, svc_Env = [], svc_Constraints = None, svc_Replicated = None\<rparr>"

definition demo_history :: "unit swarm_client" where
  "demo_history = idle_swarm\<lparr>
     ServiceList := (\<lambda>x fs w. (Inr [demo_mover_service ''a'' 1, demo_mover_service ''b'' 0, demo_mover_service ''c'' 3, demo_mover_service ''d'' 2], w)),
     TaskList := (\<lambda>x i w. (if i = ''b'' then Inl (External ''timeout'') else Inr [], w))\<rparr>"


end
