(* ===== verification/Keyed_State.thy ===== *)
theory Keyed_State
  imports Orchestrator
begin

text \<open>
  The shared state of concurrent runs behind the orchestrator's locks and counts (\<^verbatim>\<open>internal/backup/backup.go\<close>): maps of
  pointers, filled on demand. The keyed mutex is shown to implement the lock set, and the counters of cold stops the counts,
  that the model of the orchestrator keeps.
\<close>

section \<open>Objects by key\<close>

text \<open>
  \<^verbatim>\<open>keyedMutex\<close> and \<^verbatim>\<open>coldStops\<close> are maps from a key to a pointer, filled on first use under the map's own mutex; an
  object lives at the address it was allocated at.
\<close>

record 'o registry =
  rg_m :: "(string, nat) gomap"
  rg_heap :: "'o list"

definition rg_New :: "'o registry" where
  "rg_New = \<lparr>rg_m = [], rg_heap = []\<rparr>"

definition rg_get :: "'o \<Rightarrow> string \<Rightarrow> 'o registry \<Rightarrow> nat \<times> 'o registry" where
  "rg_get z key r =
     (case map_of (rg_m r) key of
        Some a \<Rightarrow> (a, r)
      | None \<Rightarrow> (length (rg_heap r), \<lparr>rg_m = AList.update key (length (rg_heap r)) (rg_m r), rg_heap = rg_heap r @ [z]\<rparr>))"

definition rg_put :: "nat \<Rightarrow> 'o \<Rightarrow> 'o registry \<Rightarrow> 'o registry" where
  "rg_put a v r = r\<lparr>rg_heap := (rg_heap r)[a := v]\<rparr>"

text \<open>No two keys share an object. A key that was never used stands for a fresh object.\<close>

definition rg_ok :: "'o registry \<Rightarrow> bool" where
  "rg_ok r \<longleftrightarrow> (\<forall>k a. map_of (rg_m r) k = Some a \<longrightarrow> a < length (rg_heap r)) \<and>
     (\<forall>k l a. map_of (rg_m r) k = Some a \<longrightarrow> map_of (rg_m r) l = Some a \<longrightarrow> k = l)"

definition rg_at :: "'o \<Rightarrow> 'o registry \<Rightarrow> string \<Rightarrow> 'o" where
  "rg_at z r k = (case map_of (rg_m r) k of Some a \<Rightarrow> rg_heap r ! a | None \<Rightarrow> z)"

lemma rg_New [simp]: "rg_ok rg_New" "rg_at z rg_New k = z"
  by (simp_all add: rg_ok_def rg_at_def rg_New_def)

lemma rg_getD:
  assumes "rg_get z key r = (a, r')" "rg_ok r"
  shows "rg_ok r'" "map_of (rg_m r') key = Some a" "rg_at z r' = rg_at z r" "map_of (rg_m r) k = Some b \<Longrightarrow> map_of (rg_m r') k = Some b"
    "b < length (rg_heap r) \<Longrightarrow> rg_heap r' ! b = rg_heap r ! b" "length (rg_heap r) \<le> length (rg_heap r')"
    "b < length (rg_heap r') \<Longrightarrow> \<not> b < length (rg_heap r) \<Longrightarrow> rg_heap r' ! b = z"
  using assms by (fastforce simp: rg_get_def rg_ok_def rg_at_def update_conv nth_append fun_eq_iff split: option.splits if_splits)+

lemma rg_putD:
  assumes "rg_ok r" "map_of (rg_m r) key = Some a"
  shows "rg_ok (rg_put a v r)" "rg_at z (rg_put a v r) = (rg_at z r)(key := v)"
  using assms by (auto simp: rg_put_def rg_ok_def rg_at_def fun_eq_iff nth_list_update split: option.splits)

lemma rg_put_simps [simp]: "rg_m (rg_put a v r) = rg_m r" "length (rg_heap (rg_put a v r)) = length (rg_heap r)"
  "b < length (rg_heap r) \<Longrightarrow> rg_heap (rg_put a v r) ! b = (if a = b then v else rg_heap r ! b)"
  by (auto simp: rg_put_def nth_list_update)

section \<open>The keyed mutex\<close>

text \<open>
  A run calls \<^verbatim>\<open>lock\<close> with its key: it gets the mutex of the key, waits for it, and later unlocks it. Threads are numbered and
  interleave between these steps.
\<close>

datatype mutex_pc = Outside | Awaits nat | Inside nat

record mutex_sys =
  mx_reg :: "bool registry"
  mx_pc :: "nat \<Rightarrow> mutex_pc"

inductive mutex_step :: "(nat \<Rightarrow> string) \<Rightarrow> nat \<Rightarrow> mutex_sys \<Rightarrow> mutex_sys \<Rightarrow> bool" for keys where
  get: "mx_pc s i = Outside \<Longrightarrow> rg_get False (keys i) (mx_reg s) = (a, r) \<Longrightarrow>
    mutex_step keys i s \<lparr>mx_reg = r, mx_pc = (mx_pc s)(i := Awaits a)\<rparr>"
| enter: "mx_pc s i = Awaits a \<Longrightarrow> \<not> rg_heap (mx_reg s) ! a \<Longrightarrow>
    mutex_step keys i s \<lparr>mx_reg = rg_put a True (mx_reg s), mx_pc = (mx_pc s)(i := Inside a)\<rparr>"
| leave: "mx_pc s i = Inside a \<Longrightarrow>
    mutex_step keys i s \<lparr>mx_reg = rg_put a False (mx_reg s), mx_pc = (mx_pc s)(i := Outside)\<rparr>"

inductive_cases mutex_stepE: "mutex_step keys i s s'"

inductive mutex_reachable :: "(nat \<Rightarrow> string) \<Rightarrow> mutex_sys \<Rightarrow> bool" for keys where
  mutex_init: "mutex_reachable keys \<lparr>mx_reg = rg_New, mx_pc = (\<lambda>_. Outside)\<rparr>"
| mutex_next: "mutex_reachable keys s \<Longrightarrow> mutex_step keys i s s' \<Longrightarrow> mutex_reachable keys s'"

definition mutex_inv :: "(nat \<Rightarrow> string) \<Rightarrow> mutex_sys \<Rightarrow> bool" where
  "mutex_inv keys s \<longleftrightarrow> rg_ok (mx_reg s) \<and>
     (\<forall>i a. mx_pc s i = Awaits a \<or> mx_pc s i = Inside a \<longrightarrow> map_of (rg_m (mx_reg s)) (keys i) = Some a) \<and>
     (\<forall>i j a. mx_pc s i = Inside a \<longrightarrow> mx_pc s j = Inside a \<longrightarrow> i = j) \<and>
     (\<forall>a < length (rg_heap (mx_reg s)). rg_heap (mx_reg s) ! a \<longleftrightarrow> (\<exists>i. mx_pc s i = Inside a))"
lemma mutex_invD:
  assumes "mutex_inv keys s"
  shows "rg_ok (mx_reg s)" "mx_pc s i = Awaits a \<Longrightarrow> map_of (rg_m (mx_reg s)) (keys i) = Some a"
    "mx_pc s i = Inside a \<Longrightarrow> map_of (rg_m (mx_reg s)) (keys i) = Some a"
    "mx_pc s i = Inside a \<Longrightarrow> mx_pc s j = Inside a \<Longrightarrow> i = j"
    "map_of (rg_m (mx_reg s)) k = Some a \<Longrightarrow> a < length (rg_heap (mx_reg s)) \<and> (rg_heap (mx_reg s) ! a \<longleftrightarrow> (\<exists>i. mx_pc s i = Inside a))"
  using assms by (auto simp: mutex_inv_def rg_ok_def)

lemma inside_upd:
  "\<forall>b. f i \<noteq> Inside b \<Longrightarrow> (\<exists>j. (f(i := p)) j = Inside b) \<longleftrightarrow> p = Inside b \<or> (\<exists>j. f j = Inside b)"
  by (metis fun_upd_apply)

lemma mutex_inv_step:
  assumes "mutex_inv keys s" "mutex_step keys i s s'"
  shows "mutex_inv keys s'"
  using assms(2)
proof cases
  case (get a r)
  note g = rg_getD[OF get(3) mutex_invD(1)[OF assms(1)]]
  have "rg_heap r ! b \<longleftrightarrow> (\<exists>j. mx_pc s j = Inside b)" if "b < length (rg_heap r)" for b
  proof (cases "b < length (rg_heap (mx_reg s))")
    case True with g(5) assms(1) show ?thesis by (simp add: mutex_inv_def)
  next
    case False with g(7)[OF that] mutex_invD(3,5)[OF assms(1)] show ?thesis by blast
  qed
  with g assms(1) get(1,2) inside_upd[of "mx_pc s" i "Awaits a"] show ?thesis by (simp add: mutex_inv_def)
next
  case (enter a)
  have k: "map_of (rg_m (mx_reg s)) (keys i) = Some a" and a: "a < length (rg_heap (mx_reg s))" "\<And>j. mx_pc s j \<noteq> Inside a"
    using mutex_invD(2,5)[OF assms(1)] enter by blast+
  have "rg_ok (rg_put a True (mx_reg s))" by (rule rg_putD(1)[OF mutex_invD(1)[OF assms(1)] k])
  with k a assms(1) enter(1,2) inside_upd[of "mx_pc s" i "Inside a"] show ?thesis
    by (simp add: mutex_inv_def) blast
next
  case (leave a)
  have k: "map_of (rg_m (mx_reg s)) (keys i) = Some a" and a: "a < length (rg_heap (mx_reg s))" "\<And>j. mx_pc s j = Inside a \<Longrightarrow> j = i"
    using mutex_invD(3,4,5)[OF assms(1)] leave by blast+
  have "rg_ok (rg_put a False (mx_reg s))" by (rule rg_putD(1)[OF mutex_invD(1)[OF assms(1)] k])
  moreover have "rg_heap (rg_put a False (mx_reg s)) ! b \<longleftrightarrow> (\<exists>j. ((mx_pc s)(i := Outside)) j = Inside b)"
    if "b < length (rg_heap (mx_reg s))" for b
  proof -
    have "(\<exists>j. ((mx_pc s)(i := Outside)) j = Inside b) \<longleftrightarrow> b \<noteq> a \<and> (\<exists>j. mx_pc s j = Inside b)"
      using leave(2) a(2) by (metis fun_upd_apply mutex_pc.distinct(3) mutex_pc.inject(2))
    then show ?thesis using that assms(1) by (simp only: rg_put_simps mutex_inv_def) auto
  qed
  ultimately show ?thesis using assms(1) unfolding mutex_inv_def leave(1) mutex_sys.simps rg_put_simps
    by (intro conjI allI impI) (auto split: if_splits)
qed

lemma mutex_reachable_inv: "mutex_reachable keys s \<Longrightarrow> mutex_inv keys s"
proof (induction rule: mutex_reachable.induct)
  case mutex_init show ?case by (simp add: mutex_inv_def) (simp add: rg_New_def)
qed (rule mutex_inv_step)

text \<open>The locks of the orchestrator's state are the keys whose mutex is locked.\<close>

definition locks_match :: "mutex_sys \<Rightarrow> 'w ostate \<Rightarrow> bool" where
  "locks_match s st \<longleftrightarrow> distinct (os_locks st) \<and> (\<forall>k. k \<in> set (os_locks st) \<longleftrightarrow> rg_at False (mx_reg s) k)"

text \<open>
  C11. The keyed mutex implements the lock set of the orchestrator. In every interleaving, when the
  lock set is the set of the keys whose mutex is locked: looking up the mutex changes no lock; passing the wait is \<open>lock\<close> of a key that was
  free; returning the mutex is \<open>unlock\<close> of a key that was held, and the sets still agree. A waiting run can pass exactly when its key is
  free, whatever happens on other keys, and no two runs hold the same key.
\<close>

theorem keyed_mutex_refines_locks:
  assumes "mutex_reachable keys s" "locks_match s st"
  shows "(mutex_step keys i s s' \<longrightarrow>
       (case mx_pc s i of
          Outside \<Rightarrow> locks_match s' st
        | Awaits a \<Rightarrow> keys i \<notin> set (os_locks st) \<and> locks_match s' (lock (keys i) st)
        | Inside a \<Rightarrow> keys i \<in> set (os_locks st) \<and> locks_match s' (unlock (keys i) st))) \<and>
    (\<forall>a. mx_pc s i = Awaits a \<longrightarrow> ((\<exists>s'. mutex_step keys i s s') \<longleftrightarrow> keys i \<notin> set (os_locks st))) \<and>
    (\<forall>j a b. mx_pc s i = Inside a \<longrightarrow> mx_pc s j = Inside b \<longrightarrow> keys i = keys j \<longrightarrow> i = j)"
proof (intro conjI allI impI)
  note inv = mutex_reachable_inv[OF assms(1)]
  note ok = mutex_invD(1)[OF inv]
  have at: "rg_at False (mx_reg s) (keys i) = rg_heap (mx_reg s) ! a" if "mx_pc s i = Awaits a \<or> mx_pc s i = Inside a" for i a
    using that mutex_invD(2,3)[OF inv] by (auto simp: rg_at_def)
  show "case mx_pc s i of
          Outside \<Rightarrow> locks_match s' st
        | Awaits a \<Rightarrow> keys i \<notin> set (os_locks st) \<and> locks_match s' (lock (keys i) st)
        | Inside a \<Rightarrow> keys i \<in> set (os_locks st) \<and> locks_match s' (unlock (keys i) st)" if "mutex_step keys i s s'"
    using that
  proof cases
    case (get a r)
    with rg_getD(3)[OF get(3) ok] assms(2) show ?thesis by (simp add: locks_match_def)
  next
    case (enter a)
    with at[of i a] rg_putD(2)[OF ok mutex_invD(2)[OF inv enter(2)]] assms(2) show ?thesis by (auto simp: locks_match_def lock_def)
  next
    case (leave a)
    then have "rg_heap (mx_reg s) ! a" using mutex_invD(3,5)[OF inv] by blast
    with leave at[of i a] rg_putD(2)[OF ok mutex_invD(3)[OF inv leave(2)]] assms(2) show ?thesis
      by (simp add: locks_match_def unlock_def)
  qed
  show "(\<exists>s'. mutex_step keys i s s') \<longleftrightarrow> keys i \<notin> set (os_locks st)" if "mx_pc s i = Awaits a" for a
    using that at[of i a] assms(2) mutex_step.enter[of s i a keys] by (auto simp: locks_match_def elim: mutex_stepE)
  show "i = j" if "mx_pc s i = Inside a" "mx_pc s j = Inside b" "keys i = keys j" for j a b
    using that mutex_invD(3,4)[OF inv] by (metis option.inject)
qed
text \<open>Two runs of one repository: the second has looked up the mutex that the first one holds.\<close>

lemma mutex_demo:
  "\<exists>s. mutex_reachable (\<lambda>_. ''nas|shop'') s \<and> mx_pc s 0 = Inside 0 \<and> mx_pc s (Suc 0) = Awaits 0 \<and>
     (\<forall>k. rg_at False (mx_reg s) k \<longleftrightarrow> k = ''nas|shop'')"
proof -
  let ?keys = "\<lambda>_::nat. ''nas|shop''" and ?m = "[(''nas|shop'', 0)] :: (string, nat) gomap"
  let ?s = "\<lambda>l p q. \<lparr>mx_reg = \<lparr>rg_m = ?m, rg_heap = [l]\<rparr>, mx_pc = ((\<lambda>_. Outside)(0 := p))(Suc 0 := q)\<rparr>"
  have "mutex_step ?keys 0 \<lparr>mx_reg = rg_New, mx_pc = (\<lambda>_. Outside)\<rparr> \<lparr>mx_reg = \<lparr>rg_m = ?m, rg_heap = [False]\<rparr>, mx_pc = (\<lambda>_. Outside)(0 := Awaits 0)\<rparr>"
    using mutex_step.get[of "\<lparr>mx_reg = rg_New, mx_pc = (\<lambda>_. Outside)\<rparr>" 0 ?keys] by (simp add: rg_get_def rg_New_def)
  from mutex_next[OF mutex_init this] have "mutex_reachable ?keys (?s False (Awaits 0) Outside)" by (simp add: fun_upd_idem)
  moreover have "mutex_step ?keys (Suc 0) (?s False (Awaits 0) Outside) (?s False (Awaits 0) (Awaits 0))"
    using mutex_step.get[of "?s False (Awaits 0) Outside" "Suc 0" ?keys 0 "\<lparr>rg_m = ?m, rg_heap = [False]\<rparr>"] by (simp add: rg_get_def)
  moreover have "mutex_step ?keys 0 (?s False (Awaits 0) (Awaits 0)) (?s True (Inside 0) (Awaits 0))"
    using mutex_step.enter[of "?s False (Awaits 0) (Awaits 0)" 0 0 ?keys] by (simp add: rg_put_def fun_upd_twist)
  ultimately have "mutex_reachable ?keys (?s True (Inside 0) (Awaits 0))" by (meson mutex_next)
  then show ?thesis by (intro exI[of _ "?s True (Inside 0) (Awaits 0)"]) (simp add: rg_at_def)
qed

theorem keyed_mutex_refines_locks_witness:
  "\<exists>s. mutex_reachable (\<lambda>_. ''nas|shop'') s \<and> mx_pc s (Suc 0) = Awaits 0 \<and>
     locks_match s (lock ''nas|shop'' (orch_New ())) \<and> \<not> (\<exists>s'. mutex_step (\<lambda>_. ''nas|shop'') (Suc 0) s s')"
proof -
  obtain s where s: "mutex_reachable (\<lambda>_. ''nas|shop'') s" "mx_pc s (Suc 0) = Awaits 0" "\<forall>k. rg_at False (mx_reg s) k \<longleftrightarrow> k = ''nas|shop''"
    using mutex_demo by blast
  then have m: "locks_match s (lock ''nas|shop'' (orch_New ()))" by (simp add: locks_match_def lock_def orch_New_def)
  from keyed_mutex_refines_locks[OF s(1) m, of "Suc 0"] s(2)
  have "\<not> (\<exists>s'. mutex_step (\<lambda>_. ''nas|shop'') (Suc 0) s s')" by (simp add: lock_def orch_New_def)
  with s m show ?thesis by blast
qed

section \<open>The cold stops\<close>

text \<open>
  \<^verbatim>\<open>hold\<close> and \<^verbatim>\<open>release\<close> of a \<^verbatim>\<open>coldStop\<close> run under its mutex, the stop and the start included: each is one step on the
  counter at its address and on the world.
\<close>

definition coldStop_hold :: "('w \<Rightarrow> error option \<times> 'w) \<Rightarrow> nat \<Rightarrow> int registry \<times> 'w \<Rightarrow> error option \<times> int registry \<times> 'w" where
  "coldStop_hold stop a = (\<lambda>(r, w).
     case (if rg_heap r ! a = 0 then stop w else (None, w)) of
       (Some e, w) \<Rightarrow> (Some e, r, w)
     | (None, w) \<Rightarrow> (None, rg_put a (rg_heap r ! a + 1) r, w))"

definition coldStop_release :: "('w \<Rightarrow> 'w) \<Rightarrow> nat \<Rightarrow> int registry \<times> 'w \<Rightarrow> int registry \<times> 'w" where
  "coldStop_release start a = (\<lambda>(r, w).
     let r = rg_put a (rg_heap r ! a - 1) r
     in (r, if rg_heap r ! a = 0 then start w else w))"

definition colds_match :: "int registry \<times> 'w \<Rightarrow> 'w ostate \<Rightarrow> bool" where
  "colds_match = (\<lambda>(r, w) st. rg_ok r \<and> rg_at 0 r = os_refs st \<and> os_world st = w)"

text \<open>
  The counters behind pointers implement the counts of the orchestrator. Looking up the counter of
  a container changes no count, and on the counter that was looked up for the container, however many others were looked up since, hold and release
  do what \<open>cold_hold\<close> and \<open>cold_release\<close> do on the counts and the world, with the same result.
\<close>

theorem cold_stops_refine_counts:
  assumes "colds_match (r, w) st"
  shows "(rg_get 0 c r = (a, r') \<longrightarrow> colds_match (r', w) st \<and> map_of (rg_m r') c = Some a \<and>
       (\<forall>d b. map_of (rg_m r) d = Some b \<longrightarrow> map_of (rg_m r') d = Some b)) \<and>
    (map_of (rg_m r) c = Some a \<longrightarrow>
       (case coldStop_hold stop a (r, w) of (e, q) \<Rightarrow>
          \<exists>st'. cold_hold c (ocall stop) st = (e, st') \<and> colds_match q st' \<and> rg_m (fst q) = rg_m r) \<and>
       (let q = coldStop_release start a (r, w) in
          colds_match q (cold_release c (\<lambda>st. snd (ocall (\<lambda>w. ((), start w)) st)) st) \<and> rg_m (fst q) = rg_m r))"
proof (intro conjI impI)
  show "colds_match (r', w) st" "map_of (rg_m r') c = Some a" "\<forall>d b. map_of (rg_m r) d = Some b \<longrightarrow> map_of (rg_m r') d = Some b"
    if "rg_get 0 c r = (a, r')"
    using rg_getD[OF that] assms by (auto simp: colds_match_def)
next
  assume a: "map_of (rg_m r) c = Some a"
  have r: "rg_ok r" and st: "rg_at 0 r = os_refs st" "os_world st = w" using assms by (simp_all add: colds_match_def)
  have c: "rg_heap r ! a = os_refs st c" using a st(1)[THEN fun_cong, of c] by (simp add: rg_at_def)
  have l: "a < length (rg_heap r)" using a r by (simp add: rg_ok_def)
  note put = rg_putD(1)[OF r a] rg_putD(2)[OF r a, where z = 0]
  show "case coldStop_hold stop a (r, w) of (e, q) \<Rightarrow>
      \<exists>st'. cold_hold c (ocall stop) st = (e, st') \<and> colds_match q st' \<and> rg_m (fst q) = rg_m r"
    using st c put r by (auto simp: coldStop_hold_def cold_hold_def ocall_def colds_match_def split: prod.splits option.splits)
  show "let q = coldStop_release start a (r, w) in
      colds_match q (cold_release c (\<lambda>st. snd (ocall (\<lambda>w. ((), start w)) st)) st) \<and> rg_m (fst q) = rg_m r"
    using st c put l by (auto simp: coldStop_release_def cold_release_def ocall_def colds_match_def Let_def)
qed

end
