(* ===== verification/Spec2Isabelle.thy ===== *)
theory Spec2Isabelle
  imports Shutdown Run_Paths Wiring Swarm_History Keyed_State
begin

text \<open>
  A verification library for sabon, a backup orchestrator for Docker. sabon discovers containers (or Swarm services) that carry
  backup labels, schedules their backups, and runs each one as a short-lived mover container that drives restic. This theory imports
  the whole library; the file names below are those of the repository.

  \<^bold>\<open>Parts and how they interact.\<close> The daemon (\<^verbatim>\<open>cmd/sabon\<close>) loads the configuration, detects the runtime (a standalone Docker engine or a
  Swarm manager) and builds the engine, discoverer, quiescer, hooks and host functions of that runtime. The reconciler turns what
  the discoverer finds into plans and synchronises the cron scheduler with them; a firing job, a one-shot command or a request to the
  control API calls the orchestrator. A run of the orchestrator takes the lock of its repository and a slot, runs the pre-hooks, stops the app
  for a cold backup (counted, so that overlapping runs share one downtime), snapshots the sources, starts the mover, runs the
  post-hooks, releases the snapshots and starts the app. Results go to the metrics and the notifier.

  \<^bold>\<open>Ground.\<close>
  \<^item> \<open>Sabon_Prelude\<close>: Go strings as byte lists, errors as values (\<open>error\<close>, \<open>'a res\<close>), Go maps as association lists, durations, the
    interface \<open>slice_sorter\<close> of \<^verbatim>\<open>sort.Slice\<close>, and the lemmas the components share.
  \<^item> \<open>Go_Strings\<close>, \<open>Go_Path\<close>, \<open>Go_Float\<close>: what the code uses of \<^verbatim>\<open>strings\<close>, \<^verbatim>\<open>strconv\<close>, \<^verbatim>\<open>path\<close> and \<^verbatim>\<open>float64\<close> formatting.
  \<^item> \<open>Docker_Client\<close>: contexts and the Docker client, a record of functions over an arbitrary world. The client, the Swarm client, the
    cron library, restic, the YAML and JSON codecs, the template engine and the network are arguments wherever they occur; what is
    relied on is a named hypothesis with an instance in the witness (for example \<open>zfs_host\<close>, \<open>cron_ok\<close>, \<open>swarm_store\<close>, \<open>swarm_services\<close>, \<open>context_ends\<close>, \<open>reaches\<close>).

  \<^bold>\<open>Components.\<close>
  \<^item> \<open>Api\<close> (\<^verbatim>\<open>api/backup.go\<close>, \<^verbatim>\<open>api/targets.go\<close>): the label document and the targets, their validation and retention arguments; the
    validator accepts exactly the well-formed targets.
  \<^item> \<open>Config\<close> (\<^verbatim>\<open>internal/config\<close>): the environment and the targets file; a configuration that loads is valid.
  \<^item> \<open>Labels\<close> (\<^verbatim>\<open>internal/label\<close>): reading the labels of a container, independent of the order of a Go map.
  \<^item> \<open>Discovery\<close>, \<open>Runtime_Discovery\<close> (\<^verbatim>\<open>internal/discovery\<close>, \<^verbatim>\<open>internal/engine/docker/discovery.go\<close>, \<^verbatim>\<open>internal/engine/swarm/discovery.go\<close>): jobs, unique
    source names (interface \<open>fresh_names\<close>), collisions; both discoverers satisfy the interface \<open>discoverer\<close>: well-formed jobs, sorted, a
    named backup alone on its repository; repositories of different apps are apart.
  \<^item> \<open>Zfs\<close> (\<^verbatim>\<open>internal/snapshot\<close>): the provider interface \<open>snapshot_provider\<close>, datasets, snapshots, the reap. A failed snapshot leaves none
    behind, cleanup removes exactly what was taken, and a reap spares what a mover still reads.
  \<^item> \<open>Mover\<close> (\<^verbatim>\<open>internal/mover/mover.go\<close>) and \<open>Runner\<close> (\<^verbatim>\<open>internal/mover/runner.go\<close>): the process inside the container and its other half; retention
    only runs with a policy and scoped to its host, the result line survives the log stream, containers are removed (interface
    \<open>mover_engine\<close>), the history keeps the newest (interface \<open>run_history\<close>, which the Swarm engine satisfies too).
  \<^item> \<open>Orchestrator\<close> (\<^verbatim>\<open>internal/backup\<close>): every operation of the orchestrator over a \<open>runtime\<close> record, with the shared state
    of locks, slots and cold stops.
  \<^item> \<open>Keyed_State\<close> (\<^verbatim>\<open>internal/backup/backup.go\<close>): the maps of mutexes and counters behind those locks and cold stops, with pointers; in every
    interleaving they implement the lock set and the counts of \<open>Orchestrator\<close>.
  \<^item> \<open>Run_Phases\<close>, \<open>Backup_Runs\<close>: the interface \<open>phased_run\<close> lifts a relation on single calls to whole runs; with a traced runtime it gives the
    order of the phases, the bracket of a cold backup, the release of everything shared, and that hooks stay in their project.
  \<^item> \<open>Concurrency\<close>: runs side by side as a step relation; mutual exclusion per repository, shared downtime, the slot bound and progress are
    invariants of every reachable state. \<open>Run_Paths\<close>: the steps are what the code does; a backup or a restore of the orchestrator, on any runtime
    that leaves the apps alone but for its stops and starts (the standalone one does), is a path of the machine with the mover run in the bracket.
  \<^item> \<open>Shutdown\<close> (\<^verbatim>\<open>cmd/sabon/daemon.go\<close>, \<^verbatim>\<open>Scheduler.Stop\<close>): the daemon process around these runs, from its signal over the grace period and the end of the
    scheduler to the exit; which runs the exit can cut off, and in which state it leaves the apps.
  \<^item> \<open>Docker_Engine\<close>, \<open>Standalone\<close> (\<^verbatim>\<open>internal/engine/docker\<close>): the standalone runtime and its composition with the orchestrator and zfs: a
    backup leaves no snapshot behind, the reap at startup spares live movers.
  \<^item> \<open>Swarm_Engine\<close>, \<open>Swarm_History\<close>, \<open>Swarm_Quiesce\<close>, \<open>Swarm_Runtime\<close> (\<^verbatim>\<open>internal/engine/swarm\<close>): movers and hooks as services, cold backups by scaling. A mover
    returns when its context ends, the history keeps the newest runs, the replica count survives any number of stops and a crash, and a whole cold backup on
    this runtime, or a restore, ends with the service as it was.
  \<^item> \<open>Scheduler\<close> (\<^verbatim>\<open>internal/scheduler\<close>): \<open>Sync\<close> refines the synchronisation of a set of schedules. \<open>Metrics\<close>, \<open>Notify\<close>
    (\<^verbatim>\<open>internal/metrics\<close>, \<^verbatim>\<open>internal/notify\<close>): series, readiness, alerts. \<open>Reconcile\<close> (\<^verbatim>\<open>internal/reconcile\<close>): after a reconcile exactly the planned
    jobs are scheduled, and every run is counted and reported. \<open>Remote_Api\<close> (\<^verbatim>\<open>internal/remote/api/v1\<close>): routes, authentication, handlers.
  \<^item> \<open>Command\<close>, \<open>Inspect\<close>, \<open>Healthcheck\<close>, \<open>Wiring\<close> (\<^verbatim>\<open>cmd/sabon\<close>, \<^verbatim>\<open>cmd/sabon-mover\<close>): images, runtime detection, the one-shot commands, the daemon
    loop as a step relation, validate with its output, the health probe, and the runtimes as the command assembles them. The plan
    that validate prints is what a backup mounts, the probe tells the daemon's readiness, and a discovered job always gives well-formed mounts.

  \<^bold>\<open>Time, bounds and loops.\<close> Contexts are the data type \<open>ctx\<close>; a call on a context may return its error. Loops over data are structural
  recursion. The polling loops of Swarm may run for ever and are partial functions into \<open>option\<close>; that they return is proved from
  \<open>context_ends\<close>. \<open>Swarm_Runtime\<close> runs them in a world that is \<open>None\<close> once a call hangs. The drain wait has 61 rounds of fuel: a tick every
  500 ms passes its deadline of 30 s by then, and \<open>waitDrained_complete\<close> shows that more rounds change nothing. Replica counts, byte counts and
  the divisor of the byte formatter are 64-bit words.

  \<^bold>\<open>Not modelled.\<close> Flag parsing, logging, the JSON schema command and the schema extension of a target (library calls that print); the listeners of the
  HTTP servers and the encoding of their JSON; the bodies of the embedded notification templates (the engine is an argument);
  the text that restic prints for a snapshot list. None of them changes state the rest depends on. A discovery reads inspections, tasks and
  nodes as of its listing.

  \<^bold>\<open>Composition.\<close> The reconciler's jobs, the commands and the API are composed with the orchestrator by call, in \<open>Reconcile\<close>, \<open>Command\<close> and
  \<open>Remote_Api\<close>; the orchestrator with each runtime in \<open>Standalone\<close>, \<open>Swarm_Runtime\<close> and \<open>Wiring\<close>; whole runs with each other in
  \<open>Keyed_State\<close>, \<open>Concurrency\<close> and \<open>Run_Paths\<close>; the process with the runs in \<open>Shutdown\<close>. There, time is
  nondeterminism: the grace period may run out at any moment, and a cancelled run may end early or not.
\<close>

end
